(* ===== verification/Bulkhead_Prelude.thy ===== *)
theory Bulkhead_Prelude
  imports Main "HOL-Library.Word" "HOL-Library.AList"
begin

unbundle bit_operations_syntax

text \<open>
  Shared ground of the development: the C and Go integer types as words, the
  little-endian and big-endian byte encodings of machine integers that the event
  ring buffer, the socket addresses and the audit-log encoding use, and the lemma
  collections the component theories extend.

  \<^item> \<open>layout_simps\<close>: evaluation rules of the C layout calculator.
  \<^item> \<open>hook_simps\<close>: unfolding rules of the BPF programs and their helpers.
  \<^item> \<open>frame_simps\<close>: what an operation leaves unchanged.
\<close>

section \<open>Machine integers\<close>

type_synonym u8 = "8 word"
type_synonym u16 = "16 word"
type_synonym u32 = "32 word"
type_synonym u64 = "64 word"

text \<open>A C \<open>int\<close> is a 32-bit word read as two's complement through \<open>sint\<close>.\<close>

type_synonym c_int = "32 word"

named_theorems layout_simps
named_theorems hook_simps
named_theorems frame_simps

lemma unat_u8_less [simp]: "unat (b :: u8) < 256"
  using unsigned_less [of b] by simp

lemma unat_u16_less [simp]: "unat (b :: u16) < 65536"
  using unsigned_less [of b] by simp

lemma unat_u32_less [simp]: "unat (b :: u32) < 4294967296"
  using unsigned_less [of b] by simp

lemma unat_u64_less [simp]: "unat (b :: u64) < 18446744073709551616"
  using unsigned_less [of b] by simp

lemma of_nat_unat_u8 [simp]: "(of_nat (unat b) :: u8) = b"
  by simp

lemma u8_256 [simp]: "(256 :: u8) = 0"
  by (simp add: word_eq_iff_unsigned)

lemma unat_of_nat_u8: "unat (of_nat n :: u8) = n mod 256"
  by (simp add: unat_of_nat)

lemma unat_of_nat_small: "n < 2 ^ LENGTH('a) \<Longrightarrow> unat (of_nat n :: 'a::len word) = n"
  by (simp add: unat_of_nat)

lemma unat_drop_bit_div: "unat (drop_bit n (a :: 'a::len word)) = unat a div 2 ^ n"
  using unsigned_less [of a]
  by (simp add: unsigned_drop_bit_eq drop_bit_eq_div [of _ "unat a"] take_bit_nat_eq_self)

text \<open>A number is determined by its quotient and remainder.\<close>

lemma div_mod_pair: "c < b \<Longrightarrow> (q :: nat) div b = a \<and> q mod b = c \<longleftrightarrow> q = a * b + c"
  by (auto simp: div_mult_mod_eq)

lemma div_mod_scaled:
  assumes "c < d" "0 < b"
  shows "(q :: nat) div (b * d) = a \<and> b * (q mod (b * d) div b) = b * c \<longleftrightarrow> q div b = a * d + c"
  using assms div_mod_pair [of c d "q div b" a]
  by (simp add: div_mult2_eq mod_mult2_eq)

section \<open>Byte encodings\<close>

datatype byte_order = Little | Big

text \<open>
  \<open>le_bytes n v\<close> is the \<open>n\<close>-byte little-endian encoding of \<open>v\<close> (its low
  \<open>8 * n\<close> bits); \<open>le_nat\<close> reads one back. Big-endian is the reversal.
\<close>

fun le_bytes :: "nat \<Rightarrow> nat \<Rightarrow> u8 list" where
  "le_bytes 0 v = []"
| "le_bytes (Suc n) v = of_nat v # le_bytes n (v div 256)"

fun le_nat :: "u8 list \<Rightarrow> nat" where
  "le_nat [] = 0"
| "le_nat (b # bs) = unat b + 256 * le_nat bs"

definition be_bytes :: "nat \<Rightarrow> nat \<Rightarrow> u8 list" where
  "be_bytes n v = rev (le_bytes n v)"

definition be_nat :: "u8 list \<Rightarrow> nat" where
  "be_nat bs = le_nat (rev bs)"

text \<open>A value in the byte order of the machine that loads or stores it.\<close>

fun native_nat :: "byte_order \<Rightarrow> u8 list \<Rightarrow> nat" where
  "native_nat Little bs = le_nat bs"
| "native_nat Big bs = be_nat bs"

fun native_bytes :: "byte_order \<Rightarrow> nat \<Rightarrow> nat \<Rightarrow> u8 list" where
  "native_bytes Little n v = le_bytes n v"
| "native_bytes Big n v = be_bytes n v"

lemma length_le_bytes [simp]: "length (le_bytes n v) = n"
  by (induction n arbitrary: v) auto

lemma length_be_bytes [simp]: "length (be_bytes n v) = n"
  by (simp add: be_bytes_def)

lemma le_nat_le_bytes: "le_nat (le_bytes n v) = v mod 256 ^ n"
proof (induction n arbitrary: v)
  case 0
  then show ?case by simp
next
  case (Suc n)
  have "v mod 256 ^ Suc n = v mod 256 + 256 * (v div 256 mod 256 ^ n)"
    by (simp add: mod_mult2_eq mult.commute add.commute)
  with Suc show ?case by (simp add: unat_of_nat_u8)
qed

lemma le_bytes_le_nat: "le_bytes (length bs) (le_nat bs) = bs"
proof (induction bs)
  case Nil
  then show ?case by simp
next
  case (Cons b bs)
  have "(unat b + 256 * le_nat bs) div 256 = le_nat bs"
    by (simp add: div_mult_self4)
  moreover have "(of_nat (unat b + 256 * le_nat bs) :: u8) = b"
    by simp
  ultimately show ?case using Cons by simp
qed

lemma le_nat_less: "le_nat bs < 256 ^ length bs"
proof (induction bs)
  case Nil
  then show ?case by simp
next
  case (Cons b bs)
  have "unat b + 256 * le_nat bs < 256 * (le_nat bs + 1)" by simp
  also have "\<dots> \<le> 256 * 256 ^ length bs" using Cons by simp
  finally show ?case by simp
qed

lemma le_nat_append: "le_nat (as @ bs) = le_nat as + 256 ^ length as * le_nat bs"
  by (induction as) (auto simp: algebra_simps)

lemma le_nat_zeroes [simp]: "le_nat (replicate n 0) = 0"
  by (induction n) auto

lemma be_nat_zeroes [simp]: "be_nat (replicate n 0) = 0"
  by (simp add: be_nat_def)

lemma be_nat_append: "be_nat (as @ bs) = be_nat as * 256 ^ length bs + be_nat bs"
  by (simp add: be_nat_def le_nat_append)

lemma be_nat_be_bytes: "be_nat (be_bytes n v) = v mod 256 ^ n"
  by (simp add: be_nat_def be_bytes_def le_nat_le_bytes)

lemma be_bytes_be_nat: "be_bytes (length bs) (be_nat bs) = bs"
  using le_bytes_le_nat [of "rev bs"] by (simp add: be_nat_def be_bytes_def)

lemma be_nat_less: "be_nat bs < 256 ^ length bs"
  using le_nat_less [of "rev bs"] by (simp add: be_nat_def)

lemma length_native_bytes [simp]: "length (native_bytes ord n v) = n"
  by (cases ord) auto

lemma native_nat_native_bytes: "native_nat ord (native_bytes ord n v) = v mod 256 ^ n"
  by (cases ord) (auto simp: le_nat_le_bytes be_nat_be_bytes)

lemma native_nat_less: "native_nat ord bs < 256 ^ length bs"
  by (cases ord) (auto simp: le_nat_less be_nat_less)

lemma be_bytes_inject:
  assumes "v < 256 ^ n" and "w < 256 ^ n"
  shows "be_bytes n v = be_bytes n w \<longleftrightarrow> v = w"
proof
  assume "be_bytes n v = be_bytes n w"
  then have "v mod 256 ^ n = w mod 256 ^ n" by (metis be_nat_be_bytes)
  with assms show "v = w" by simp
qed simp

text \<open>
  The bits of an encoded value: bit \<open>i\<close> of \<open>le_nat bs\<close> is bit \<open>i mod 8\<close> of byte
  \<open>i div 8\<close>, so reading little-endian bytes as big-endian reverses the bytes.
\<close>

lemma bit_le_nat: "bit (le_nat bs) i \<longleftrightarrow> i div 8 < length bs \<and> bit (bs ! (i div 8)) (i mod 8)"
proof (induction bs arbitrary: i)
  case Nil
  then show ?case by simp
next
  case (Cons b bs)
  have le: "le_nat (b # bs) = unat b OR push_bit 8 (le_nat bs)"
  proof -
    have "unat b AND push_bit 8 (le_nat bs) = 0"
      by (rule bit_eqI) (auto simp: bit_simps dest: bit_imp_le_length)
    then show ?thesis
      by (simp add: disjunctive_add_eq_or [symmetric] push_bit_eq_mult mult.commute)
  qed
  show ?case
  proof (cases "i < 8")
    case True
    then show ?thesis by (simp del: le_nat.simps add: le bit_simps)
  next
    case False
    then have "\<not> bit b i" by (auto dest: bit_imp_le_length)
    moreover have "i div 8 = Suc ((i - 8) div 8)" "i mod 8 = (i - 8) mod 8"
      using False by (simp_all add: le_div_geq le_mod_geq)
    ultimately show ?thesis using False Cons by (simp del: le_nat.simps add: le bit_simps)
  qed
qed

lemma bit_nth_le_bytes:
  "k < n \<Longrightarrow> bit (le_bytes n v ! k) j \<longleftrightarrow> j < 8 \<and> bit v (8 * k + j)"
proof (induction n arbitrary: v k)
  case 0
  then show ?case by simp
next
  case (Suc n)
  show ?case
  proof (cases k)
    case 0
    then show ?thesis by (simp add: bit_simps)
  next
    case (Suc m)
    have "bit (v div 256) i = bit v (8 + i)" for i
      using bit_drop_bit_eq [of 8 v] by (simp add: drop_bit_eq_div)
    with Suc Suc.IH Suc.prems show ?thesis by (simp add: add.assoc)
  qed
qed

lemma bit_be_nat_le_bytes:
  "bit (be_nat (le_bytes n v)) i \<longleftrightarrow> i < 8 * n \<and> bit v (8 * (n - 1 - i div 8) + i mod 8)"
proof (cases "i div 8 < n")
  case True
  then have "i < 8 * n" by (simp add: div_less_iff_less_mult mult.commute)
  with True show ?thesis
    by (simp add: be_nat_def bit_le_nat rev_nth bit_nth_le_bytes diff_diff_left)
next
  case False
  then show ?thesis
    by (simp add: be_nat_def bit_le_nat div_less_iff_less_mult mult.commute)
qed

section \<open>Lists and slices\<close>

text \<open>\<open>seg_at i n xs\<close> is the \<open>n\<close> elements of \<open>xs\<close> from index \<open>i\<close> on.\<close>

definition seg_at :: "nat \<Rightarrow> nat \<Rightarrow> 'a list \<Rightarrow> 'a list" where
  "seg_at i n xs = take n (drop i xs)"

lemma length_seg_at [simp]: "i + n \<le> length xs \<Longrightarrow> length (seg_at i n xs) = n"
  by (simp add: seg_at_def)

lemma seg_at_append_left [simp]:
  "i + n \<le> length xs \<Longrightarrow> seg_at i n (xs @ ys) = seg_at i n xs"
  by (simp add: seg_at_def)

lemma seg_at_append_right [simp]:
  "length xs \<le> i \<Longrightarrow> seg_at i n (xs @ ys) = seg_at (i - length xs) n ys"
  by (simp add: seg_at_def)

lemma seg_at_replicate [simp]: "i + n \<le> m \<Longrightarrow> seg_at i n (replicate m x) = replicate n x"
  by (simp add: seg_at_def)

lemma seg_at_all [simp]: "length xs = n \<Longrightarrow> seg_at 0 n xs = xs"
  by (simp add: seg_at_def)

end
