(* ===== verification/C_Types.thy ===== *)
theory C_Types
  imports Bulkhead_Prelude
begin

text \<open>
  C types and their memory layout on the LP64 target of the BPF object: sizes,
  alignments, and the offset of a member reached through a path of names, as the
  compiler lays out a declaration (members in order, each at the next multiple of its
  alignment, the whole padded to the largest alignment; members of an anonymous
  struct or union belong to the enclosing one). The kernel types of
  \<^verbatim>\<open>src/collector/headers/vmlinux.h\<close>, the helper prototypes and the structs of the BPF
  program are values of this datatype.
\<close>

section \<open>Types\<close>

text \<open>
  \<open>CTag\<close> names a type that is only used behind a pointer (\<open>struct key\<close>), so its
  layout is not needed; a typedef is a HOL definition with the typedef's name. An
  anonymous member has the empty name.
\<close>

datatype ctype =
    CVoid
  | CBool
  | CChar
  | CSChar
  | CUChar
  | CShort
  | CUShort
  | CInt
  | CUInt
  | CLong
  | CULong
  | CLLong
  | CULLong
  | CEnum string
  | CTag string
  | CConst ctype
  | CPtr ctype
  | CArr ctype nat
  | CStruct "(string \<times> ctype) list"
  | CUnion "(string \<times> ctype) list"
  | CFun ctype "ctype list" bool

section \<open>Alignment and size\<close>

definition align_up :: "nat \<Rightarrow> nat \<Rightarrow> nat" where
  "align_up off a = (off + a - 1) div a * a"

fun alignof :: "ctype \<Rightarrow> nat"
  and max_align :: "(string \<times> ctype) list \<Rightarrow> nat"
where
  "alignof CShort = 2"
| "alignof CUShort = 2"
| "alignof CInt = 4"
| "alignof CUInt = 4"
| "alignof CLong = 8"
| "alignof CULong = 8"
| "alignof CLLong = 8"
| "alignof CULLong = 8"
| "alignof (CEnum _) = 4"
| "alignof (CConst t) = alignof t"
| "alignof (CPtr _) = 8"
| "alignof (CArr t _) = alignof t"
| "alignof (CStruct fs) = max_align fs"
| "alignof (CUnion fs) = max_align fs"
| "alignof _ = 1"
| "max_align [] = 1"
| "max_align ((_, t) # fs) = max (alignof t) (max_align fs)"

fun sizeof :: "ctype \<Rightarrow> nat"
  and fields_end :: "nat \<Rightarrow> (string \<times> ctype) list \<Rightarrow> nat"
  and widest :: "(string \<times> ctype) list \<Rightarrow> nat"
where
  "sizeof CBool = 1"
| "sizeof CChar = 1"
| "sizeof CSChar = 1"
| "sizeof CUChar = 1"
| "sizeof CShort = 2"
| "sizeof CUShort = 2"
| "sizeof CInt = 4"
| "sizeof CUInt = 4"
| "sizeof CLong = 8"
| "sizeof CULong = 8"
| "sizeof CLLong = 8"
| "sizeof CULLong = 8"
| "sizeof (CEnum _) = 4"
| "sizeof (CConst t) = sizeof t"
| "sizeof (CPtr _) = 8"
| "sizeof (CArr t n) = n * sizeof t"
| "sizeof (CStruct fs) = align_up (fields_end 0 fs) (max_align fs)"
| "sizeof (CUnion fs) = align_up (widest fs) (max_align fs)"
| "sizeof CVoid = 0"
| "sizeof (CTag _) = 0"
| "sizeof (CFun _ _ _) = 0"
| "fields_end off [] = off"
| "fields_end off ((_, t) # fs) = fields_end (align_up off (alignof t) + sizeof t) fs"
| "widest [] = 0"
| "widest ((_, t) # fs) = max (sizeof t) (widest fs)"

section \<open>Members\<close>

text \<open>
  \<open>member t x\<close> is the offset and type of member \<open>x\<close> of \<open>t\<close>, searching anonymous
  members; \<open>offsetof t path\<close> follows a path of member names, as
  \<open>offsetof(t, a.b.c)\<close> does.
\<close>

fun member :: "ctype \<Rightarrow> string \<Rightarrow> (nat \<times> ctype) option"
  and struct_member :: "nat \<Rightarrow> (string \<times> ctype) list \<Rightarrow> string \<Rightarrow> (nat \<times> ctype) option"
  and union_member :: "(string \<times> ctype) list \<Rightarrow> string \<Rightarrow> (nat \<times> ctype) option"
where
  "member (CConst t) x = member t x"
| "member (CStruct fs) x = struct_member 0 fs x"
| "member (CUnion fs) x = union_member fs x"
| "member _ x = None"
| "struct_member off [] x = None"
| "struct_member off ((n, t) # fs) x =
     (let here = align_up off (alignof t)
      in if n = x then Some (here, t)
         else case (if n = [] then member t x else None) of
                Some (inner, ft) \<Rightarrow> Some (here + inner, ft)
              | None \<Rightarrow> struct_member (here + sizeof t) fs x)"
| "union_member [] x = None"
| "union_member ((n, t) # fs) x =
     (if n = x then Some (0, t)
      else case (if n = [] then member t x else None) of
             Some r \<Rightarrow> Some r
           | None \<Rightarrow> union_member fs x)"

fun member_path :: "ctype \<Rightarrow> string list \<Rightarrow> (nat \<times> ctype) option" where
  "member_path t [] = Some (0, t)"
| "member_path t (x # xs) =
     (case member t x of
        None \<Rightarrow> None
      | Some (o1, t1) \<Rightarrow>
          (case member_path t1 xs of None \<Rightarrow> None | Some (o2, t2) \<Rightarrow> Some (o1 + o2, t2)))"

definition offsetof :: "ctype \<Rightarrow> string list \<Rightarrow> nat option" where
  "offsetof t path = map_option fst (member_path t path)"

lemmas [layout_simps] = align_up_def offsetof_def

section \<open>Correctness of the layout\<close>

lemma align_up_ge: "0 < a \<Longrightarrow> off \<le> align_up off a"
proof -
  assume a: "0 < a"
  have "off + a - 1 < ((off + a - 1) div a + 1) * a"
    using a by (metis Suc_eq_plus1 dividend_less_times_div mult.commute mult_Suc_right
        add.commute)
  then show ?thesis using a by (simp add: align_up_def)
qed

lemma align_up_dvd [simp]: "a dvd align_up off a"
  by (simp add: align_up_def)

text \<open>Alignments are powers of two up to 8, so a smaller one divides a larger one.\<close>

definition pow2_align :: "nat \<Rightarrow> bool" where
  "pow2_align a \<longleftrightarrow> a \<in> {1, 2, 4, 8}"

lemma pow2_align_max: "pow2_align a \<Longrightarrow> pow2_align b \<Longrightarrow> pow2_align (max a b)"
  by (auto simp: pow2_align_def)

lemma pow2_align_dvd: "pow2_align a \<Longrightarrow> pow2_align b \<Longrightarrow> a \<le> b \<Longrightarrow> a dvd b"
  by (auto simp: pow2_align_def)

lemma alignof_pow2: "pow2_align (alignof t)" and max_align_pow2: "pow2_align (max_align fs)"
  by (induction t and fs rule: alignof_max_align.induct)
    (auto simp: pow2_align_max, auto simp: pow2_align_def)

lemma alignof_pos [simp]: "0 < alignof t"
  using alignof_pow2 [of t] by (auto simp: pow2_align_def)

lemma max_align_pos [simp]: "0 < max_align fs"
  using max_align_pow2 [of fs] by (auto simp: pow2_align_def)

lemma alignof_dvd_max_align: "(n, t) \<in> set fs \<Longrightarrow> alignof t dvd max_align fs"
proof (induction fs)
  case (Cons f fs)
  obtain m u where f: "f = (m, u)" by (cases f)
  show ?case
  proof (cases "(n, t) = f")
    case True
    then show ?thesis
      using f alignof_pow2 max_align_pow2 pow2_align_max by (auto intro!: pow2_align_dvd)
  next
    case False
    with Cons have "alignof t dvd max_align fs" by simp
    moreover have "max_align fs dvd max_align (f # fs)"
      using f alignof_pow2 max_align_pow2 pow2_align_max by (auto intro!: pow2_align_dvd)
    ultimately show ?thesis by (rule dvd_trans)
  qed
qed simp

lemma fields_end_ge: "off \<le> fields_end off fs"
proof (induction fs arbitrary: off)
  case (Cons f fs)
  obtain n t where f: "f = (n, t)" by (cases f)
  have "off \<le> align_up off (alignof t)" by (simp add: align_up_ge)
  also have "\<dots> \<le> align_up off (alignof t) + sizeof t" by simp
  also have "\<dots> \<le> fields_end (align_up off (alignof t) + sizeof t) fs" by (rule Cons)
  finally show ?case by (simp add: f)
qed simp

text \<open>
  Every member lies inside its struct or union, at a multiple of its own alignment,
  which divides the alignment of the whole.
\<close>

lemma max_align_Cons_dvd:
  "alignof t dvd max_align ((n, t) # fs)" "max_align fs dvd max_align ((n, t) # fs)"
  using alignof_pow2 max_align_pow2 pow2_align_max by (auto intro!: pow2_align_dvd)

lemma member_bounds:
  "member t x = Some (o1, ft) \<Longrightarrow>
     alignof ft dvd o1 \<and> alignof ft dvd alignof t \<and> o1 + sizeof ft \<le> sizeof t"
  and struct_member_bounds:
  "struct_member off fs x = Some (o1, ft) \<Longrightarrow>
     alignof ft dvd o1 \<and> alignof ft dvd max_align fs \<and> off \<le> o1 \<and>
     o1 + sizeof ft \<le> fields_end off fs"
  and union_member_bounds:
  "union_member fs x = Some (o1, ft) \<Longrightarrow>
     alignof ft dvd o1 \<and> alignof ft dvd max_align fs \<and> o1 + sizeof ft \<le> widest fs"
proof (induction t x and off fs x and fs x arbitrary: o1 ft and o1 ft and o1 ft
    rule: member_struct_member_union_member.induct)
  case (2 fs x)
  then show ?case by (force intro: order_trans align_up_ge)
next
  case (3 fs x)
  then show ?case by (force intro: order_trans align_up_ge)
next
  case (6 off n t fs x)
  let ?here = "align_up off (alignof t)"
  have here: "off \<le> ?here" by (simp add: align_up_ge)
  have fin: "?here + sizeof t \<le> fields_end off ((n, t) # fs)"
    by (simp add: fields_end_ge)
  consider (found) "n = x" | (anon) inner where "n \<noteq> x" "n = []" "member t x = Some (inner, ft)"
      "o1 = ?here + inner"
    | (later) "n \<noteq> x" "(if n = [] then member t x else None) = None"
      "struct_member (?here + sizeof t) fs x = Some (o1, ft)"
    using "6.prems" by (auto simp: Let_def split: if_splits option.splits)
  then show ?case
  proof cases
    case found
    with "6.prems" here fin max_align_Cons_dvd(1) [of t n fs] show ?thesis by (auto simp: Let_def)
  next
    case anon
    with "6.IH"(1) [OF refl] have b: "alignof ft dvd inner" "alignof ft dvd alignof t"
        "inner + sizeof ft \<le> sizeof t" by auto
    have "alignof ft dvd ?here + inner"
      using b by (intro dvd_add dvd_trans [OF b(2) align_up_dvd])
    with b anon here fin max_align_Cons_dvd(1) [of t n fs] show ?thesis
      by (auto intro: dvd_trans)
  next
    case later
    from "6.IH"(2) [OF refl later(1,2,3)]
    have b: "alignof ft dvd o1" "alignof ft dvd max_align fs"
        "?here + sizeof t \<le> o1" "o1 + sizeof ft \<le> fields_end (?here + sizeof t) fs"
      by auto
    with here max_align_Cons_dvd(2) [of fs n t] show ?thesis by (auto intro: dvd_trans)
  qed
next
  case (8 n t fs x)
  consider (found) "n = x" "o1 = 0" "ft = t" | (anon) "n = []" "n \<noteq> x" "member t x = Some (o1, ft)"
    | (later) "n \<noteq> x" "(if n = [] then member t x else None) = None"
      "union_member fs x = Some (o1, ft)"
    using "8.prems" by (auto split: if_splits option.splits)
  then show ?case
  proof cases
    case found
    with max_align_Cons_dvd(1) [of t n fs] show ?thesis by auto
  next
    case anon
    with "8.IH"(1) max_align_Cons_dvd(1) [of t n fs] show ?thesis by (auto intro: dvd_trans)
  next
    case later
    from "8.IH"(2) [OF later(1,2,3)] max_align_Cons_dvd(2) [of fs n t] show ?thesis
      by (auto intro: dvd_trans)
  qed
qed auto

lemma member_path_bounds:
  "member_path t path = Some (o1, ft) \<Longrightarrow>
     alignof ft dvd o1 \<and> alignof ft dvd alignof t \<and> o1 + sizeof ft \<le> sizeof t"
proof (induction path arbitrary: t o1)
  case (Cons x xs)
  then obtain oa ta ob where a: "member t x = Some (oa, ta)" and b: "member_path ta xs = Some (ob, ft)"
      and o1: "o1 = oa + ob"
    by (auto split: option.splits)
  from member_bounds [OF a] Cons.IH [OF b] o1 show ?case
    by (auto intro: dvd_trans dvd_add)
qed simp

end
