(* ===== verification/Vmlinux.thy ===== *)
theory Vmlinux
  imports C_Types
begin

text \<open>
  The kernel types the BPF object is compiled against, from
  \<^verbatim>\<open>src/collector/headers/vmlinux.h\<close>: the typedefs and structs behind every
  \<open>bpf_probe_read_kernel\<close> of the program, the prototypes of all LSM hooks
  (\<open>union security_list_options\<close>), and the BPF enumerations (map types, program and
  attach types, commands, helper ids, update flags) as tables of enumerators.
\<close>

section \<open>Integer typedefs\<close>

text \<open>A leading underscore of the C name becomes the prefix \<open>t\<close> or is dropped; \<open>u32\<close>, \<open>u64\<close> and \<open>s64\<close> have the prefix \<open>k\<close>.\<close>

definition t_u8 :: ctype where
  "t_u8 = CUChar"

definition t_u16 :: ctype where
  "t_u16 = CUShort"

definition t_s32 :: ctype where
  "t_s32 = CInt"

definition t_s64 :: ctype where
  "t_s64 = CLLong"

definition t_u32 :: ctype where
  "t_u32 = CUInt"

definition t_u64 :: ctype where
  "t_u64 = CULLong"

definition k_u32 :: ctype where
  "k_u32 = t_u32"

definition k_u64 :: ctype where
  "k_u64 = t_u64"

definition k_s64 :: ctype where
  "k_s64 = t_s64"

definition kernel_dev_t :: ctype where
  "kernel_dev_t = k_u32"

definition dev_t :: ctype where
  "dev_t = kernel_dev_t"

definition umode_t :: ctype where
  "umode_t = CUShort"

definition kernel_ulong_t :: ctype where
  "kernel_ulong_t = CULong"

definition kernel_pid_t :: ctype where
  "kernel_pid_t = CInt"

definition kernel_uid32_t :: ctype where
  "kernel_uid32_t = CUInt"

definition kernel_gid32_t :: ctype where
  "kernel_gid32_t = CUInt"

definition kernel_size_t :: ctype where
  "kernel_size_t = kernel_ulong_t"

definition kernel_loff_t :: ctype where
  "kernel_loff_t = CLLong"

definition pid_t :: ctype where
  "pid_t = kernel_pid_t"

definition uid_t :: ctype where
  "uid_t = kernel_uid32_t"

definition gid_t :: ctype where
  "gid_t = kernel_gid32_t"

definition loff_t :: ctype where
  "loff_t = kernel_loff_t"

definition size_t :: ctype where
  "size_t = kernel_size_t"

definition gfp_t :: ctype where
  "gfp_t = CUInt"

definition fmode_t :: ctype where
  "fmode_t = CUInt"

section \<open>Structs read by the program\<close>

definition atomic64_t :: ctype where
  "atomic64_t = CStruct [(''counter'', k_s64)]"

definition atomic_long_t :: ctype where
  "atomic_long_t = atomic64_t"

definition struct_callback_head :: ctype where
  "struct_callback_head =
     CStruct
       [(''next'', CPtr (CTag ''struct callback_head'')),
        (''func'', CPtr (CFun CVoid [CPtr (CTag ''struct callback_head'')] False))]"

definition kuid_t :: ctype where
  "kuid_t = CStruct [(''val'', uid_t)]"

definition kgid_t :: ctype where
  "kgid_t = CStruct [(''val'', gid_t)]"

definition kernel_cap_t :: ctype where
  "kernel_cap_t = CStruct [(''val'', k_u64)]"

definition struct_cred :: ctype where
  "struct_cred =
     CStruct
       [(''usage'', atomic_long_t),
        (''uid'', kuid_t),
        (''gid'', kgid_t),
        (''suid'', kuid_t),
        (''sgid'', kgid_t),
        (''euid'', kuid_t),
        (''egid'', kgid_t),
        (''fsuid'', kuid_t),
        (''fsgid'', kgid_t),
        (''securebits'', CUInt),
        (''cap_inheritable'', kernel_cap_t),
        (''cap_permitted'', kernel_cap_t),
        (''cap_effective'', kernel_cap_t),
        (''cap_bset'', kernel_cap_t),
        (''cap_ambient'', kernel_cap_t),
        (''jit_keyring'', CUChar),
        (''session_keyring'', CPtr (CTag ''struct key'')),
        (''process_keyring'', CPtr (CTag ''struct key'')),
        (''thread_keyring'', CPtr (CTag ''struct key'')),
        (''request_key_auth'', CPtr (CTag ''struct key'')),
        (''security'', CPtr CVoid),
        (''user'', CPtr (CTag ''struct user_struct'')),
        (''user_ns'', CPtr (CTag ''struct user_namespace'')),
        (''ucounts'', CPtr (CTag ''struct ucounts'')),
        (''group_info'', CPtr (CTag ''struct group_info'')),
        ('''', CUnion
          [(''non_rcu'', CInt),
           (''rcu'', struct_callback_head)])]"

definition t_be16 :: ctype where
  "t_be16 = t_u16"

definition t_be32 :: ctype where
  "t_be32 = t_u32"

definition t_wsum :: ctype where
  "t_wsum = t_u32"

definition struct_in6_addr :: ctype where
  "struct_in6_addr =
     CStruct
       [(''in6_u'', CUnion
          [(''u6_addr8'', CArr t_u8 16),
           (''u6_addr16'', CArr t_be16 8),
           (''u6_addr32'', CArr t_be32 4)])]"

definition kernel_sa_family_t :: ctype where
  "kernel_sa_family_t = CUShort"

definition sa_family_t :: ctype where
  "sa_family_t = kernel_sa_family_t"

definition struct_sockaddr :: ctype where
  "struct_sockaddr =
     CStruct
       [(''sa_family'', sa_family_t),
        ('''', CUnion
          [(''sa_data_min'', CArr CChar 14),
           ('''', CStruct
             [(''__empty_sa_data'', CStruct []),
              (''sa_data'', CArr CChar 0)])])]"

definition key_ref_t :: ctype where
  "key_ref_t = CPtr (CTag ''struct __key_reference_with_attributes'')"

definition struct_in_addr :: ctype where
  "struct_in_addr = CStruct [(''s_addr'', t_be32)]"

definition struct_sockaddr_in :: ctype where
  "struct_sockaddr_in =
     CStruct
       [(''sin_family'', kernel_sa_family_t),
        (''sin_port'', t_be16),
        (''sin_addr'', struct_in_addr),
        (''__pad'', CArr CUChar 8)]"

definition struct_sockaddr_in6 :: ctype where
  "struct_sockaddr_in6 =
     CStruct
       [(''sin6_family'', CUShort),
        (''sin6_port'', t_be16),
        (''sin6_flowinfo'', t_be32),
        (''sin6_addr'', struct_in6_addr),
        (''sin6_scope_id'', t_u32)]"

definition struct_sockaddr_storage :: ctype where
  "struct_sockaddr_storage =
     CStruct
       [('''', CUnion
          [('''', CStruct
             [(''ss_family'', kernel_sa_family_t),
              (''__data'', CArr CChar 126)]),
           (''__align'', CPtr CVoid)])]"

definition struct_sockaddr_un :: ctype where
  "struct_sockaddr_un =
     CStruct
       [(''sun_family'', kernel_sa_family_t),
        (''sun_path'', CArr CChar 108)]"

lemmas vmlinux_type_defs [layout_simps] =
  t_u8_def t_u16_def t_s32_def t_s64_def t_u32_def t_u64_def k_u32_def k_u64_def k_s64_def
  kernel_dev_t_def dev_t_def umode_t_def kernel_ulong_t_def kernel_pid_t_def kernel_uid32_t_def
  kernel_gid32_t_def kernel_size_t_def kernel_loff_t_def pid_t_def uid_t_def gid_t_def
  loff_t_def size_t_def gfp_t_def fmode_t_def atomic64_t_def atomic_long_t_def
  struct_callback_head_def kuid_t_def kgid_t_def kernel_cap_t_def struct_cred_def t_be16_def
  t_be32_def t_wsum_def struct_in6_addr_def kernel_sa_family_t_def sa_family_t_def
  struct_sockaddr_def key_ref_t_def struct_in_addr_def struct_sockaddr_in_def
  struct_sockaddr_in6_def struct_sockaddr_storage_def struct_sockaddr_un_def

section \<open>LSM hook prototypes\<close>

text \<open>
  The 249 members of \<open>union security_list_options\<close>, in two halves: one function
  pointer per hook, and the raw address.
\<close>

definition security_list_options_1 :: "(string \<times> ctype) list" where
  "security_list_options_1 =
   [(''binder_set_context_mgr'', CPtr (CFun CInt [CPtr (CConst (CTag ''struct cred''))] False)),
    (''binder_transaction'', CPtr (CFun CInt [CPtr (CConst (CTag ''struct cred'')), CPtr (CConst (CTag ''struct cred''))] False)),
    (''binder_transfer_binder'', CPtr (CFun CInt [CPtr (CConst (CTag ''struct cred'')), CPtr (CConst (CTag ''struct cred''))] False)),
    (''binder_transfer_file'', CPtr (CFun CInt [CPtr (CConst (CTag ''struct cred'')), CPtr (CConst (CTag ''struct cred'')), CPtr (CConst (CTag ''struct file''))] False)),
    (''ptrace_access_check'', CPtr (CFun CInt [CPtr (CTag ''struct task_struct''), CUInt] False)),
    (''ptrace_traceme'', CPtr (CFun CInt [CPtr (CTag ''struct task_struct'')] False)),
    (''capget'', CPtr (CFun CInt [CPtr (CConst (CTag ''struct task_struct'')), CPtr kernel_cap_t, CPtr kernel_cap_t, CPtr kernel_cap_t] False)),
    (''capset'', CPtr (CFun CInt [CPtr (CTag ''struct cred''), CPtr (CConst (CTag ''struct cred'')), CPtr (CConst kernel_cap_t), CPtr (CConst kernel_cap_t), CPtr (CConst kernel_cap_t)] False)),
    (''capable'', CPtr (CFun CInt [CPtr (CConst (CTag ''struct cred'')), CPtr (CTag ''struct user_namespace''), CInt, CUInt] False)),
    (''quotactl'', CPtr (CFun CInt [CInt, CInt, CInt, CPtr (CConst (CTag ''struct super_block''))] False)),
    (''quota_on'', CPtr (CFun CInt [CPtr (CTag ''struct dentry'')] False)),
    (''syslog'', CPtr (CFun CInt [CInt] False)),
    (''settime'', CPtr (CFun CInt [CPtr (CConst (CTag ''struct timespec64'')), CPtr (CConst (CTag ''struct timezone''))] False)),
    (''vm_enough_memory'', CPtr (CFun CInt [CPtr (CTag ''struct mm_struct''), CLong] False)),
    (''bprm_creds_for_exec'', CPtr (CFun CInt [CPtr (CTag ''struct linux_binprm'')] False)),
    (''bprm_creds_from_file'', CPtr (CFun CInt [CPtr (CTag ''struct linux_binprm''), CPtr (CConst (CTag ''struct file''))] False)),
    (''bprm_check_security'', CPtr (CFun CInt [CPtr (CTag ''struct linux_binprm'')] False)),
    (''bprm_committing_creds'', CPtr (CFun CVoid [CPtr (CConst (CTag ''struct linux_binprm''))] False)),
    (''bprm_committed_creds'', CPtr (CFun CVoid [CPtr (CConst (CTag ''struct linux_binprm''))] False)),
    (''fs_context_submount'', CPtr (CFun CInt [CPtr (CTag ''struct fs_context''), CPtr (CTag ''struct super_block'')] False)),
    (''fs_context_dup'', CPtr (CFun CInt [CPtr (CTag ''struct fs_context''), CPtr (CTag ''struct fs_context'')] False)),
    (''fs_context_parse_param'', CPtr (CFun CInt [CPtr (CTag ''struct fs_context''), CPtr (CTag ''struct fs_parameter'')] False)),
    (''sb_alloc_security'', CPtr (CFun CInt [CPtr (CTag ''struct super_block'')] False)),
    (''sb_delete'', CPtr (CFun CVoid [CPtr (CTag ''struct super_block'')] False)),
    (''sb_free_security'', CPtr (CFun CVoid [CPtr (CTag ''struct super_block'')] False)),
    (''sb_free_mnt_opts'', CPtr (CFun CVoid [CPtr CVoid] False)),
    (''sb_eat_lsm_opts'', CPtr (CFun CInt [CPtr CChar, CPtr (CPtr CVoid)] False)),
    (''sb_mnt_opts_compat'', CPtr (CFun CInt [CPtr (CTag ''struct super_block''), CPtr CVoid] False)),
    (''sb_remount'', CPtr (CFun CInt [CPtr (CTag ''struct super_block''), CPtr CVoid] False)),
    (''sb_kern_mount'', CPtr (CFun CInt [CPtr (CConst (CTag ''struct super_block''))] False)),
    (''sb_show_options'', CPtr (CFun CInt [CPtr (CTag ''struct seq_file''), CPtr (CTag ''struct super_block'')] False)),
    (''sb_statfs'', CPtr (CFun CInt [CPtr (CTag ''struct dentry'')] False)),
    (''sb_mount'', CPtr (CFun CInt [CPtr (CConst CChar), CPtr (CConst (CTag ''struct path'')), CPtr (CConst CChar), CULong, CPtr CVoid] False)),
    (''sb_umount'', CPtr (CFun CInt [CPtr (CTag ''struct vfsmount''), CInt] False)),
    (''sb_pivotroot'', CPtr (CFun CInt [CPtr (CConst (CTag ''struct path'')), CPtr (CConst (CTag ''struct path''))] False)),
    (''sb_set_mnt_opts'', CPtr (CFun CInt [CPtr (CTag ''struct super_block''), CPtr CVoid, CULong, CPtr CULong] False)),
    (''sb_clone_mnt_opts'', CPtr (CFun CInt [CPtr (CConst (CTag ''struct super_block'')), CPtr (CTag ''struct super_block''), CULong, CPtr CULong] False)),
    (''move_mount'', CPtr (CFun CInt [CPtr (CConst (CTag ''struct path'')), CPtr (CConst (CTag ''struct path''))] False)),
    (''dentry_init_security'', CPtr (CFun CInt [CPtr (CTag ''struct dentry''), CInt, CPtr (CConst (CTag ''struct qstr'')), CPtr (CPtr (CConst CChar)), CPtr (CPtr CVoid), CPtr k_u32] False)),
    (''dentry_create_files_as'', CPtr (CFun CInt [CPtr (CTag ''struct dentry''), CInt, CPtr (CTag ''struct qstr''), CPtr (CConst (CTag ''struct cred'')), CPtr (CTag ''struct cred'')] False)),
    (''path_unlink'', CPtr (CFun CInt [CPtr (CConst (CTag ''struct path'')), CPtr (CTag ''struct dentry'')] False)),
    (''path_mkdir'', CPtr (CFun CInt [CPtr (CConst (CTag ''struct path'')), CPtr (CTag ''struct dentry''), umode_t] False)),
    (''path_rmdir'', CPtr (CFun CInt [CPtr (CConst (CTag ''struct path'')), CPtr (CTag ''struct dentry'')] False)),
    (''path_mknod'', CPtr (CFun CInt [CPtr (CConst (CTag ''struct path'')), CPtr (CTag ''struct dentry''), umode_t, CUInt] False)),
    (''path_post_mknod'', CPtr (CFun CVoid [CPtr (CTag ''struct mnt_idmap''), CPtr (CTag ''struct dentry'')] False)),
    (''path_truncate'', CPtr (CFun CInt [CPtr (CConst (CTag ''struct path''))] False)),
    (''path_symlink'', CPtr (CFun CInt [CPtr (CConst (CTag ''struct path'')), CPtr (CTag ''struct dentry''), CPtr (CConst CChar)] False)),
    (''path_link'', CPtr (CFun CInt [CPtr (CTag ''struct dentry''), CPtr (CConst (CTag ''struct path'')), CPtr (CTag ''struct dentry'')] False)),
    (''path_rename'', CPtr (CFun CInt [CPtr (CConst (CTag ''struct path'')), CPtr (CTag ''struct dentry''), CPtr (CConst (CTag ''struct path'')), CPtr (CTag ''struct dentry''), CUInt] False)),
    (''path_chmod'', CPtr (CFun CInt [CPtr (CConst (CTag ''struct path'')), umode_t] False)),
    (''path_chown'', CPtr (CFun CInt [CPtr (CConst (CTag ''struct path'')), kuid_t, kgid_t] False)),
    (''path_chroot'', CPtr (CFun CInt [CPtr (CConst (CTag ''struct path''))] False)),
    (''path_notify'', CPtr (CFun CInt [CPtr (CConst (CTag ''struct path'')), k_u64, CUInt] False)),
    (''inode_alloc_security'', CPtr (CFun CInt [CPtr (CTag ''struct inode'')] False)),
    (''inode_free_security'', CPtr (CFun CVoid [CPtr (CTag ''struct inode'')] False)),
    (''inode_free_security_rcu'', CPtr (CFun CVoid [CPtr CVoid] False)),
    (''inode_init_security'', CPtr (CFun CInt [CPtr (CTag ''struct inode''), CPtr (CTag ''struct inode''), CPtr (CConst (CTag ''struct qstr'')), CPtr (CTag ''struct xattr''), CPtr CInt] False)),
    (''inode_init_security_anon'', CPtr (CFun CInt [CPtr (CTag ''struct inode''), CPtr (CConst (CTag ''struct qstr'')), CPtr (CConst (CTag ''struct inode''))] False)),
    (''inode_create'', CPtr (CFun CInt [CPtr (CTag ''struct inode''), CPtr (CTag ''struct dentry''), umode_t] False)),
    (''inode_post_create_tmpfile'', CPtr (CFun CVoid [CPtr (CTag ''struct mnt_idmap''), CPtr (CTag ''struct inode'')] False)),
    (''inode_link'', CPtr (CFun CInt [CPtr (CTag ''struct dentry''), CPtr (CTag ''struct inode''), CPtr (CTag ''struct dentry'')] False)),
    (''inode_unlink'', CPtr (CFun CInt [CPtr (CTag ''struct inode''), CPtr (CTag ''struct dentry'')] False)),
    (''inode_symlink'', CPtr (CFun CInt [CPtr (CTag ''struct inode''), CPtr (CTag ''struct dentry''), CPtr (CConst CChar)] False)),
    (''inode_mkdir'', CPtr (CFun CInt [CPtr (CTag ''struct inode''), CPtr (CTag ''struct dentry''), umode_t] False)),
    (''inode_rmdir'', CPtr (CFun CInt [CPtr (CTag ''struct inode''), CPtr (CTag ''struct dentry'')] False)),
    (''inode_mknod'', CPtr (CFun CInt [CPtr (CTag ''struct inode''), CPtr (CTag ''struct dentry''), umode_t, dev_t] False)),
    (''inode_rename'', CPtr (CFun CInt [CPtr (CTag ''struct inode''), CPtr (CTag ''struct dentry''), CPtr (CTag ''struct inode''), CPtr (CTag ''struct dentry'')] False)),
    (''inode_readlink'', CPtr (CFun CInt [CPtr (CTag ''struct dentry'')] False)),
    (''inode_follow_link'', CPtr (CFun CInt [CPtr (CTag ''struct dentry''), CPtr (CTag ''struct inode''), CBool] False)),
    (''inode_permission'', CPtr (CFun CInt [CPtr (CTag ''struct inode''), CInt] False)),
    (''inode_setattr'', CPtr (CFun CInt [CPtr (CTag ''struct mnt_idmap''), CPtr (CTag ''struct dentry''), CPtr (CTag ''struct iattr'')] False)),
    (''inode_post_setattr'', CPtr (CFun CVoid [CPtr (CTag ''struct mnt_idmap''), CPtr (CTag ''struct dentry''), CInt] False)),
    (''inode_getattr'', CPtr (CFun CInt [CPtr (CConst (CTag ''struct path''))] False)),
    (''inode_xattr_skipcap'', CPtr (CFun CInt [CPtr (CConst CChar)] False)),
    (''inode_setxattr'', CPtr (CFun CInt [CPtr (CTag ''struct mnt_idmap''), CPtr (CTag ''struct dentry''), CPtr (CConst CChar), CPtr (CConst CVoid), size_t, CInt] False)),
    (''inode_post_setxattr'', CPtr (CFun CVoid [CPtr (CTag ''struct dentry''), CPtr (CConst CChar), CPtr (CConst CVoid), size_t, CInt] False)),
    (''inode_getxattr'', CPtr (CFun CInt [CPtr (CTag ''struct dentry''), CPtr (CConst CChar)] False)),
    (''inode_listxattr'', CPtr (CFun CInt [CPtr (CTag ''struct dentry'')] False)),
    (''inode_removexattr'', CPtr (CFun CInt [CPtr (CTag ''struct mnt_idmap''), CPtr (CTag ''struct dentry''), CPtr (CConst CChar)] False)),
    (''inode_post_removexattr'', CPtr (CFun CVoid [CPtr (CTag ''struct dentry''), CPtr (CConst CChar)] False)),
    (''inode_set_acl'', CPtr (CFun CInt [CPtr (CTag ''struct mnt_idmap''), CPtr (CTag ''struct dentry''), CPtr (CConst CChar), CPtr (CTag ''struct posix_acl'')] False)),
    (''inode_post_set_acl'', CPtr (CFun CVoid [CPtr (CTag ''struct dentry''), CPtr (CConst CChar), CPtr (CTag ''struct posix_acl'')] False)),
    (''inode_get_acl'', CPtr (CFun CInt [CPtr (CTag ''struct mnt_idmap''), CPtr (CTag ''struct dentry''), CPtr (CConst CChar)] False)),
    (''inode_remove_acl'', CPtr (CFun CInt [CPtr (CTag ''struct mnt_idmap''), CPtr (CTag ''struct dentry''), CPtr (CConst CChar)] False)),
    (''inode_post_remove_acl'', CPtr (CFun CVoid [CPtr (CTag ''struct mnt_idmap''), CPtr (CTag ''struct dentry''), CPtr (CConst CChar)] False)),
    (''inode_need_killpriv'', CPtr (CFun CInt [CPtr (CTag ''struct dentry'')] False)),
    (''inode_killpriv'', CPtr (CFun CInt [CPtr (CTag ''struct mnt_idmap''), CPtr (CTag ''struct dentry'')] False)),
    (''inode_getsecurity'', CPtr (CFun CInt [CPtr (CTag ''struct mnt_idmap''), CPtr (CTag ''struct inode''), CPtr (CConst CChar), CPtr (CPtr CVoid), CBool] False)),
    (''inode_setsecurity'', CPtr (CFun CInt [CPtr (CTag ''struct inode''), CPtr (CConst CChar), CPtr (CConst CVoid), size_t, CInt] False)),
    (''inode_listsecurity'', CPtr (CFun CInt [CPtr (CTag ''struct inode''), CPtr CChar, size_t] False)),
    (''inode_getsecid'', CPtr (CFun CVoid [CPtr (CTag ''struct inode''), CPtr k_u32] False)),
    (''inode_copy_up'', CPtr (CFun CInt [CPtr (CTag ''struct dentry''), CPtr (CPtr (CTag ''struct cred''))] False)),
    (''inode_copy_up_xattr'', CPtr (CFun CInt [CPtr (CTag ''struct dentry''), CPtr (CConst CChar)] False)),
    (''inode_setintegrity'', CPtr (CFun CInt [CPtr (CConst (CTag ''struct inode'')), CEnum ''lsm_integrity_type'', CPtr (CConst CVoid), size_t] False)),
    (''kernfs_init_security'', CPtr (CFun CInt [CPtr (CTag ''struct kernfs_node''), CPtr (CTag ''struct kernfs_node'')] False)),
    (''file_permission'', CPtr (CFun CInt [CPtr (CTag ''struct file''), CInt] False)),
    (''file_alloc_security'', CPtr (CFun CInt [CPtr (CTag ''struct file'')] False)),
    (''file_release'', CPtr (CFun CVoid [CPtr (CTag ''struct file'')] False)),
    (''file_free_security'', CPtr (CFun CVoid [CPtr (CTag ''struct file'')] False)),
    (''file_ioctl'', CPtr (CFun CInt [CPtr (CTag ''struct file''), CUInt, CULong] False)),
    (''file_ioctl_compat'', CPtr (CFun CInt [CPtr (CTag ''struct file''), CUInt, CULong] False)),
    (''mmap_addr'', CPtr (CFun CInt [CULong] False)),
    (''mmap_file'', CPtr (CFun CInt [CPtr (CTag ''struct file''), CULong, CULong, CULong] False)),
    (''file_mprotect'', CPtr (CFun CInt [CPtr (CTag ''struct vm_area_struct''), CULong, CULong] False)),
    (''file_lock'', CPtr (CFun CInt [CPtr (CTag ''struct file''), CUInt] False)),
    (''file_fcntl'', CPtr (CFun CInt [CPtr (CTag ''struct file''), CUInt, CULong] False)),
    (''file_set_fowner'', CPtr (CFun CVoid [CPtr (CTag ''struct file'')] False)),
    (''file_send_sigiotask'', CPtr (CFun CInt [CPtr (CTag ''struct task_struct''), CPtr (CTag ''struct fown_struct''), CInt] False)),
    (''file_receive'', CPtr (CFun CInt [CPtr (CTag ''struct file'')] False)),
    (''file_open'', CPtr (CFun CInt [CPtr (CTag ''struct file'')] False)),
    (''file_post_open'', CPtr (CFun CInt [CPtr (CTag ''struct file''), CInt] False)),
    (''file_truncate'', CPtr (CFun CInt [CPtr (CTag ''struct file'')] False)),
    (''task_alloc'', CPtr (CFun CInt [CPtr (CTag ''struct task_struct''), CULong] False)),
    (''task_free'', CPtr (CFun CVoid [CPtr (CTag ''struct task_struct'')] False)),
    (''cred_alloc_blank'', CPtr (CFun CInt [CPtr (CTag ''struct cred''), gfp_t] False)),
    (''cred_free'', CPtr (CFun CVoid [CPtr (CTag ''struct cred'')] False)),
    (''cred_prepare'', CPtr (CFun CInt [CPtr (CTag ''struct cred''), CPtr (CConst (CTag ''struct cred'')), gfp_t] False)),
    (''cred_transfer'', CPtr (CFun CVoid [CPtr (CTag ''struct cred''), CPtr (CConst (CTag ''struct cred''))] False)),
    (''cred_getsecid'', CPtr (CFun CVoid [CPtr (CConst (CTag ''struct cred'')), CPtr k_u32] False)),
    (''kernel_act_as'', CPtr (CFun CInt [CPtr (CTag ''struct cred''), k_u32] False)),
    (''kernel_create_files_as'', CPtr (CFun CInt [CPtr (CTag ''struct cred''), CPtr (CTag ''struct inode'')] False)),
    (''kernel_module_request'', CPtr (CFun CInt [CPtr CChar] False)),
    (''kernel_load_data'', CPtr (CFun CInt [CEnum ''kernel_load_data_id'', CBool] False)),
    (''kernel_post_load_data'', CPtr (CFun CInt [CPtr CChar, loff_t, CEnum ''kernel_load_data_id'', CPtr CChar] False))]"

definition security_list_options_2 :: "(string \<times> ctype) list" where
  "security_list_options_2 =
   [(''kernel_read_file'', CPtr (CFun CInt [CPtr (CTag ''struct file''), CEnum ''kernel_read_file_id'', CBool] False)),
    (''kernel_post_read_file'', CPtr (CFun CInt [CPtr (CTag ''struct file''), CPtr CChar, loff_t, CEnum ''kernel_read_file_id''] False)),
    (''task_fix_setuid'', CPtr (CFun CInt [CPtr (CTag ''struct cred''), CPtr (CConst (CTag ''struct cred'')), CInt] False)),
    (''task_fix_setgid'', CPtr (CFun CInt [CPtr (CTag ''struct cred''), CPtr (CConst (CTag ''struct cred'')), CInt] False)),
    (''task_fix_setgroups'', CPtr (CFun CInt [CPtr (CTag ''struct cred''), CPtr (CConst (CTag ''struct cred''))] False)),
    (''task_setpgid'', CPtr (CFun CInt [CPtr (CTag ''struct task_struct''), pid_t] False)),
    (''task_getpgid'', CPtr (CFun CInt [CPtr (CTag ''struct task_struct'')] False)),
    (''task_getsid'', CPtr (CFun CInt [CPtr (CTag ''struct task_struct'')] False)),
    (''current_getsecid_subj'', CPtr (CFun CVoid [CPtr k_u32] False)),
    (''task_getsecid_obj'', CPtr (CFun CVoid [CPtr (CTag ''struct task_struct''), CPtr k_u32] False)),
    (''task_setnice'', CPtr (CFun CInt [CPtr (CTag ''struct task_struct''), CInt] False)),
    (''task_setioprio'', CPtr (CFun CInt [CPtr (CTag ''struct task_struct''), CInt] False)),
    (''task_getioprio'', CPtr (CFun CInt [CPtr (CTag ''struct task_struct'')] False)),
    (''task_prlimit'', CPtr (CFun CInt [CPtr (CConst (CTag ''struct cred'')), CPtr (CConst (CTag ''struct cred'')), CUInt] False)),
    (''task_setrlimit'', CPtr (CFun CInt [CPtr (CTag ''struct task_struct''), CUInt, CPtr (CTag ''struct rlimit'')] False)),
    (''task_setscheduler'', CPtr (CFun CInt [CPtr (CTag ''struct task_struct'')] False)),
    (''task_getscheduler'', CPtr (CFun CInt [CPtr (CTag ''struct task_struct'')] False)),
    (''task_movememory'', CPtr (CFun CInt [CPtr (CTag ''struct task_struct'')] False)),
    (''task_kill'', CPtr (CFun CInt [CPtr (CTag ''struct task_struct''), CPtr (CTag ''struct kernel_siginfo''), CInt, CPtr (CConst (CTag ''struct cred''))] False)),
    (''task_prctl'', CPtr (CFun CInt [CInt, CULong, CULong, CULong, CULong] False)),
    (''task_to_inode'', CPtr (CFun CVoid [CPtr (CTag ''struct task_struct''), CPtr (CTag ''struct inode'')] False)),
    (''userns_create'', CPtr (CFun CInt [CPtr (CConst (CTag ''struct cred''))] False)),
    (''ipc_permission'', CPtr (CFun CInt [CPtr (CTag ''struct kern_ipc_perm''), CShort] False)),
    (''ipc_getsecid'', CPtr (CFun CVoid [CPtr (CTag ''struct kern_ipc_perm''), CPtr k_u32] False)),
    (''msg_msg_alloc_security'', CPtr (CFun CInt [CPtr (CTag ''struct msg_msg'')] False)),
    (''msg_msg_free_security'', CPtr (CFun CVoid [CPtr (CTag ''struct msg_msg'')] False)),
    (''msg_queue_alloc_security'', CPtr (CFun CInt [CPtr (CTag ''struct kern_ipc_perm'')] False)),
    (''msg_queue_free_security'', CPtr (CFun CVoid [CPtr (CTag ''struct kern_ipc_perm'')] False)),
    (''msg_queue_associate'', CPtr (CFun CInt [CPtr (CTag ''struct kern_ipc_perm''), CInt] False)),
    (''msg_queue_msgctl'', CPtr (CFun CInt [CPtr (CTag ''struct kern_ipc_perm''), CInt] False)),
    (''msg_queue_msgsnd'', CPtr (CFun CInt [CPtr (CTag ''struct kern_ipc_perm''), CPtr (CTag ''struct msg_msg''), CInt] False)),
    (''msg_queue_msgrcv'', CPtr (CFun CInt [CPtr (CTag ''struct kern_ipc_perm''), CPtr (CTag ''struct msg_msg''), CPtr (CTag ''struct task_struct''), CLong, CInt] False)),
    (''shm_alloc_security'', CPtr (CFun CInt [CPtr (CTag ''struct kern_ipc_perm'')] False)),
    (''shm_free_security'', CPtr (CFun CVoid [CPtr (CTag ''struct kern_ipc_perm'')] False)),
    (''shm_associate'', CPtr (CFun CInt [CPtr (CTag ''struct kern_ipc_perm''), CInt] False)),
    (''shm_shmctl'', CPtr (CFun CInt [CPtr (CTag ''struct kern_ipc_perm''), CInt] False)),
    (''shm_shmat'', CPtr (CFun CInt [CPtr (CTag ''struct kern_ipc_perm''), CPtr CChar, CInt] False)),
    (''sem_alloc_security'', CPtr (CFun CInt [CPtr (CTag ''struct kern_ipc_perm'')] False)),
    (''sem_free_security'', CPtr (CFun CVoid [CPtr (CTag ''struct kern_ipc_perm'')] False)),
    (''sem_associate'', CPtr (CFun CInt [CPtr (CTag ''struct kern_ipc_perm''), CInt] False)),
    (''sem_semctl'', CPtr (CFun CInt [CPtr (CTag ''struct kern_ipc_perm''), CInt] False)),
    (''sem_semop'', CPtr (CFun CInt [CPtr (CTag ''struct kern_ipc_perm''), CPtr (CTag ''struct sembuf''), CUInt, CInt] False)),
    (''netlink_send'', CPtr (CFun CInt [CPtr (CTag ''struct sock''), CPtr (CTag ''struct sk_buff'')] False)),
    (''d_instantiate'', CPtr (CFun CVoid [CPtr (CTag ''struct dentry''), CPtr (CTag ''struct inode'')] False)),
    (''getselfattr'', CPtr (CFun CInt [CUInt, CPtr (CTag ''struct lsm_ctx''), CPtr k_u32, k_u32] False)),
    (''setselfattr'', CPtr (CFun CInt [CUInt, CPtr (CTag ''struct lsm_ctx''), k_u32, k_u32] False)),
    (''getprocattr'', CPtr (CFun CInt [CPtr (CTag ''struct task_struct''), CPtr (CConst CChar), CPtr (CPtr CChar)] False)),
    (''setprocattr'', CPtr (CFun CInt [CPtr (CConst CChar), CPtr CVoid, size_t] False)),
    (''ismaclabel'', CPtr (CFun CInt [CPtr (CConst CChar)] False)),
    (''secid_to_secctx'', CPtr (CFun CInt [k_u32, CPtr (CPtr CChar), CPtr k_u32] False)),
    (''secctx_to_secid'', CPtr (CFun CInt [CPtr (CConst CChar), k_u32, CPtr k_u32] False)),
    (''release_secctx'', CPtr (CFun CVoid [CPtr CChar, k_u32] False)),
    (''inode_invalidate_secctx'', CPtr (CFun CVoid [CPtr (CTag ''struct inode'')] False)),
    (''inode_notifysecctx'', CPtr (CFun CInt [CPtr (CTag ''struct inode''), CPtr CVoid, k_u32] False)),
    (''inode_setsecctx'', CPtr (CFun CInt [CPtr (CTag ''struct dentry''), CPtr CVoid, k_u32] False)),
    (''inode_getsecctx'', CPtr (CFun CInt [CPtr (CTag ''struct inode''), CPtr (CPtr CVoid), CPtr k_u32] False)),
    (''unix_stream_connect'', CPtr (CFun CInt [CPtr (CTag ''struct sock''), CPtr (CTag ''struct sock''), CPtr (CTag ''struct sock'')] False)),
    (''unix_may_send'', CPtr (CFun CInt [CPtr (CTag ''struct socket''), CPtr (CTag ''struct socket'')] False)),
    (''socket_create'', CPtr (CFun CInt [CInt, CInt, CInt, CInt] False)),
    (''socket_post_create'', CPtr (CFun CInt [CPtr (CTag ''struct socket''), CInt, CInt, CInt, CInt] False)),
    (''socket_socketpair'', CPtr (CFun CInt [CPtr (CTag ''struct socket''), CPtr (CTag ''struct socket'')] False)),
    (''socket_bind'', CPtr (CFun CInt [CPtr (CTag ''struct socket''), CPtr (CTag ''struct sockaddr''), CInt] False)),
    (''socket_connect'', CPtr (CFun CInt [CPtr (CTag ''struct socket''), CPtr (CTag ''struct sockaddr''), CInt] False)),
    (''socket_listen'', CPtr (CFun CInt [CPtr (CTag ''struct socket''), CInt] False)),
    (''socket_accept'', CPtr (CFun CInt [CPtr (CTag ''struct socket''), CPtr (CTag ''struct socket'')] False)),
    (''socket_sendmsg'', CPtr (CFun CInt [CPtr (CTag ''struct socket''), CPtr (CTag ''struct msghdr''), CInt] False)),
    (''socket_recvmsg'', CPtr (CFun CInt [CPtr (CTag ''struct socket''), CPtr (CTag ''struct msghdr''), CInt, CInt] False)),
    (''socket_getsockname'', CPtr (CFun CInt [CPtr (CTag ''struct socket'')] False)),
    (''socket_getpeername'', CPtr (CFun CInt [CPtr (CTag ''struct socket'')] False)),
    (''socket_getsockopt'', CPtr (CFun CInt [CPtr (CTag ''struct socket''), CInt, CInt] False)),
    (''socket_setsockopt'', CPtr (CFun CInt [CPtr (CTag ''struct socket''), CInt, CInt] False)),
    (''socket_shutdown'', CPtr (CFun CInt [CPtr (CTag ''struct socket''), CInt] False)),
    (''socket_sock_rcv_skb'', CPtr (CFun CInt [CPtr (CTag ''struct sock''), CPtr (CTag ''struct sk_buff'')] False)),
    (''socket_getpeersec_stream'', CPtr (CFun CInt [CPtr (CTag ''struct socket''), CTag ''sockptr_t'', CTag ''sockptr_t'', CUInt] False)),
    (''socket_getpeersec_dgram'', CPtr (CFun CInt [CPtr (CTag ''struct socket''), CPtr (CTag ''struct sk_buff''), CPtr k_u32] False)),
    (''sk_alloc_security'', CPtr (CFun CInt [CPtr (CTag ''struct sock''), CInt, gfp_t] False)),
    (''sk_free_security'', CPtr (CFun CVoid [CPtr (CTag ''struct sock'')] False)),
    (''sk_clone_security'', CPtr (CFun CVoid [CPtr (CConst (CTag ''struct sock'')), CPtr (CTag ''struct sock'')] False)),
    (''sk_getsecid'', CPtr (CFun CVoid [CPtr (CConst (CTag ''struct sock'')), CPtr k_u32] False)),
    (''sock_graft'', CPtr (CFun CVoid [CPtr (CTag ''struct sock''), CPtr (CTag ''struct socket'')] False)),
    (''inet_conn_request'', CPtr (CFun CInt [CPtr (CConst (CTag ''struct sock'')), CPtr (CTag ''struct sk_buff''), CPtr (CTag ''struct request_sock'')] False)),
    (''inet_csk_clone'', CPtr (CFun CVoid [CPtr (CTag ''struct sock''), CPtr (CConst (CTag ''struct request_sock''))] False)),
    (''inet_conn_established'', CPtr (CFun CVoid [CPtr (CTag ''struct sock''), CPtr (CTag ''struct sk_buff'')] False)),
    (''secmark_relabel_packet'', CPtr (CFun CInt [k_u32] False)),
    (''secmark_refcount_inc'', CPtr (CFun CVoid [] False)),
    (''secmark_refcount_dec'', CPtr (CFun CVoid [] False)),
    (''req_classify_flow'', CPtr (CFun CVoid [CPtr (CConst (CTag ''struct request_sock'')), CPtr (CTag ''struct flowi_common'')] False)),
    (''tun_dev_alloc_security'', CPtr (CFun CInt [CPtr CVoid] False)),
    (''tun_dev_create'', CPtr (CFun CInt [] False)),
    (''tun_dev_attach_queue'', CPtr (CFun CInt [CPtr CVoid] False)),
    (''tun_dev_attach'', CPtr (CFun CInt [CPtr (CTag ''struct sock''), CPtr CVoid] False)),
    (''tun_dev_open'', CPtr (CFun CInt [CPtr CVoid] False)),
    (''sctp_assoc_request'', CPtr (CFun CInt [CPtr (CTag ''struct sctp_association''), CPtr (CTag ''struct sk_buff'')] False)),
    (''sctp_bind_connect'', CPtr (CFun CInt [CPtr (CTag ''struct sock''), CInt, CPtr (CTag ''struct sockaddr''), CInt] False)),
    (''sctp_sk_clone'', CPtr (CFun CVoid [CPtr (CTag ''struct sctp_association''), CPtr (CTag ''struct sock''), CPtr (CTag ''struct sock'')] False)),
    (''sctp_assoc_established'', CPtr (CFun CInt [CPtr (CTag ''struct sctp_association''), CPtr (CTag ''struct sk_buff'')] False)),
    (''mptcp_add_subflow'', CPtr (CFun CInt [CPtr (CTag ''struct sock''), CPtr (CTag ''struct sock'')] False)),
    (''key_alloc'', CPtr (CFun CInt [CPtr (CTag ''struct key''), CPtr (CConst (CTag ''struct cred'')), CULong] False)),
    (''key_permission'', CPtr (CFun CInt [key_ref_t, CPtr (CConst (CTag ''struct cred'')), CEnum ''key_need_perm''] False)),
    (''key_getsecurity'', CPtr (CFun CInt [CPtr (CTag ''struct key''), CPtr (CPtr CChar)] False)),
    (''key_post_create_or_update'', CPtr (CFun CVoid [CPtr (CTag ''struct key''), CPtr (CTag ''struct key''), CPtr (CConst CVoid), size_t, CULong, CBool] False)),
    (''bpf'', CPtr (CFun CInt [CInt, CPtr (CTag ''union bpf_attr''), CUInt] False)),
    (''bpf_map'', CPtr (CFun CInt [CPtr (CTag ''struct bpf_map''), fmode_t] False)),
    (''bpf_prog'', CPtr (CFun CInt [CPtr (CTag ''struct bpf_prog'')] False)),
    (''bpf_map_create'', CPtr (CFun CInt [CPtr (CTag ''struct bpf_map''), CPtr (CTag ''union bpf_attr''), CPtr (CTag ''struct bpf_token'')] False)),
    (''bpf_map_free'', CPtr (CFun CVoid [CPtr (CTag ''struct bpf_map'')] False)),
    (''bpf_prog_load'', CPtr (CFun CInt [CPtr (CTag ''struct bpf_prog''), CPtr (CTag ''union bpf_attr''), CPtr (CTag ''struct bpf_token'')] False)),
    (''bpf_prog_free'', CPtr (CFun CVoid [CPtr (CTag ''struct bpf_prog'')] False)),
    (''bpf_token_create'', CPtr (CFun CInt [CPtr (CTag ''struct bpf_token''), CPtr (CTag ''union bpf_attr''), CPtr (CConst (CTag ''struct path''))] False)),
    (''bpf_token_free'', CPtr (CFun CVoid [CPtr (CTag ''struct bpf_token'')] False)),
    (''bpf_token_cmd'', CPtr (CFun CInt [CPtr (CConst (CTag ''struct bpf_token'')), CEnum ''bpf_cmd''] False)),
    (''bpf_token_capable'', CPtr (CFun CInt [CPtr (CConst (CTag ''struct bpf_token'')), CInt] False)),
    (''locked_down'', CPtr (CFun CInt [CEnum ''lockdown_reason''] False)),
    (''perf_event_open'', CPtr (CFun CInt [CPtr (CTag ''struct perf_event_attr''), CInt] False)),
    (''perf_event_alloc'', CPtr (CFun CInt [CPtr (CTag ''struct perf_event'')] False)),
    (''perf_event_read'', CPtr (CFun CInt [CPtr (CTag ''struct perf_event'')] False)),
    (''perf_event_write'', CPtr (CFun CInt [CPtr (CTag ''struct perf_event'')] False)),
    (''uring_override_creds'', CPtr (CFun CInt [CPtr (CConst (CTag ''struct cred''))] False)),
    (''uring_sqpoll'', CPtr (CFun CInt [] False)),
    (''uring_cmd'', CPtr (CFun CInt [CPtr (CTag ''struct io_uring_cmd'')] False)),
    (''initramfs_populated'', CPtr (CFun CVoid [] False)),
    (''bdev_alloc_security'', CPtr (CFun CInt [CPtr (CTag ''struct block_device'')] False)),
    (''bdev_free_security'', CPtr (CFun CVoid [CPtr (CTag ''struct block_device'')] False)),
    (''bdev_setintegrity'', CPtr (CFun CInt [CPtr (CTag ''struct block_device''), CEnum ''lsm_integrity_type'', CPtr (CConst CVoid), size_t] False)),
    (''lsm_func_addr'', CPtr CVoid)]"

definition security_list_options :: ctype where
  "security_list_options = CUnion (security_list_options_1 @ security_list_options_2)"

section \<open>BPF enumerations\<close>

definition bpf_map_type :: "(string \<times> nat) list" where
  "bpf_map_type =
   [(''BPF_MAP_TYPE_UNSPEC'', 0),
    (''BPF_MAP_TYPE_HASH'', 1),
    (''BPF_MAP_TYPE_ARRAY'', 2),
    (''BPF_MAP_TYPE_PROG_ARRAY'', 3),
    (''BPF_MAP_TYPE_PERF_EVENT_ARRAY'', 4),
    (''BPF_MAP_TYPE_PERCPU_HASH'', 5),
    (''BPF_MAP_TYPE_PERCPU_ARRAY'', 6),
    (''BPF_MAP_TYPE_STACK_TRACE'', 7),
    (''BPF_MAP_TYPE_CGROUP_ARRAY'', 8),
    (''BPF_MAP_TYPE_LRU_HASH'', 9),
    (''BPF_MAP_TYPE_LRU_PERCPU_HASH'', 10),
    (''BPF_MAP_TYPE_LPM_TRIE'', 11),
    (''BPF_MAP_TYPE_ARRAY_OF_MAPS'', 12),
    (''BPF_MAP_TYPE_HASH_OF_MAPS'', 13),
    (''BPF_MAP_TYPE_DEVMAP'', 14),
    (''BPF_MAP_TYPE_SOCKMAP'', 15),
    (''BPF_MAP_TYPE_CPUMAP'', 16),
    (''BPF_MAP_TYPE_XSKMAP'', 17),
    (''BPF_MAP_TYPE_SOCKHASH'', 18),
    (''BPF_MAP_TYPE_CGROUP_STORAGE_DEPRECATED'', 19),
    (''BPF_MAP_TYPE_CGROUP_STORAGE'', 19),
    (''BPF_MAP_TYPE_REUSEPORT_SOCKARRAY'', 20),
    (''BPF_MAP_TYPE_PERCPU_CGROUP_STORAGE_DEPRECATED'', 21),
    (''BPF_MAP_TYPE_PERCPU_CGROUP_STORAGE'', 21),
    (''BPF_MAP_TYPE_QUEUE'', 22),
    (''BPF_MAP_TYPE_STACK'', 23),
    (''BPF_MAP_TYPE_SK_STORAGE'', 24),
    (''BPF_MAP_TYPE_DEVMAP_HASH'', 25),
    (''BPF_MAP_TYPE_STRUCT_OPS'', 26),
    (''BPF_MAP_TYPE_RINGBUF'', 27),
    (''BPF_MAP_TYPE_INODE_STORAGE'', 28),
    (''BPF_MAP_TYPE_TASK_STORAGE'', 29),
    (''BPF_MAP_TYPE_BLOOM_FILTER'', 30),
    (''BPF_MAP_TYPE_USER_RINGBUF'', 31),
    (''BPF_MAP_TYPE_CGRP_STORAGE'', 32),
    (''BPF_MAP_TYPE_ARENA'', 33),
    (''__MAX_BPF_MAP_TYPE'', 34)]"

definition bpf_prog_type :: "(string \<times> nat) list" where
  "bpf_prog_type =
   [(''BPF_PROG_TYPE_UNSPEC'', 0),
    (''BPF_PROG_TYPE_SOCKET_FILTER'', 1),
    (''BPF_PROG_TYPE_KPROBE'', 2),
    (''BPF_PROG_TYPE_SCHED_CLS'', 3),
    (''BPF_PROG_TYPE_SCHED_ACT'', 4),
    (''BPF_PROG_TYPE_TRACEPOINT'', 5),
    (''BPF_PROG_TYPE_XDP'', 6),
    (''BPF_PROG_TYPE_PERF_EVENT'', 7),
    (''BPF_PROG_TYPE_CGROUP_SKB'', 8),
    (''BPF_PROG_TYPE_CGROUP_SOCK'', 9),
    (''BPF_PROG_TYPE_LWT_IN'', 10),
    (''BPF_PROG_TYPE_LWT_OUT'', 11),
    (''BPF_PROG_TYPE_LWT_XMIT'', 12),
    (''BPF_PROG_TYPE_SOCK_OPS'', 13),
    (''BPF_PROG_TYPE_SK_SKB'', 14),
    (''BPF_PROG_TYPE_CGROUP_DEVICE'', 15),
    (''BPF_PROG_TYPE_SK_MSG'', 16),
    (''BPF_PROG_TYPE_RAW_TRACEPOINT'', 17),
    (''BPF_PROG_TYPE_CGROUP_SOCK_ADDR'', 18),
    (''BPF_PROG_TYPE_LWT_SEG6LOCAL'', 19),
    (''BPF_PROG_TYPE_LIRC_MODE2'', 20),
    (''BPF_PROG_TYPE_SK_REUSEPORT'', 21),
    (''BPF_PROG_TYPE_FLOW_DISSECTOR'', 22),
    (''BPF_PROG_TYPE_CGROUP_SYSCTL'', 23),
    (''BPF_PROG_TYPE_RAW_TRACEPOINT_WRITABLE'', 24),
    (''BPF_PROG_TYPE_CGROUP_SOCKOPT'', 25),
    (''BPF_PROG_TYPE_TRACING'', 26),
    (''BPF_PROG_TYPE_STRUCT_OPS'', 27),
    (''BPF_PROG_TYPE_EXT'', 28),
    (''BPF_PROG_TYPE_LSM'', 29),
    (''BPF_PROG_TYPE_SK_LOOKUP'', 30),
    (''BPF_PROG_TYPE_SYSCALL'', 31),
    (''BPF_PROG_TYPE_NETFILTER'', 32),
    (''__MAX_BPF_PROG_TYPE'', 33)]"

definition bpf_attach_type :: "(string \<times> nat) list" where
  "bpf_attach_type =
   [(''BPF_CGROUP_INET_INGRESS'', 0),
    (''BPF_CGROUP_INET_EGRESS'', 1),
    (''BPF_CGROUP_INET_SOCK_CREATE'', 2),
    (''BPF_CGROUP_SOCK_OPS'', 3),
    (''BPF_SK_SKB_STREAM_PARSER'', 4),
    (''BPF_SK_SKB_STREAM_VERDICT'', 5),
    (''BPF_CGROUP_DEVICE'', 6),
    (''BPF_SK_MSG_VERDICT'', 7),
    (''BPF_CGROUP_INET4_BIND'', 8),
    (''BPF_CGROUP_INET6_BIND'', 9),
    (''BPF_CGROUP_INET4_CONNECT'', 10),
    (''BPF_CGROUP_INET6_CONNECT'', 11),
    (''BPF_CGROUP_INET4_POST_BIND'', 12),
    (''BPF_CGROUP_INET6_POST_BIND'', 13),
    (''BPF_CGROUP_UDP4_SENDMSG'', 14),
    (''BPF_CGROUP_UDP6_SENDMSG'', 15),
    (''BPF_LIRC_MODE2'', 16),
    (''BPF_FLOW_DISSECTOR'', 17),
    (''BPF_CGROUP_SYSCTL'', 18),
    (''BPF_CGROUP_UDP4_RECVMSG'', 19),
    (''BPF_CGROUP_UDP6_RECVMSG'', 20),
    (''BPF_CGROUP_GETSOCKOPT'', 21),
    (''BPF_CGROUP_SETSOCKOPT'', 22),
    (''BPF_TRACE_RAW_TP'', 23),
    (''BPF_TRACE_FENTRY'', 24),
    (''BPF_TRACE_FEXIT'', 25),
    (''BPF_MODIFY_RETURN'', 26),
    (''BPF_LSM_MAC'', 27),
    (''BPF_TRACE_ITER'', 28),
    (''BPF_CGROUP_INET4_GETPEERNAME'', 29),
    (''BPF_CGROUP_INET6_GETPEERNAME'', 30),
    (''BPF_CGROUP_INET4_GETSOCKNAME'', 31),
    (''BPF_CGROUP_INET6_GETSOCKNAME'', 32),
    (''BPF_XDP_DEVMAP'', 33),
    (''BPF_CGROUP_INET_SOCK_RELEASE'', 34),
    (''BPF_XDP_CPUMAP'', 35),
    (''BPF_SK_LOOKUP'', 36),
    (''BPF_XDP'', 37),
    (''BPF_SK_SKB_VERDICT'', 38),
    (''BPF_SK_REUSEPORT_SELECT'', 39),
    (''BPF_SK_REUSEPORT_SELECT_OR_MIGRATE'', 40),
    (''BPF_PERF_EVENT'', 41),
    (''BPF_TRACE_KPROBE_MULTI'', 42),
    (''BPF_LSM_CGROUP'', 43),
    (''BPF_STRUCT_OPS'', 44),
    (''BPF_NETFILTER'', 45),
    (''BPF_TCX_INGRESS'', 46),
    (''BPF_TCX_EGRESS'', 47),
    (''BPF_TRACE_UPROBE_MULTI'', 48),
    (''BPF_CGROUP_UNIX_CONNECT'', 49),
    (''BPF_CGROUP_UNIX_SENDMSG'', 50),
    (''BPF_CGROUP_UNIX_RECVMSG'', 51),
    (''BPF_CGROUP_UNIX_GETPEERNAME'', 52),
    (''BPF_CGROUP_UNIX_GETSOCKNAME'', 53),
    (''BPF_NETKIT_PRIMARY'', 54),
    (''BPF_NETKIT_PEER'', 55),
    (''BPF_TRACE_KPROBE_SESSION'', 56),
    (''__MAX_BPF_ATTACH_TYPE'', 57)]"

definition bpf_cmd :: "(string \<times> nat) list" where
  "bpf_cmd =
   [(''BPF_MAP_CREATE'', 0),
    (''BPF_MAP_LOOKUP_ELEM'', 1),
    (''BPF_MAP_UPDATE_ELEM'', 2),
    (''BPF_MAP_DELETE_ELEM'', 3),
    (''BPF_MAP_GET_NEXT_KEY'', 4),
    (''BPF_PROG_LOAD'', 5),
    (''BPF_OBJ_PIN'', 6),
    (''BPF_OBJ_GET'', 7),
    (''BPF_PROG_ATTACH'', 8),
    (''BPF_PROG_DETACH'', 9),
    (''BPF_PROG_TEST_RUN'', 10),
    (''BPF_PROG_RUN'', 10),
    (''BPF_PROG_GET_NEXT_ID'', 11),
    (''BPF_MAP_GET_NEXT_ID'', 12),
    (''BPF_PROG_GET_FD_BY_ID'', 13),
    (''BPF_MAP_GET_FD_BY_ID'', 14),
    (''BPF_OBJ_GET_INFO_BY_FD'', 15),
    (''BPF_PROG_QUERY'', 16),
    (''BPF_RAW_TRACEPOINT_OPEN'', 17),
    (''BPF_BTF_LOAD'', 18),
    (''BPF_BTF_GET_FD_BY_ID'', 19),
    (''BPF_TASK_FD_QUERY'', 20),
    (''BPF_MAP_LOOKUP_AND_DELETE_ELEM'', 21),
    (''BPF_MAP_FREEZE'', 22),
    (''BPF_BTF_GET_NEXT_ID'', 23),
    (''BPF_MAP_LOOKUP_BATCH'', 24),
    (''BPF_MAP_LOOKUP_AND_DELETE_BATCH'', 25),
    (''BPF_MAP_UPDATE_BATCH'', 26),
    (''BPF_MAP_DELETE_BATCH'', 27),
    (''BPF_LINK_CREATE'', 28),
    (''BPF_LINK_UPDATE'', 29),
    (''BPF_LINK_GET_FD_BY_ID'', 30),
    (''BPF_LINK_GET_NEXT_ID'', 31),
    (''BPF_ENABLE_STATS'', 32),
    (''BPF_ITER_CREATE'', 33),
    (''BPF_LINK_DETACH'', 34),
    (''BPF_PROG_BIND_MAP'', 35),
    (''BPF_TOKEN_CREATE'', 36),
    (''__MAX_BPF_CMD'', 37)]"

definition bpf_func_id_1 :: "(string \<times> nat) list" where
  "bpf_func_id_1 =
   [(''BPF_FUNC_unspec'', 0),
    (''BPF_FUNC_map_lookup_elem'', 1),
    (''BPF_FUNC_map_update_elem'', 2),
    (''BPF_FUNC_map_delete_elem'', 3),
    (''BPF_FUNC_probe_read'', 4),
    (''BPF_FUNC_ktime_get_ns'', 5),
    (''BPF_FUNC_trace_printk'', 6),
    (''BPF_FUNC_get_prandom_u32'', 7),
    (''BPF_FUNC_get_smp_processor_id'', 8),
    (''BPF_FUNC_skb_store_bytes'', 9),
    (''BPF_FUNC_l3_csum_replace'', 10),
    (''BPF_FUNC_l4_csum_replace'', 11),
    (''BPF_FUNC_tail_call'', 12),
    (''BPF_FUNC_clone_redirect'', 13),
    (''BPF_FUNC_get_current_pid_tgid'', 14),
    (''BPF_FUNC_get_current_uid_gid'', 15),
    (''BPF_FUNC_get_current_comm'', 16),
    (''BPF_FUNC_get_cgroup_classid'', 17),
    (''BPF_FUNC_skb_vlan_push'', 18),
    (''BPF_FUNC_skb_vlan_pop'', 19),
    (''BPF_FUNC_skb_get_tunnel_key'', 20),
    (''BPF_FUNC_skb_set_tunnel_key'', 21),
    (''BPF_FUNC_perf_event_read'', 22),
    (''BPF_FUNC_redirect'', 23),
    (''BPF_FUNC_get_route_realm'', 24),
    (''BPF_FUNC_perf_event_output'', 25),
    (''BPF_FUNC_skb_load_bytes'', 26),
    (''BPF_FUNC_get_stackid'', 27),
    (''BPF_FUNC_csum_diff'', 28),
    (''BPF_FUNC_skb_get_tunnel_opt'', 29),
    (''BPF_FUNC_skb_set_tunnel_opt'', 30),
    (''BPF_FUNC_skb_change_proto'', 31),
    (''BPF_FUNC_skb_change_type'', 32),
    (''BPF_FUNC_skb_under_cgroup'', 33),
    (''BPF_FUNC_get_hash_recalc'', 34),
    (''BPF_FUNC_get_current_task'', 35),
    (''BPF_FUNC_probe_write_user'', 36),
    (''BPF_FUNC_current_task_under_cgroup'', 37),
    (''BPF_FUNC_skb_change_tail'', 38),
    (''BPF_FUNC_skb_pull_data'', 39),
    (''BPF_FUNC_csum_update'', 40),
    (''BPF_FUNC_set_hash_invalid'', 41),
    (''BPF_FUNC_get_numa_node_id'', 42),
    (''BPF_FUNC_skb_change_head'', 43),
    (''BPF_FUNC_xdp_adjust_head'', 44),
    (''BPF_FUNC_probe_read_str'', 45),
    (''BPF_FUNC_get_socket_cookie'', 46),
    (''BPF_FUNC_get_socket_uid'', 47),
    (''BPF_FUNC_set_hash'', 48),
    (''BPF_FUNC_setsockopt'', 49),
    (''BPF_FUNC_skb_adjust_room'', 50),
    (''BPF_FUNC_redirect_map'', 51),
    (''BPF_FUNC_sk_redirect_map'', 52),
    (''BPF_FUNC_sock_map_update'', 53),
    (''BPF_FUNC_xdp_adjust_meta'', 54),
    (''BPF_FUNC_perf_event_read_value'', 55),
    (''BPF_FUNC_perf_prog_read_value'', 56),
    (''BPF_FUNC_getsockopt'', 57),
    (''BPF_FUNC_override_return'', 58),
    (''BPF_FUNC_sock_ops_cb_flags_set'', 59),
    (''BPF_FUNC_msg_redirect_map'', 60),
    (''BPF_FUNC_msg_apply_bytes'', 61),
    (''BPF_FUNC_msg_cork_bytes'', 62),
    (''BPF_FUNC_msg_pull_data'', 63),
    (''BPF_FUNC_bind'', 64),
    (''BPF_FUNC_xdp_adjust_tail'', 65),
    (''BPF_FUNC_skb_get_xfrm_state'', 66),
    (''BPF_FUNC_get_stack'', 67),
    (''BPF_FUNC_skb_load_bytes_relative'', 68),
    (''BPF_FUNC_fib_lookup'', 69),
    (''BPF_FUNC_sock_hash_update'', 70),
    (''BPF_FUNC_msg_redirect_hash'', 71),
    (''BPF_FUNC_sk_redirect_hash'', 72),
    (''BPF_FUNC_lwt_push_encap'', 73),
    (''BPF_FUNC_lwt_seg6_store_bytes'', 74),
    (''BPF_FUNC_lwt_seg6_adjust_srh'', 75),
    (''BPF_FUNC_lwt_seg6_action'', 76),
    (''BPF_FUNC_rc_repeat'', 77),
    (''BPF_FUNC_rc_keydown'', 78),
    (''BPF_FUNC_skb_cgroup_id'', 79),
    (''BPF_FUNC_get_current_cgroup_id'', 80),
    (''BPF_FUNC_get_local_storage'', 81),
    (''BPF_FUNC_sk_select_reuseport'', 82),
    (''BPF_FUNC_skb_ancestor_cgroup_id'', 83),
    (''BPF_FUNC_sk_lookup_tcp'', 84),
    (''BPF_FUNC_sk_lookup_udp'', 85),
    (''BPF_FUNC_sk_release'', 86),
    (''BPF_FUNC_map_push_elem'', 87),
    (''BPF_FUNC_map_pop_elem'', 88),
    (''BPF_FUNC_map_peek_elem'', 89),
    (''BPF_FUNC_msg_push_data'', 90),
    (''BPF_FUNC_msg_pop_data'', 91),
    (''BPF_FUNC_rc_pointer_rel'', 92),
    (''BPF_FUNC_spin_lock'', 93),
    (''BPF_FUNC_spin_unlock'', 94),
    (''BPF_FUNC_sk_fullsock'', 95),
    (''BPF_FUNC_tcp_sock'', 96),
    (''BPF_FUNC_skb_ecn_set_ce'', 97),
    (''BPF_FUNC_get_listener_sock'', 98),
    (''BPF_FUNC_skc_lookup_tcp'', 99),
    (''BPF_FUNC_tcp_check_syncookie'', 100),
    (''BPF_FUNC_sysctl_get_name'', 101),
    (''BPF_FUNC_sysctl_get_current_value'', 102),
    (''BPF_FUNC_sysctl_get_new_value'', 103),
    (''BPF_FUNC_sysctl_set_new_value'', 104),
    (''BPF_FUNC_strtol'', 105),
    (''BPF_FUNC_strtoul'', 106),
    (''BPF_FUNC_sk_storage_get'', 107),
    (''BPF_FUNC_sk_storage_delete'', 108),
    (''BPF_FUNC_send_signal'', 109),
    (''BPF_FUNC_tcp_gen_syncookie'', 110),
    (''BPF_FUNC_skb_output'', 111),
    (''BPF_FUNC_probe_read_user'', 112),
    (''BPF_FUNC_probe_read_kernel'', 113),
    (''BPF_FUNC_probe_read_user_str'', 114),
    (''BPF_FUNC_probe_read_kernel_str'', 115),
    (''BPF_FUNC_tcp_send_ack'', 116),
    (''BPF_FUNC_send_signal_thread'', 117),
    (''BPF_FUNC_jiffies64'', 118),
    (''BPF_FUNC_read_branch_records'', 119),
    (''BPF_FUNC_get_ns_current_pid_tgid'', 120),
    (''BPF_FUNC_xdp_output'', 121),
    (''BPF_FUNC_get_netns_cookie'', 122),
    (''BPF_FUNC_get_current_ancestor_cgroup_id'', 123),
    (''BPF_FUNC_sk_assign'', 124),
    (''BPF_FUNC_ktime_get_boot_ns'', 125),
    (''BPF_FUNC_seq_printf'', 126),
    (''BPF_FUNC_seq_write'', 127),
    (''BPF_FUNC_sk_cgroup_id'', 128),
    (''BPF_FUNC_sk_ancestor_cgroup_id'', 129),
    (''BPF_FUNC_ringbuf_output'', 130),
    (''BPF_FUNC_ringbuf_reserve'', 131),
    (''BPF_FUNC_ringbuf_submit'', 132),
    (''BPF_FUNC_ringbuf_discard'', 133),
    (''BPF_FUNC_ringbuf_query'', 134),
    (''BPF_FUNC_csum_level'', 135),
    (''BPF_FUNC_skc_to_tcp6_sock'', 136),
    (''BPF_FUNC_skc_to_tcp_sock'', 137),
    (''BPF_FUNC_skc_to_tcp_timewait_sock'', 138),
    (''BPF_FUNC_skc_to_tcp_request_sock'', 139)]"

definition bpf_func_id_2 :: "(string \<times> nat) list" where
  "bpf_func_id_2 =
   [(''BPF_FUNC_skc_to_udp6_sock'', 140),
    (''BPF_FUNC_get_task_stack'', 141),
    (''BPF_FUNC_load_hdr_opt'', 142),
    (''BPF_FUNC_store_hdr_opt'', 143),
    (''BPF_FUNC_reserve_hdr_opt'', 144),
    (''BPF_FUNC_inode_storage_get'', 145),
    (''BPF_FUNC_inode_storage_delete'', 146),
    (''BPF_FUNC_d_path'', 147),
    (''BPF_FUNC_copy_from_user'', 148),
    (''BPF_FUNC_snprintf_btf'', 149),
    (''BPF_FUNC_seq_printf_btf'', 150),
    (''BPF_FUNC_skb_cgroup_classid'', 151),
    (''BPF_FUNC_redirect_neigh'', 152),
    (''BPF_FUNC_per_cpu_ptr'', 153),
    (''BPF_FUNC_this_cpu_ptr'', 154),
    (''BPF_FUNC_redirect_peer'', 155),
    (''BPF_FUNC_task_storage_get'', 156),
    (''BPF_FUNC_task_storage_delete'', 157),
    (''BPF_FUNC_get_current_task_btf'', 158),
    (''BPF_FUNC_bprm_opts_set'', 159),
    (''BPF_FUNC_ktime_get_coarse_ns'', 160),
    (''BPF_FUNC_ima_inode_hash'', 161),
    (''BPF_FUNC_sock_from_file'', 162),
    (''BPF_FUNC_check_mtu'', 163),
    (''BPF_FUNC_for_each_map_elem'', 164),
    (''BPF_FUNC_snprintf'', 165),
    (''BPF_FUNC_sys_bpf'', 166),
    (''BPF_FUNC_btf_find_by_name_kind'', 167),
    (''BPF_FUNC_sys_close'', 168),
    (''BPF_FUNC_timer_init'', 169),
    (''BPF_FUNC_timer_set_callback'', 170),
    (''BPF_FUNC_timer_start'', 171),
    (''BPF_FUNC_timer_cancel'', 172),
    (''BPF_FUNC_get_func_ip'', 173),
    (''BPF_FUNC_get_attach_cookie'', 174),
    (''BPF_FUNC_task_pt_regs'', 175),
    (''BPF_FUNC_get_branch_snapshot'', 176),
    (''BPF_FUNC_trace_vprintk'', 177),
    (''BPF_FUNC_skc_to_unix_sock'', 178),
    (''BPF_FUNC_kallsyms_lookup_name'', 179),
    (''BPF_FUNC_find_vma'', 180),
    (''BPF_FUNC_loop'', 181),
    (''BPF_FUNC_strncmp'', 182),
    (''BPF_FUNC_get_func_arg'', 183),
    (''BPF_FUNC_get_func_ret'', 184),
    (''BPF_FUNC_get_func_arg_cnt'', 185),
    (''BPF_FUNC_get_retval'', 186),
    (''BPF_FUNC_set_retval'', 187),
    (''BPF_FUNC_xdp_get_buff_len'', 188),
    (''BPF_FUNC_xdp_load_bytes'', 189),
    (''BPF_FUNC_xdp_store_bytes'', 190),
    (''BPF_FUNC_copy_from_user_task'', 191),
    (''BPF_FUNC_skb_set_tstamp'', 192),
    (''BPF_FUNC_ima_file_hash'', 193),
    (''BPF_FUNC_kptr_xchg'', 194),
    (''BPF_FUNC_map_lookup_percpu_elem'', 195),
    (''BPF_FUNC_skc_to_mptcp_sock'', 196),
    (''BPF_FUNC_dynptr_from_mem'', 197),
    (''BPF_FUNC_ringbuf_reserve_dynptr'', 198),
    (''BPF_FUNC_ringbuf_submit_dynptr'', 199),
    (''BPF_FUNC_ringbuf_discard_dynptr'', 200),
    (''BPF_FUNC_dynptr_read'', 201),
    (''BPF_FUNC_dynptr_write'', 202),
    (''BPF_FUNC_dynptr_data'', 203),
    (''BPF_FUNC_tcp_raw_gen_syncookie_ipv4'', 204),
    (''BPF_FUNC_tcp_raw_gen_syncookie_ipv6'', 205),
    (''BPF_FUNC_tcp_raw_check_syncookie_ipv4'', 206),
    (''BPF_FUNC_tcp_raw_check_syncookie_ipv6'', 207),
    (''BPF_FUNC_ktime_get_tai_ns'', 208),
    (''BPF_FUNC_user_ringbuf_drain'', 209),
    (''BPF_FUNC_cgrp_storage_get'', 210),
    (''BPF_FUNC_cgrp_storage_delete'', 211),
    (''__BPF_FUNC_MAX_ID'', 212)]"

definition bpf_func_id :: "(string \<times> nat) list" where
  "bpf_func_id = bpf_func_id_1 @ bpf_func_id_2"

definition bpf_update_flags :: "(string \<times> nat) list" where
  "bpf_update_flags =
   [(''BPF_ANY'', 0),
    (''BPF_NOEXIST'', 1),
    (''BPF_EXIST'', 2),
    (''BPF_F_LOCK'', 4)]"

section \<open>The offsets the program reads\<close>

text \<open>
  The read sites of the program (\<open>sa_family\<close>, \<open>sin_addr.s_addr\<close>,
  \<open>sin6_addr.in6_u.u6_addr32\<close>, \<open>euid.val\<close> and the three capability sets)
  as offsets of these declarations.
\<close>

lemma sockaddr_offsets [layout_simps]:
  "offsetof struct_sockaddr [''sa_family''] = Some 0"
  "offsetof struct_sockaddr_in [''sin_addr'', ''s_addr''] = Some 4"
  "offsetof struct_sockaddr_in6 [''sin6_addr'', ''in6_u'', ''u6_addr32''] = Some 8"
  "sizeof struct_sockaddr_in = 16" "sizeof struct_in6_addr = 16"
  by (simp_all add: layout_simps)

lemma cred_offsets [layout_simps]:
  "offsetof struct_cred [''euid'', ''val''] = Some 24"
  "offsetof struct_cred [''cap_inheritable'', ''val''] = Some 48"
  "offsetof struct_cred [''cap_permitted'', ''val''] = Some 56"
  "offsetof struct_cred [''cap_effective'', ''val''] = Some 64"
  by (simp_all add: layout_simps)

end
