(* ===== verification/Bpf_Helper_Defs.thy ===== *)
theory Bpf_Helper_Defs
  imports Vmlinux
begin

text \<open>
  The BPF helper table of \<^verbatim>\<open>src/collector/headers/bpf_helper_defs.h\<close>: each of the 180
  declarations
  \<open>static ret (* bpf_x)(args) = (void *) id\<close> as its name, its prototype and the id the
  call instruction carries. The table is split at the header's own order; the lemmas
  check it against the kernel's \<open>enum bpf_func_id\<close> and the calling convention.
\<close>

type_synonym helper_proto = "string \<times> ctype \<times> nat"

definition bpf_helper_defs_01 :: "helper_proto list" where
  "bpf_helper_defs_01 =
   [(''bpf_map_lookup_elem'', CFun (CPtr CVoid) [CPtr CVoid, CPtr (CConst CVoid)] False, 1),
    (''bpf_map_update_elem'', CFun CLong [CPtr CVoid, CPtr (CConst CVoid), CPtr (CConst CVoid), t_u64] False, 2),
    (''bpf_map_delete_elem'', CFun CLong [CPtr CVoid, CPtr (CConst CVoid)] False, 3),
    (''bpf_probe_read'', CFun CLong [CPtr CVoid, t_u32, CPtr (CConst CVoid)] False, 4),
    (''bpf_ktime_get_ns'', CFun t_u64 [] False, 5),
    (''bpf_trace_printk'', CFun CLong [CPtr (CConst CChar), t_u32] True, 6),
    (''bpf_get_prandom_u32'', CFun t_u32 [] False, 7)]"

definition bpf_helper_defs_02 :: "helper_proto list" where
  "bpf_helper_defs_02 =
   [(''bpf_get_smp_processor_id'', CFun t_u32 [] False, 8),
    (''bpf_skb_store_bytes'', CFun CLong [CPtr (CTag ''struct __sk_buff''), t_u32, CPtr (CConst CVoid), t_u32, t_u64] False, 9),
    (''bpf_l3_csum_replace'', CFun CLong [CPtr (CTag ''struct __sk_buff''), t_u32, t_u64, t_u64, t_u64] False, 10),
    (''bpf_l4_csum_replace'', CFun CLong [CPtr (CTag ''struct __sk_buff''), t_u32, t_u64, t_u64, t_u64] False, 11),
    (''bpf_tail_call'', CFun CLong [CPtr CVoid, CPtr CVoid, t_u32] False, 12)]"

definition bpf_helper_defs_03 :: "helper_proto list" where
  "bpf_helper_defs_03 =
   [(''bpf_clone_redirect'', CFun CLong [CPtr (CTag ''struct __sk_buff''), t_u32, t_u64] False, 13),
    (''bpf_get_current_pid_tgid'', CFun t_u64 [] False, 14),
    (''bpf_get_current_uid_gid'', CFun t_u64 [] False, 15),
    (''bpf_get_current_comm'', CFun CLong [CPtr CVoid, t_u32] False, 16),
    (''bpf_get_cgroup_classid'', CFun t_u32 [CPtr (CTag ''struct __sk_buff'')] False, 17),
    (''bpf_skb_vlan_push'', CFun CLong [CPtr (CTag ''struct __sk_buff''), t_be16, t_u16] False, 18),
    (''bpf_skb_vlan_pop'', CFun CLong [CPtr (CTag ''struct __sk_buff'')] False, 19)]"

definition bpf_helper_defs_04 :: "helper_proto list" where
  "bpf_helper_defs_04 =
   [(''bpf_skb_get_tunnel_key'', CFun CLong [CPtr (CTag ''struct __sk_buff''), CPtr (CTag ''struct bpf_tunnel_key''), t_u32, t_u64] False, 20),
    (''bpf_skb_set_tunnel_key'', CFun CLong [CPtr (CTag ''struct __sk_buff''), CPtr (CTag ''struct bpf_tunnel_key''), t_u32, t_u64] False, 21),
    (''bpf_perf_event_read'', CFun t_u64 [CPtr CVoid, t_u64] False, 22)]"

definition bpf_helper_defs_05 :: "helper_proto list" where
  "bpf_helper_defs_05 =
   [(''bpf_redirect'', CFun CLong [t_u32, t_u64] False, 23),
    (''bpf_get_route_realm'', CFun t_u32 [CPtr (CTag ''struct __sk_buff'')] False, 24),
    (''bpf_perf_event_output'', CFun CLong [CPtr CVoid, CPtr CVoid, t_u64, CPtr CVoid, t_u64] False, 25),
    (''bpf_skb_load_bytes'', CFun CLong [CPtr (CConst CVoid), t_u32, CPtr CVoid, t_u32] False, 26)]"

definition bpf_helper_defs_06 :: "helper_proto list" where
  "bpf_helper_defs_06 =
   [(''bpf_get_stackid'', CFun CLong [CPtr CVoid, CPtr CVoid, t_u64] False, 27),
    (''bpf_csum_diff'', CFun t_s64 [CPtr t_be32, t_u32, CPtr t_be32, t_u32, t_wsum] False, 28),
    (''bpf_skb_get_tunnel_opt'', CFun CLong [CPtr (CTag ''struct __sk_buff''), CPtr CVoid, t_u32] False, 29),
    (''bpf_skb_set_tunnel_opt'', CFun CLong [CPtr (CTag ''struct __sk_buff''), CPtr CVoid, t_u32] False, 30),
    (''bpf_skb_change_proto'', CFun CLong [CPtr (CTag ''struct __sk_buff''), t_be16, t_u64] False, 31)]"

definition bpf_helper_defs_07 :: "helper_proto list" where
  "bpf_helper_defs_07 =
   [(''bpf_skb_change_type'', CFun CLong [CPtr (CTag ''struct __sk_buff''), t_u32] False, 32),
    (''bpf_skb_under_cgroup'', CFun CLong [CPtr (CTag ''struct __sk_buff''), CPtr CVoid, t_u32] False, 33),
    (''bpf_get_hash_recalc'', CFun t_u32 [CPtr (CTag ''struct __sk_buff'')] False, 34),
    (''bpf_get_current_task'', CFun t_u64 [] False, 35),
    (''bpf_probe_write_user'', CFun CLong [CPtr CVoid, CPtr (CConst CVoid), t_u32] False, 36),
    (''bpf_current_task_under_cgroup'', CFun CLong [CPtr CVoid, t_u32] False, 37),
    (''bpf_skb_change_tail'', CFun CLong [CPtr (CTag ''struct __sk_buff''), t_u32, t_u64] False, 38)]"

definition bpf_helper_defs_08 :: "helper_proto list" where
  "bpf_helper_defs_08 =
   [(''bpf_skb_pull_data'', CFun CLong [CPtr (CTag ''struct __sk_buff''), t_u32] False, 39),
    (''bpf_csum_update'', CFun t_s64 [CPtr (CTag ''struct __sk_buff''), t_wsum] False, 40),
    (''bpf_set_hash_invalid'', CFun CVoid [CPtr (CTag ''struct __sk_buff'')] False, 41),
    (''bpf_get_numa_node_id'', CFun CLong [] False, 42),
    (''bpf_skb_change_head'', CFun CLong [CPtr (CTag ''struct __sk_buff''), t_u32, t_u64] False, 43),
    (''bpf_xdp_adjust_head'', CFun CLong [CPtr (CTag ''struct xdp_md''), CInt] False, 44),
    (''bpf_probe_read_str'', CFun CLong [CPtr CVoid, t_u32, CPtr (CConst CVoid)] False, 45)]"

definition bpf_helper_defs_09 :: "helper_proto list" where
  "bpf_helper_defs_09 =
   [(''bpf_get_socket_cookie'', CFun t_u64 [CPtr CVoid] False, 46),
    (''bpf_get_socket_uid'', CFun t_u32 [CPtr (CTag ''struct __sk_buff'')] False, 47),
    (''bpf_set_hash'', CFun CLong [CPtr (CTag ''struct __sk_buff''), t_u32] False, 48),
    (''bpf_setsockopt'', CFun CLong [CPtr CVoid, CInt, CInt, CPtr CVoid, CInt] False, 49),
    (''bpf_skb_adjust_room'', CFun CLong [CPtr (CTag ''struct __sk_buff''), t_s32, t_u32, t_u64] False, 50)]"

definition bpf_helper_defs_10 :: "helper_proto list" where
  "bpf_helper_defs_10 =
   [(''bpf_redirect_map'', CFun CLong [CPtr CVoid, t_u32, t_u64] False, 51),
    (''bpf_sk_redirect_map'', CFun CLong [CPtr (CTag ''struct __sk_buff''), CPtr CVoid, t_u32, t_u64] False, 52),
    (''bpf_sock_map_update'', CFun CLong [CPtr (CTag ''struct bpf_sock_ops''), CPtr CVoid, CPtr CVoid, t_u64] False, 53),
    (''bpf_xdp_adjust_meta'', CFun CLong [CPtr (CTag ''struct xdp_md''), CInt] False, 54)]"

definition bpf_helper_defs_11 :: "helper_proto list" where
  "bpf_helper_defs_11 =
   [(''bpf_perf_event_read_value'', CFun CLong [CPtr CVoid, t_u64, CPtr (CTag ''struct bpf_perf_event_value''), t_u32] False, 55),
    (''bpf_perf_prog_read_value'', CFun CLong [CPtr (CTag ''struct bpf_perf_event_data''), CPtr (CTag ''struct bpf_perf_event_value''), t_u32] False, 56),
    (''bpf_getsockopt'', CFun CLong [CPtr CVoid, CInt, CInt, CPtr CVoid, CInt] False, 57),
    (''bpf_override_return'', CFun CLong [CPtr (CTag ''struct pt_regs''), t_u64] False, 58)]"

definition bpf_helper_defs_12 :: "helper_proto list" where
  "bpf_helper_defs_12 =
   [(''bpf_sock_ops_cb_flags_set'', CFun CLong [CPtr (CTag ''struct bpf_sock_ops''), CInt] False, 59),
    (''bpf_msg_redirect_map'', CFun CLong [CPtr (CTag ''struct sk_msg_md''), CPtr CVoid, t_u32, t_u64] False, 60),
    (''bpf_msg_apply_bytes'', CFun CLong [CPtr (CTag ''struct sk_msg_md''), t_u32] False, 61),
    (''bpf_msg_cork_bytes'', CFun CLong [CPtr (CTag ''struct sk_msg_md''), t_u32] False, 62)]"

definition bpf_helper_defs_13 :: "helper_proto list" where
  "bpf_helper_defs_13 =
   [(''bpf_msg_pull_data'', CFun CLong [CPtr (CTag ''struct sk_msg_md''), t_u32, t_u32, t_u64] False, 63),
    (''bpf_bind'', CFun CLong [CPtr (CTag ''struct bpf_sock_addr''), CPtr (CTag ''struct sockaddr''), CInt] False, 64),
    (''bpf_xdp_adjust_tail'', CFun CLong [CPtr (CTag ''struct xdp_md''), CInt] False, 65),
    (''bpf_skb_get_xfrm_state'', CFun CLong [CPtr (CTag ''struct __sk_buff''), t_u32, CPtr (CTag ''struct bpf_xfrm_state''), t_u32, t_u64] False, 66),
    (''bpf_get_stack'', CFun CLong [CPtr CVoid, CPtr CVoid, t_u32, t_u64] False, 67)]"

definition bpf_helper_defs_14 :: "helper_proto list" where
  "bpf_helper_defs_14 =
   [(''bpf_skb_load_bytes_relative'', CFun CLong [CPtr (CConst CVoid), t_u32, CPtr CVoid, t_u32, t_u32] False, 68),
    (''bpf_fib_lookup'', CFun CLong [CPtr CVoid, CPtr (CTag ''struct bpf_fib_lookup''), CInt, t_u32] False, 69),
    (''bpf_sock_hash_update'', CFun CLong [CPtr (CTag ''struct bpf_sock_ops''), CPtr CVoid, CPtr CVoid, t_u64] False, 70),
    (''bpf_msg_redirect_hash'', CFun CLong [CPtr (CTag ''struct sk_msg_md''), CPtr CVoid, CPtr CVoid, t_u64] False, 71),
    (''bpf_sk_redirect_hash'', CFun CLong [CPtr (CTag ''struct __sk_buff''), CPtr CVoid, CPtr CVoid, t_u64] False, 72)]"

definition bpf_helper_defs_15 :: "helper_proto list" where
  "bpf_helper_defs_15 =
   [(''bpf_lwt_push_encap'', CFun CLong [CPtr (CTag ''struct __sk_buff''), t_u32, CPtr CVoid, t_u32] False, 73),
    (''bpf_lwt_seg6_store_bytes'', CFun CLong [CPtr (CTag ''struct __sk_buff''), t_u32, CPtr (CConst CVoid), t_u32] False, 74),
    (''bpf_lwt_seg6_adjust_srh'', CFun CLong [CPtr (CTag ''struct __sk_buff''), t_u32, t_s32] False, 75),
    (''bpf_lwt_seg6_action'', CFun CLong [CPtr (CTag ''struct __sk_buff''), t_u32, CPtr CVoid, t_u32] False, 76),
    (''bpf_rc_repeat'', CFun CLong [CPtr CVoid] False, 77)]"

definition bpf_helper_defs_16 :: "helper_proto list" where
  "bpf_helper_defs_16 =
   [(''bpf_rc_keydown'', CFun CLong [CPtr CVoid, t_u32, t_u64, t_u32] False, 78),
    (''bpf_skb_cgroup_id'', CFun t_u64 [CPtr (CTag ''struct __sk_buff'')] False, 79),
    (''bpf_get_current_cgroup_id'', CFun t_u64 [] False, 80),
    (''bpf_get_local_storage'', CFun (CPtr CVoid) [CPtr CVoid, t_u64] False, 81),
    (''bpf_sk_select_reuseport'', CFun CLong [CPtr (CTag ''struct sk_reuseport_md''), CPtr CVoid, CPtr CVoid, t_u64] False, 82),
    (''bpf_skb_ancestor_cgroup_id'', CFun t_u64 [CPtr (CTag ''struct __sk_buff''), CInt] False, 83)]"

definition bpf_helper_defs_17 :: "helper_proto list" where
  "bpf_helper_defs_17 =
   [(''bpf_sk_lookup_tcp'', CFun (CPtr (CTag ''struct bpf_sock'')) [CPtr CVoid, CPtr (CTag ''struct bpf_sock_tuple''), t_u32, t_u64, t_u64] False, 84),
    (''bpf_sk_lookup_udp'', CFun (CPtr (CTag ''struct bpf_sock'')) [CPtr CVoid, CPtr (CTag ''struct bpf_sock_tuple''), t_u32, t_u64, t_u64] False, 85),
    (''bpf_sk_release'', CFun CLong [CPtr CVoid] False, 86),
    (''bpf_map_push_elem'', CFun CLong [CPtr CVoid, CPtr (CConst CVoid), t_u64] False, 87),
    (''bpf_map_pop_elem'', CFun CLong [CPtr CVoid, CPtr CVoid] False, 88),
    (''bpf_map_peek_elem'', CFun CLong [CPtr CVoid, CPtr CVoid] False, 89),
    (''bpf_msg_push_data'', CFun CLong [CPtr (CTag ''struct sk_msg_md''), t_u32, t_u32, t_u64] False, 90)]"

definition bpf_helper_defs_18 :: "helper_proto list" where
  "bpf_helper_defs_18 =
   [(''bpf_msg_pop_data'', CFun CLong [CPtr (CTag ''struct sk_msg_md''), t_u32, t_u32, t_u64] False, 91),
    (''bpf_rc_pointer_rel'', CFun CLong [CPtr CVoid, t_s32, t_s32] False, 92),
    (''bpf_spin_lock'', CFun CLong [CPtr (CTag ''struct bpf_spin_lock'')] False, 93),
    (''bpf_spin_unlock'', CFun CLong [CPtr (CTag ''struct bpf_spin_lock'')] False, 94),
    (''bpf_sk_fullsock'', CFun (CPtr (CTag ''struct bpf_sock'')) [CPtr (CTag ''struct bpf_sock'')] False, 95),
    (''bpf_tcp_sock'', CFun (CPtr (CTag ''struct bpf_tcp_sock'')) [CPtr (CTag ''struct bpf_sock'')] False, 96),
    (''bpf_skb_ecn_set_ce'', CFun CLong [CPtr (CTag ''struct __sk_buff'')] False, 97),
    (''bpf_get_listener_sock'', CFun (CPtr (CTag ''struct bpf_sock'')) [CPtr (CTag ''struct bpf_sock'')] False, 98)]"

definition bpf_helper_defs_19 :: "helper_proto list" where
  "bpf_helper_defs_19 =
   [(''bpf_skc_lookup_tcp'', CFun (CPtr (CTag ''struct bpf_sock'')) [CPtr CVoid, CPtr (CTag ''struct bpf_sock_tuple''), t_u32, t_u64, t_u64] False, 99),
    (''bpf_tcp_check_syncookie'', CFun CLong [CPtr CVoid, CPtr CVoid, t_u32, CPtr (CTag ''struct tcphdr''), t_u32] False, 100),
    (''bpf_sysctl_get_name'', CFun CLong [CPtr (CTag ''struct bpf_sysctl''), CPtr CChar, CULong, t_u64] False, 101),
    (''bpf_sysctl_get_current_value'', CFun CLong [CPtr (CTag ''struct bpf_sysctl''), CPtr CChar, CULong] False, 102),
    (''bpf_sysctl_get_new_value'', CFun CLong [CPtr (CTag ''struct bpf_sysctl''), CPtr CChar, CULong] False, 103),
    (''bpf_sysctl_set_new_value'', CFun CLong [CPtr (CTag ''struct bpf_sysctl''), CPtr (CConst CChar), CULong] False, 104)]"

definition bpf_helper_defs_20 :: "helper_proto list" where
  "bpf_helper_defs_20 =
   [(''bpf_strtol'', CFun CLong [CPtr (CConst CChar), CULong, t_u64, CPtr CLong] False, 105),
    (''bpf_strtoul'', CFun CLong [CPtr (CConst CChar), CULong, t_u64, CPtr CULong] False, 106),
    (''bpf_sk_storage_get'', CFun (CPtr CVoid) [CPtr CVoid, CPtr CVoid, CPtr CVoid, t_u64] False, 107),
    (''bpf_sk_storage_delete'', CFun CLong [CPtr CVoid, CPtr CVoid] False, 108),
    (''bpf_send_signal'', CFun CLong [t_u32] False, 109)]"

definition bpf_helper_defs_21 :: "helper_proto list" where
  "bpf_helper_defs_21 =
   [(''bpf_tcp_gen_syncookie'', CFun t_s64 [CPtr CVoid, CPtr CVoid, t_u32, CPtr (CTag ''struct tcphdr''), t_u32] False, 110),
    (''bpf_skb_output'', CFun CLong [CPtr CVoid, CPtr CVoid, t_u64, CPtr CVoid, t_u64] False, 111),
    (''bpf_probe_read_user'', CFun CLong [CPtr CVoid, t_u32, CPtr (CConst CVoid)] False, 112),
    (''bpf_probe_read_kernel'', CFun CLong [CPtr CVoid, t_u32, CPtr (CConst CVoid)] False, 113),
    (''bpf_probe_read_user_str'', CFun CLong [CPtr CVoid, t_u32, CPtr (CConst CVoid)] False, 114),
    (''bpf_probe_read_kernel_str'', CFun CLong [CPtr CVoid, t_u32, CPtr (CConst CVoid)] False, 115),
    (''bpf_tcp_send_ack'', CFun CLong [CPtr CVoid, t_u32] False, 116)]"

definition bpf_helper_defs_22 :: "helper_proto list" where
  "bpf_helper_defs_22 =
   [(''bpf_send_signal_thread'', CFun CLong [t_u32] False, 117),
    (''bpf_jiffies64'', CFun t_u64 [] False, 118),
    (''bpf_read_branch_records'', CFun CLong [CPtr (CTag ''struct bpf_perf_event_data''), CPtr CVoid, t_u32, t_u64] False, 119),
    (''bpf_get_ns_current_pid_tgid'', CFun CLong [t_u64, t_u64, CPtr (CTag ''struct bpf_pidns_info''), t_u32] False, 120),
    (''bpf_xdp_output'', CFun CLong [CPtr CVoid, CPtr CVoid, t_u64, CPtr CVoid, t_u64] False, 121),
    (''bpf_get_netns_cookie'', CFun t_u64 [CPtr CVoid] False, 122),
    (''bpf_get_current_ancestor_cgroup_id'', CFun t_u64 [CInt] False, 123)]"

definition bpf_helper_defs_23 :: "helper_proto list" where
  "bpf_helper_defs_23 =
   [(''bpf_sk_assign'', CFun CLong [CPtr CVoid, CPtr CVoid, t_u64] False, 124),
    (''bpf_ktime_get_boot_ns'', CFun t_u64 [] False, 125),
    (''bpf_seq_printf'', CFun CLong [CPtr (CTag ''struct seq_file''), CPtr (CConst CChar), t_u32, CPtr (CConst CVoid), t_u32] False, 126),
    (''bpf_seq_write'', CFun CLong [CPtr (CTag ''struct seq_file''), CPtr (CConst CVoid), t_u32] False, 127),
    (''bpf_sk_cgroup_id'', CFun t_u64 [CPtr CVoid] False, 128),
    (''bpf_sk_ancestor_cgroup_id'', CFun t_u64 [CPtr CVoid, CInt] False, 129)]"

definition bpf_helper_defs_24 :: "helper_proto list" where
  "bpf_helper_defs_24 =
   [(''bpf_ringbuf_output'', CFun CLong [CPtr CVoid, CPtr CVoid, t_u64, t_u64] False, 130),
    (''bpf_ringbuf_reserve'', CFun (CPtr CVoid) [CPtr CVoid, t_u64, t_u64] False, 131),
    (''bpf_ringbuf_submit'', CFun CVoid [CPtr CVoid, t_u64] False, 132),
    (''bpf_ringbuf_discard'', CFun CVoid [CPtr CVoid, t_u64] False, 133),
    (''bpf_ringbuf_query'', CFun t_u64 [CPtr CVoid, t_u64] False, 134),
    (''bpf_csum_level'', CFun CLong [CPtr (CTag ''struct __sk_buff''), t_u64] False, 135),
    (''bpf_skc_to_tcp6_sock'', CFun (CPtr (CTag ''struct tcp6_sock'')) [CPtr CVoid] False, 136),
    (''bpf_skc_to_tcp_sock'', CFun (CPtr (CTag ''struct tcp_sock'')) [CPtr CVoid] False, 137)]"

definition bpf_helper_defs_25 :: "helper_proto list" where
  "bpf_helper_defs_25 =
   [(''bpf_skc_to_tcp_timewait_sock'', CFun (CPtr (CTag ''struct tcp_timewait_sock'')) [CPtr CVoid] False, 138),
    (''bpf_skc_to_tcp_request_sock'', CFun (CPtr (CTag ''struct tcp_request_sock'')) [CPtr CVoid] False, 139),
    (''bpf_skc_to_udp6_sock'', CFun (CPtr (CTag ''struct udp6_sock'')) [CPtr CVoid] False, 140),
    (''bpf_get_task_stack'', CFun CLong [CPtr (CTag ''struct task_struct''), CPtr CVoid, t_u32, t_u64] False, 141),
    (''bpf_load_hdr_opt'', CFun CLong [CPtr (CTag ''struct bpf_sock_ops''), CPtr CVoid, t_u32, t_u64] False, 142)]"

definition bpf_helper_defs_26 :: "helper_proto list" where
  "bpf_helper_defs_26 =
   [(''bpf_store_hdr_opt'', CFun CLong [CPtr (CTag ''struct bpf_sock_ops''), CPtr (CConst CVoid), t_u32, t_u64] False, 143),
    (''bpf_reserve_hdr_opt'', CFun CLong [CPtr (CTag ''struct bpf_sock_ops''), t_u32, t_u64] False, 144),
    (''bpf_inode_storage_get'', CFun (CPtr CVoid) [CPtr CVoid, CPtr CVoid, CPtr CVoid, t_u64] False, 145),
    (''bpf_inode_storage_delete'', CFun CInt [CPtr CVoid, CPtr CVoid] False, 146),
    (''bpf_d_path'', CFun CLong [CPtr (CTag ''struct path''), CPtr CChar, t_u32] False, 147),
    (''bpf_copy_from_user'', CFun CLong [CPtr CVoid, t_u32, CPtr (CConst CVoid)] False, 148)]"

definition bpf_helper_defs_27 :: "helper_proto list" where
  "bpf_helper_defs_27 =
   [(''bpf_snprintf_btf'', CFun CLong [CPtr CChar, t_u32, CPtr (CTag ''struct btf_ptr''), t_u32, t_u64] False, 149),
    (''bpf_seq_printf_btf'', CFun CLong [CPtr (CTag ''struct seq_file''), CPtr (CTag ''struct btf_ptr''), t_u32, t_u64] False, 150),
    (''bpf_skb_cgroup_classid'', CFun t_u64 [CPtr (CTag ''struct __sk_buff'')] False, 151),
    (''bpf_redirect_neigh'', CFun CLong [t_u32, CPtr (CTag ''struct bpf_redir_neigh''), CInt, t_u64] False, 152),
    (''bpf_per_cpu_ptr'', CFun (CPtr CVoid) [CPtr (CConst CVoid), t_u32] False, 153),
    (''bpf_this_cpu_ptr'', CFun (CPtr CVoid) [CPtr (CConst CVoid)] False, 154),
    (''bpf_redirect_peer'', CFun CLong [t_u32, t_u64] False, 155)]"

definition bpf_helper_defs_28 :: "helper_proto list" where
  "bpf_helper_defs_28 =
   [(''bpf_task_storage_get'', CFun (CPtr CVoid) [CPtr CVoid, CPtr (CTag ''struct task_struct''), CPtr CVoid, t_u64] False, 156),
    (''bpf_task_storage_delete'', CFun CLong [CPtr CVoid, CPtr (CTag ''struct task_struct'')] False, 157),
    (''bpf_get_current_task_btf'', CFun (CPtr (CTag ''struct task_struct'')) [] False, 158),
    (''bpf_bprm_opts_set'', CFun CLong [CPtr (CTag ''struct linux_binprm''), t_u64] False, 159),
    (''bpf_ktime_get_coarse_ns'', CFun t_u64 [] False, 160),
    (''bpf_ima_inode_hash'', CFun CLong [CPtr (CTag ''struct inode''), CPtr CVoid, t_u32] False, 161),
    (''bpf_sock_from_file'', CFun (CPtr (CTag ''struct socket'')) [CPtr (CTag ''struct file'')] False, 162)]"

definition bpf_helper_defs_29 :: "helper_proto list" where
  "bpf_helper_defs_29 =
   [(''bpf_check_mtu'', CFun CLong [CPtr CVoid, t_u32, CPtr t_u32, t_s32, t_u64] False, 163),
    (''bpf_for_each_map_elem'', CFun CLong [CPtr CVoid, CPtr CVoid, CPtr CVoid, t_u64] False, 164),
    (''bpf_snprintf'', CFun CLong [CPtr CChar, t_u32, CPtr (CConst CChar), CPtr t_u64, t_u32] False, 165),
    (''bpf_sys_bpf'', CFun CLong [t_u32, CPtr CVoid, t_u32] False, 166)]"

definition bpf_helper_defs_30 :: "helper_proto list" where
  "bpf_helper_defs_30 =
   [(''bpf_btf_find_by_name_kind'', CFun CLong [CPtr CChar, CInt, t_u32, CInt] False, 167),
    (''bpf_sys_close'', CFun CLong [t_u32] False, 168),
    (''bpf_timer_init'', CFun CLong [CPtr (CTag ''struct bpf_timer''), CPtr CVoid, t_u64] False, 169),
    (''bpf_timer_set_callback'', CFun CLong [CPtr (CTag ''struct bpf_timer''), CPtr CVoid] False, 170),
    (''bpf_timer_start'', CFun CLong [CPtr (CTag ''struct bpf_timer''), t_u64, t_u64] False, 171),
    (''bpf_timer_cancel'', CFun CLong [CPtr (CTag ''struct bpf_timer'')] False, 172),
    (''bpf_get_func_ip'', CFun t_u64 [CPtr CVoid] False, 173),
    (''bpf_get_attach_cookie'', CFun t_u64 [CPtr CVoid] False, 174),
    (''bpf_task_pt_regs'', CFun CLong [CPtr (CTag ''struct task_struct'')] False, 175)]"

definition bpf_helper_defs_31 :: "helper_proto list" where
  "bpf_helper_defs_31 =
   [(''bpf_get_branch_snapshot'', CFun CLong [CPtr CVoid, t_u32, t_u64] False, 176),
    (''bpf_trace_vprintk'', CFun CLong [CPtr (CConst CChar), t_u32, CPtr (CConst CVoid), t_u32] False, 177),
    (''bpf_skc_to_unix_sock'', CFun (CPtr (CTag ''struct unix_sock'')) [CPtr CVoid] False, 178),
    (''bpf_kallsyms_lookup_name'', CFun CLong [CPtr (CConst CChar), CInt, CInt, CPtr t_u64] False, 179),
    (''bpf_find_vma'', CFun CLong [CPtr (CTag ''struct task_struct''), t_u64, CPtr CVoid, CPtr CVoid, t_u64] False, 180)]"

definition bpf_helper_defs :: "helper_proto list" where
  "bpf_helper_defs =
     bpf_helper_defs_01 @ bpf_helper_defs_02 @ bpf_helper_defs_03 @
     bpf_helper_defs_04 @ bpf_helper_defs_05 @ bpf_helper_defs_06 @
     bpf_helper_defs_07 @ bpf_helper_defs_08 @ bpf_helper_defs_09 @
     bpf_helper_defs_10 @ bpf_helper_defs_11 @ bpf_helper_defs_12 @
     bpf_helper_defs_13 @ bpf_helper_defs_14 @ bpf_helper_defs_15 @
     bpf_helper_defs_16 @ bpf_helper_defs_17 @ bpf_helper_defs_18 @
     bpf_helper_defs_19 @ bpf_helper_defs_20 @ bpf_helper_defs_21 @
     bpf_helper_defs_22 @ bpf_helper_defs_23 @ bpf_helper_defs_24 @
     bpf_helper_defs_25 @ bpf_helper_defs_26 @ bpf_helper_defs_27 @
     bpf_helper_defs_28 @ bpf_helper_defs_29 @ bpf_helper_defs_30 @
     bpf_helper_defs_31"

lemmas bpf_helper_defs_rows =
  bpf_helper_defs_def
  bpf_helper_defs_01_def bpf_helper_defs_02_def bpf_helper_defs_03_def
  bpf_helper_defs_04_def bpf_helper_defs_05_def bpf_helper_defs_06_def
  bpf_helper_defs_07_def bpf_helper_defs_08_def bpf_helper_defs_09_def
  bpf_helper_defs_10_def bpf_helper_defs_11_def bpf_helper_defs_12_def
  bpf_helper_defs_13_def bpf_helper_defs_14_def bpf_helper_defs_15_def
  bpf_helper_defs_16_def bpf_helper_defs_17_def bpf_helper_defs_18_def
  bpf_helper_defs_19_def bpf_helper_defs_20_def bpf_helper_defs_21_def
  bpf_helper_defs_22_def bpf_helper_defs_23_def bpf_helper_defs_24_def
  bpf_helper_defs_25_def bpf_helper_defs_26_def bpf_helper_defs_27_def
  bpf_helper_defs_28_def bpf_helper_defs_29_def bpf_helper_defs_30_def
  bpf_helper_defs_31_def

section \<open>Reading the table\<close>

fun helper_ret :: "helper_proto \<Rightarrow> ctype" where
  "helper_ret (_, CFun r _ _, _) = r"
| "helper_ret (_, t, _) = t"

fun helper_args :: "helper_proto \<Rightarrow> ctype list" where
  "helper_args (_, CFun _ as _, _) = as"
| "helper_args _ = []"

definition helper_id :: "string \<Rightarrow> nat option" where
  "helper_id name = map_option snd (map_of bpf_helper_defs name)"

definition helper_enumerator :: "helper_proto \<Rightarrow> string \<times> nat" where
  "helper_enumerator h = (''BPF_FUNC_'' @ drop 4 (fst h), snd (snd h))"

section \<open>Consistency of the table\<close>

lemma length_bpf_helper_defs: "length bpf_helper_defs = 180"
  by (simp add: bpf_helper_defs_rows)

lemma helper_ids: "map (snd \<circ> snd) bpf_helper_defs = [1..<181]"
  by (simp add: bpf_helper_defs_rows upt_conv_Cons del: upt_Suc)

lemma helper_enumerators:
  "map helper_enumerator bpf_helper_defs = take 180 (drop 1 bpf_func_id)"
  by (simp add: bpf_helper_defs_rows helper_enumerator_def bpf_func_id_def bpf_func_id_1_def
      bpf_func_id_2_def)

lemma helper_arity: "list_all (\<lambda>h. length (helper_args h) \<le> 5) bpf_helper_defs"
  by (simp add: bpf_helper_defs_rows)


end
