(* ===== verification/Bpf_Helpers.thy ===== *)
theory Bpf_Helpers
  imports Bpf_Helper_Defs
begin

text \<open>
  The macros and inline functions of \<^verbatim>\<open>src/collector/headers/bpf_helpers.h\<close>. A function-like
  macro is a function from the list of its arguments to what it expands to; an
  expansion the preprocessor or the compiler rejects is \<open>None\<close>. A macro that ends in a
  helper call yields the call: the helper's name and its actual arguments.
\<close>

section \<open>Map declarations\<close>

text \<open>
  \<open>__uint(name, val)\<close> declares a pointer to an array of \<open>val\<close> ints and \<open>__type(name, t)\<close>
  a pointer to \<open>t\<close>: a map's attributes are encoded in the types of the members of its
  declaration, where the loader reads them back (\<open>uint_attr\<close>, \<open>type_attr\<close>).
\<close>

definition uint_member :: "string \<Rightarrow> nat \<Rightarrow> string \<times> ctype" where
  "uint_member name val = (name, CPtr (CArr CInt val))"

definition type_member :: "string \<Rightarrow> ctype \<Rightarrow> string \<times> ctype" where
  "type_member name t = (name, CPtr t)"

definition array_member :: "string \<Rightarrow> ctype \<Rightarrow> string \<times> ctype" where
  "array_member name t = (name, CArr (CPtr t) 0)"

fun attr_of :: "ctype \<Rightarrow> string \<Rightarrow> ctype option" where
  "attr_of (CStruct fs) name = map_of fs name"
| "attr_of _ _ = None"

definition uint_attr :: "ctype \<Rightarrow> string \<Rightarrow> nat option" where
  "uint_attr decl name =
     (case attr_of decl name of Some (CPtr (CArr CInt n)) \<Rightarrow> Some n | _ \<Rightarrow> None)"

definition type_attr :: "ctype \<Rightarrow> string \<Rightarrow> ctype option" where
  "type_attr decl name = (case attr_of decl name of Some (CPtr t) \<Rightarrow> Some t | _ \<Rightarrow> None)"

lemmas map_decl_simps [layout_simps] =
  uint_member_def type_member_def array_member_def uint_attr_def type_attr_def

definition struct_bpf_map_def :: ctype where
  "struct_bpf_map_def =
     CStruct
       [(''type'', CUInt),
        (''key_size'', CUInt),
        (''value_size'', CUInt),
        (''max_entries'', CUInt),
        (''map_flags'', CUInt)]"

definition libbpf_pin_type :: "(string \<times> nat) list" where
  "libbpf_pin_type = [(''LIBBPF_PIN_NONE'', 0), (''LIBBPF_PIN_BY_NAME'', 1)]"

definition libbpf_tristate :: "(string \<times> nat) list" where
  "libbpf_tristate = [(''TRI_NO'', 0), (''TRI_YES'', 1), (''TRI_MODULE'', 2)]"

section \<open>Versions and containers\<close>

definition KERNEL_VERSION :: "int \<Rightarrow> int \<Rightarrow> int \<Rightarrow> int" where
  "KERNEL_VERSION a b c = push_bit 16 a + push_bit 8 b + (if c > 255 then 255 else c)"

text \<open>
  \<open>field_addr p t path\<close> is the address \<open>&p->path\<close> for a \<open>t *p\<close>; \<open>container_of\<close> goes back.
\<close>

definition field_addr :: "u64 \<Rightarrow> ctype \<Rightarrow> string list \<Rightarrow> u64" where
  "field_addr p t path = p + of_nat (case offsetof t path of Some off \<Rightarrow> off | None \<Rightarrow> 0)"

definition container_of :: "u64 \<Rightarrow> ctype \<Rightarrow> string list \<Rightarrow> u64" where
  "container_of ptr t path = ptr - field_addr 0 t path"

lemma container_of_field_addr: "container_of (field_addr p t path) t path = p"
  by (simp add: container_of_def field_addr_def)

lemma field_addr_container_of: "field_addr (container_of ptr t path) t path = ptr"
  by (simp add: container_of_def field_addr_def)

text \<open>
  \<open>bpf_tail_call_static\<close> loads r1 to r3 and issues \<open>call 12\<close>; a slot that is not a
  compile-time constant is a build error.
\<close>

definition bpf_tail_call_static ::
  "bool \<Rightarrow> u64 \<Rightarrow> u64 \<Rightarrow> u32 \<Rightarrow> ((nat \<times> u64) list \<times> nat) option"
where
  "bpf_tail_call_static slot_is_constant ctx map_ptr slot =
     (if \<not> slot_is_constant then None
      else Some ([(1, ctx), (2, map_ptr), (3, ucast slot)], 12))"

section \<open>Counting and spreading macro arguments\<close>

text \<open>
  \<open>___bpf_nth\<close> expands to its fourteenth argument; \<open>___bpf_narg\<close> counts up to twelve
  arguments by shifting the countdown 12, 11, \<dots>, 0 along. Arguments are \<open>Inl\<close>
  (\<open>None\<close> for the leading underscore), the numbers of the countdown \<open>Inr\<close>.
\<close>

definition bpf_nth :: "'a list \<Rightarrow> 'a option" where
  "bpf_nth as = (if 13 < length as then Some (as ! 13) else None)"

definition bpf_narg :: "'a list \<Rightarrow> ('a option + nat) option" where
  "bpf_narg args =
     bpf_nth (Inl None # map (Inl \<circ> Some) args @ map Inr [12, 11, 10, 9, 8, 7, 6, 5, 4, 3, 2, 1, 0])"

fun bpf_fill_n :: "nat \<Rightarrow> 'v list \<Rightarrow> nat \<Rightarrow> 'v list \<Rightarrow> 'v list" where
  "bpf_fill_n 0 arr p args = arr"
| "bpf_fill_n (Suc n) arr p [] = arr"
| "bpf_fill_n (Suc n) arr p (x # args) = bpf_fill_n n (arr[p := x]) (p + 1) args"

definition bpf_fill :: "'v list \<Rightarrow> 'v list \<Rightarrow> 'v list option" where
  "bpf_fill arr args =
     (case bpf_narg args of Some (Inr n) \<Rightarrow> Some (bpf_fill_n n arr 0 args) | _ \<Rightarrow> None)"

lemma countdown_nth:
  "i \<le> 12 \<Longrightarrow> [12, 11, 10, 9, 8, 7, 6, 5, 4, 3, 2, 1, 0 :: nat] ! i = 12 - i"
proof -
  assume "i \<le> 12"
  then have "i \<in> set [0..<13]" by simp
  then show ?thesis by (auto simp: upt_conv_Cons)
qed

lemma bpf_narg_length: "length args \<le> 12 \<Longrightarrow> bpf_narg args = Some (Inr (length args))"
  by (simp add: bpf_narg_def bpf_nth_def nth_append countdown_nth del: list.map One_nat_def)

lemma bpf_narg_overflow:
  "12 < length args \<Longrightarrow> bpf_narg args = Some (Inl (Some (args ! 12)))"
  by (simp add: bpf_narg_def bpf_nth_def nth_append nth_Cons' del: list.map)

lemma bpf_fill_n_eq:
  "p + length args \<le> length arr \<Longrightarrow>
   bpf_fill_n (length args) arr p args = take p arr @ args @ drop (p + length args) arr"
proof (induction args arbitrary: arr p)
  case (Cons x args)
  then show ?case
    by (simp add: upd_conv_take_nth_drop take_Suc_conv_app_nth nth_append add.commute)
qed simp

lemma bpf_fill_exact:
  assumes "length args \<le> 12" "length arr = length args"
  shows "bpf_fill arr args = Some args"
  using assms bpf_fill_n_eq [of 0 args arr] by (simp add: bpf_fill_def bpf_narg_length)

section \<open>Formatted output\<close>

text \<open>
  The actual arguments of an emitted helper call: an object or buffer address, a string
  literal (\<open>sizeof\<close> counts its terminating NUL), a size, a \<open>___param\<close> array, or a value
  passed in a register. \<open>init\<close> is the uninitialised content of \<open>___param\<close>.
\<close>

datatype call_arg =
    AAddr u64
  | AStr string
  | ASize nat
  | AWords "u64 list"
  | AWord u64

type_synonym helper_call = "string \<times> call_arg list"

definition sizeof_literal :: "string \<Rightarrow> nat" where
  "sizeof_literal fmt = length fmt + 1"

definition param_array :: "u64 \<Rightarrow> u64 list \<Rightarrow> u64 list option" where
  "param_array init args =
     (case bpf_narg args of
        Some (Inr n) \<Rightarrow> bpf_fill (replicate n init) args
      | _ \<Rightarrow> None)"

definition BPF_SEQ_PRINTF :: "u64 \<Rightarrow> u64 \<Rightarrow> string \<Rightarrow> u64 list \<Rightarrow> helper_call option" where
  "BPF_SEQ_PRINTF init seq fmt args =
     map_option (\<lambda>param. (''bpf_seq_printf'',
         [AAddr seq, AStr fmt, ASize (sizeof_literal fmt), AWords param, ASize (8 * length param)]))
       (param_array init args)"

definition BPF_SNPRINTF :: "u64 \<Rightarrow> u64 \<Rightarrow> nat \<Rightarrow> string \<Rightarrow> u64 list \<Rightarrow> helper_call option" where
  "BPF_SNPRINTF init out out_size fmt args =
     map_option (\<lambda>param. (''bpf_snprintf'',
         [AAddr out, ASize out_size, AStr fmt, AWords param, ASize (8 * length param)]))
       (param_array init args)"

definition bpf_printk_direct :: "string \<Rightarrow> u64 list \<Rightarrow> helper_call option" where
  "bpf_printk_direct fmt args =
     Some (''bpf_trace_printk'', [AStr fmt, ASize (sizeof_literal fmt)] @ map AWord args)"

definition bpf_vprintk :: "u64 \<Rightarrow> string \<Rightarrow> u64 list \<Rightarrow> helper_call option" where
  "bpf_vprintk init fmt args =
     map_option (\<lambda>param. (''bpf_trace_vprintk'',
         [AStr fmt, ASize (sizeof_literal fmt), AWords param, ASize (8 * length param)]))
       (param_array init args)"

text \<open>
  \<open>___bpf_pick_printk\<close> selects with the same shifting trick: nine times
  \<open>__bpf_vprintk\<close>, then \<open>__bpf_printk\<close> for three, two, one and no arguments.
\<close>

datatype printk_kind = Direct | Vector

definition bpf_pick_printk :: "'a list \<Rightarrow> ('a option + printk_kind) option" where
  "bpf_pick_printk args =
     bpf_nth (Inl None # map (Inl \<circ> Some) args @
              map Inr (replicate 9 Vector @ [Direct, Direct, Direct, Direct]))"

definition bpf_printk :: "u64 \<Rightarrow> string \<Rightarrow> u64 list \<Rightarrow> helper_call option" where
  "bpf_printk init fmt args =
     (case bpf_pick_printk args of
        Some (Inr Direct) \<Rightarrow> bpf_printk_direct fmt args
      | Some (Inr Vector) \<Rightarrow> bpf_vprintk init fmt args
      | _ \<Rightarrow> None)"

lemma param_array_eq: "length args \<le> 12 \<Longrightarrow> param_array init args = Some args"
  by (simp add: param_array_def bpf_narg_length bpf_fill_exact)

lemma pick_table_nth:
  "i \<le> 12 \<Longrightarrow> (replicate 9 Vector @ [Direct, Direct, Direct, Direct]) ! i
     = (if i < 9 then Vector else Direct)"
proof -
  assume "i \<le> 12"
  then have "i \<in> set [0..<13]" by simp
  then show ?thesis by (auto simp: upt_conv_Cons numeral_eq_Suc)
qed

lemma bpf_pick_printk_eq:
  "length args \<le> 12 \<Longrightarrow>
   bpf_pick_printk args = Some (Inr (if length args \<le> 3 then Direct else Vector))"
  using pick_table_nth [of "12 - length args"]
  by (auto simp: bpf_pick_printk_def bpf_nth_def nth_append simp del: list.map map_append)

text \<open>
  \<open>bpf_printk\<close> with up to twelve values always expands, never to a call with more
  than the five arguments a BPF helper can take, and passes every value in order: in
  registers when there are at most three, in an array of exactly that many words
  (with the matching byte size) when there are more.
\<close>

theorem bpf_printk_call:
  assumes "length args \<le> 12"
  shows "\<exists>name as. bpf_printk init fmt args = Some (name, as) \<and> length as \<le> 5 \<and>
    (if length args \<le> 3
     then name = ''bpf_trace_printk''
        \<and> as = [AStr fmt, ASize (length fmt + 1)] @ map AWord args
     else name = ''bpf_trace_vprintk''
        \<and> as = [AStr fmt, ASize (length fmt + 1), AWords args, ASize (8 * length args)])"
  using assms
  by (simp add: bpf_printk_def bpf_pick_printk_eq bpf_printk_direct_def bpf_vprintk_def
      param_array_eq sizeof_literal_def)

theorem bpf_printk_call_witness:
  "length [1, 2, 3, 4 :: u64] \<le> 12 \<and>
   bpf_printk 0 ''%d'' [1, 2, 3, 4] =
     Some (''bpf_trace_vprintk'', [AStr ''%d'', ASize 3, AWords [1, 2, 3, 4], ASize 32])"
  using bpf_printk_call [of "[1, 2, 3, 4]" 0 "''%d''"] by simp

end
