(* ===== verification/Bpf_Endian.thy ===== *)
theory Bpf_Endian
  imports Bulkhead_Prelude
begin

unbundle bit_operations_syntax

text \<open>
  Byte-order conversion, after \<^verbatim>\<open>src/collector/headers/bpf_endian.h\<close>: the byte-moving
  macro \<open>___bpf_mvb\<close>, the three constant swappers built from it, the
  \<open>__BYTE_ORDER__\<close> selection, and the public macros that choose between the
  constant and the run-time form. The compiler builtin \<open>__builtin_bswapN\<close> is its
  documented meaning, byte reversal.
\<close>

section \<open>The swap macros\<close>

text \<open>
  \<open>___bpf_mvb(x, b, n, m)\<close> isolates byte \<open>n\<close> of a \<open>b\<close>-bit value and puts it into
  byte \<open>m\<close>: three shifts. A \<open>__u16\<close> operand is promoted to a 32-bit \<open>int\<close>
  before it is shifted, so the 16-bit swapper works on 32-bit words and truncates
  once, in its outer cast.
\<close>

definition bpf_mvb :: "nat \<Rightarrow> 'a::len word \<Rightarrow> nat \<Rightarrow> nat \<Rightarrow> 'a word" where
  "bpf_mvb b x n m = push_bit (m * 8) (drop_bit (b - 8) (push_bit (b - (n + 1) * 8) x))"

definition bpf_swab16 :: "u16 \<Rightarrow> u16" where
  "bpf_swab16 x =
     (let i = (ucast x :: c_int)
      in ucast (bpf_mvb 16 i 0 1 OR bpf_mvb 16 i 1 0))"

definition bpf_swab32 :: "u32 \<Rightarrow> u32" where
  "bpf_swab32 x =
     (bpf_mvb 32 x 0 3 OR bpf_mvb 32 x 1 2 OR bpf_mvb 32 x 2 1 OR bpf_mvb 32 x 3 0)"

definition bpf_swab64 :: "u64 \<Rightarrow> u64" where
  "bpf_swab64 x =
     (bpf_mvb 64 x 0 7 OR bpf_mvb 64 x 1 6 OR bpf_mvb 64 x 2 5 OR bpf_mvb 64 x 3 4 OR
      bpf_mvb 64 x 4 3 OR bpf_mvb 64 x 5 2 OR bpf_mvb 64 x 6 1 OR bpf_mvb 64 x 7 0)"

text \<open>The compiler builtins: the bytes of the value in reverse order.\<close>

definition builtin_bswap16 :: "u16 \<Rightarrow> u16" where
  "builtin_bswap16 x = of_nat (be_nat (le_bytes 2 (unat x)))"

definition builtin_bswap32 :: "u32 \<Rightarrow> u32" where
  "builtin_bswap32 x = of_nat (be_nat (le_bytes 4 (unat x)))"

definition builtin_bswap64 :: "u64 \<Rightarrow> u64" where
  "builtin_bswap64 x = of_nat (be_nat (le_bytes 8 (unat x)))"

section \<open>Selection by byte order\<close>

text \<open>
  The \<open>#if __BYTE_ORDER__\<close> block. The run-time macros (\<open>__bpf_ntohl\<close> and its
  kin) have the suffix \<open>_rt\<close> here, since the public names follow below.
\<close>

fun bpf_ntohs_rt :: "byte_order \<Rightarrow> u16 \<Rightarrow> u16" where
  "bpf_ntohs_rt Little x = builtin_bswap16 x"
| "bpf_ntohs_rt Big x = x"

fun bpf_htons_rt :: "byte_order \<Rightarrow> u16 \<Rightarrow> u16" where
  "bpf_htons_rt Little x = builtin_bswap16 x"
| "bpf_htons_rt Big x = x"

fun bpf_constant_ntohs :: "byte_order \<Rightarrow> u16 \<Rightarrow> u16" where
  "bpf_constant_ntohs Little x = bpf_swab16 x"
| "bpf_constant_ntohs Big x = x"

fun bpf_constant_htons :: "byte_order \<Rightarrow> u16 \<Rightarrow> u16" where
  "bpf_constant_htons Little x = bpf_swab16 x"
| "bpf_constant_htons Big x = x"

fun bpf_ntohl_rt :: "byte_order \<Rightarrow> u32 \<Rightarrow> u32" where
  "bpf_ntohl_rt Little x = builtin_bswap32 x"
| "bpf_ntohl_rt Big x = x"

fun bpf_htonl_rt :: "byte_order \<Rightarrow> u32 \<Rightarrow> u32" where
  "bpf_htonl_rt Little x = builtin_bswap32 x"
| "bpf_htonl_rt Big x = x"

fun bpf_constant_ntohl :: "byte_order \<Rightarrow> u32 \<Rightarrow> u32" where
  "bpf_constant_ntohl Little x = bpf_swab32 x"
| "bpf_constant_ntohl Big x = x"

fun bpf_constant_htonl :: "byte_order \<Rightarrow> u32 \<Rightarrow> u32" where
  "bpf_constant_htonl Little x = bpf_swab32 x"
| "bpf_constant_htonl Big x = x"

fun bpf_be64_to_cpu_rt :: "byte_order \<Rightarrow> u64 \<Rightarrow> u64" where
  "bpf_be64_to_cpu_rt Little x = builtin_bswap64 x"
| "bpf_be64_to_cpu_rt Big x = x"

fun bpf_cpu_to_be64_rt :: "byte_order \<Rightarrow> u64 \<Rightarrow> u64" where
  "bpf_cpu_to_be64_rt Little x = builtin_bswap64 x"
| "bpf_cpu_to_be64_rt Big x = x"

fun bpf_constant_be64_to_cpu :: "byte_order \<Rightarrow> u64 \<Rightarrow> u64" where
  "bpf_constant_be64_to_cpu Little x = bpf_swab64 x"
| "bpf_constant_be64_to_cpu Big x = x"

fun bpf_constant_cpu_to_be64 :: "byte_order \<Rightarrow> u64 \<Rightarrow> u64" where
  "bpf_constant_cpu_to_be64 Little x = bpf_swab64 x"
| "bpf_constant_cpu_to_be64 Big x = x"

text \<open>
  The public macros. Whether the compiler sees a constant (\<open>__builtin_constant_p\<close>)
  is the argument \<open>const\<close>; the choice is shown below not to matter.
\<close>

definition bpf_htons :: "byte_order \<Rightarrow> bool \<Rightarrow> u16 \<Rightarrow> u16" where
  "bpf_htons ord const x = (if const then bpf_constant_htons ord x else bpf_htons_rt ord x)"

definition bpf_ntohs :: "byte_order \<Rightarrow> bool \<Rightarrow> u16 \<Rightarrow> u16" where
  "bpf_ntohs ord const x = (if const then bpf_constant_ntohs ord x else bpf_ntohs_rt ord x)"

definition bpf_htonl :: "byte_order \<Rightarrow> bool \<Rightarrow> u32 \<Rightarrow> u32" where
  "bpf_htonl ord const x = (if const then bpf_constant_htonl ord x else bpf_htonl_rt ord x)"

definition bpf_ntohl :: "byte_order \<Rightarrow> bool \<Rightarrow> u32 \<Rightarrow> u32" where
  "bpf_ntohl ord const x = (if const then bpf_constant_ntohl ord x else bpf_ntohl_rt ord x)"

definition bpf_cpu_to_be64 :: "byte_order \<Rightarrow> bool \<Rightarrow> u64 \<Rightarrow> u64" where
  "bpf_cpu_to_be64 ord const x =
     (if const then bpf_constant_cpu_to_be64 ord x else bpf_cpu_to_be64_rt ord x)"

definition bpf_be64_to_cpu :: "byte_order \<Rightarrow> bool \<Rightarrow> u64 \<Rightarrow> u64" where
  "bpf_be64_to_cpu ord const x =
     (if const then bpf_constant_be64_to_cpu ord x else bpf_be64_to_cpu_rt ord x)"

section \<open>The swappers reverse bytes\<close>

text \<open>One byte move, bit by bit; the swappers are then read off by the byte index.\<close>

lemma bit_mvb:
  assumes "LENGTH('a) = b" and "n < b div 8" "m < b div 8" "8 dvd b"
  shows "bit (bpf_mvb b (x :: 'a::len word) n m) i \<longleftrightarrow> i div 8 = m \<and> bit x (8 * n + i mod 8)"
proof -
  obtain c where b: "b = 8 * c" using assms by auto
  show ?thesis
  proof (cases "i div 8 = m")
    case True
    then obtain r where i: "i = 8 * m + r" and "r < 8"
      by (metis mult_div_mod_eq mod_less_divisor zero_less_numeral)
    with assms b show ?thesis by (auto simp: bpf_mvb_def bit_simps ac_simps)
  next
    case False
    then have "i < 8 * m \<or> 8 * m + 8 \<le> i" by linarith
    with False assms b show ?thesis
      by (auto simp: bpf_mvb_def bit_simps dest: bit_imp_le_length)
  qed
qed

lemma bit_swab32: "bit (bpf_swab32 x) i \<longleftrightarrow> i < 32 \<and> bit x (8 * (3 - i div 8) + i mod 8)"
proof -
  consider "i div 8 = 0" | "i div 8 = 1" | "i div 8 = 2" | "i div 8 = 3" | "i div 8 > 3" by linarith
  then show ?thesis
    by cases (auto simp: bpf_swab32_def bit_or_iff bit_mvb)
qed
lemma bit_swab64: "bit (bpf_swab64 x) i \<longleftrightarrow> i < 64 \<and> bit x (8 * (7 - i div 8) + i mod 8)"
proof -
  consider "i div 8 = 0" | "i div 8 = 1" | "i div 8 = 2" | "i div 8 = 3" | "i div 8 = 4" | "i div 8 = 5" | "i div 8 = 6" | "i div 8 = 7" | "i div 8 > 7" by linarith
  then show ?thesis
    by cases (auto simp: bpf_swab64_def bit_or_iff bit_mvb)
qed
lemma bit_swab16: "bit (bpf_swab16 x) i \<longleftrightarrow> i < 16 \<and> bit x (8 * (1 - i div 8) + i mod 8)"
proof -
  consider "i < 8" | "8 \<le> i" "i < 16" | "16 \<le> i" by linarith
  then show ?thesis
  proof cases
    case 1 then show ?thesis by (simp add: bpf_swab16_def bpf_mvb_def Let_def bit_simps)
  next
    case 2
    then have "i div 8 = 1" "i mod 8 = i - 8" by (simp_all add: le_mod_geq)
    with 2 show ?thesis
      by (auto simp: bpf_swab16_def bpf_mvb_def Let_def bit_simps dest: bit_imp_le_length)
  next
    case 3 then show ?thesis by (auto dest: bit_imp_le_length)
  qed
qed
lemma bpf_swab16_builtin: "bpf_swab16 x = builtin_bswap16 x"
  by (rule bit_word_eqI)
    (simp add: bit_swab16 builtin_bswap16_def bit_simps bit_be_nat_le_bytes)

lemma bpf_swab32_builtin: "bpf_swab32 x = builtin_bswap32 x"
  by (rule bit_word_eqI)
    (simp add: bit_swab32 builtin_bswap32_def bit_simps bit_be_nat_le_bytes)

lemma bpf_swab64_builtin: "bpf_swab64 x = builtin_bswap64 x"
  by (rule bit_word_eqI)
    (simp add: bit_swab64 builtin_bswap64_def bit_simps bit_be_nat_le_bytes)

lemma be_nat_less_4: "length bs = 4 \<Longrightarrow> be_nat bs < 2 ^ 32"
  using be_nat_less [of bs] by simp

lemma le_nat_less_4: "length bs = 4 \<Longrightarrow> le_nat bs < 2 ^ 32"
  using le_nat_less [of bs] by simp

lemma builtin_bswap32_load:
  "length bs = 4 \<Longrightarrow> builtin_bswap32 (of_nat (le_nat bs)) = of_nat (be_nat bs)"
  using le_bytes_le_nat [of bs] le_nat_less_4 [of bs]
  by (simp add: builtin_bswap32_def unat_of_nat_small)

lemma builtin_bswap32_twice: "builtin_bswap32 (builtin_bswap32 x) = x"
proof -
  have "unat (builtin_bswap32 x) = be_nat (le_bytes 4 (unat x))"
    using be_nat_less_4 [of "le_bytes 4 (unat x)"]
    by (simp add: builtin_bswap32_def unat_of_nat_small)
  moreover have "le_bytes 4 (be_nat (le_bytes 4 (unat x))) = rev (le_bytes 4 (unat x))"
    using le_bytes_le_nat [of "rev (le_bytes 4 (unat x))"] by (simp add: be_nat_def)
  ultimately show ?thesis
    by (simp add: builtin_bswap32_def be_nat_def le_nat_le_bytes)
qed

lemma bpf_ntohl_const: "bpf_ntohl ord c x = bpf_ntohl_rt ord x"
  by (cases ord) (auto simp: bpf_ntohl_def bpf_swab32_builtin)

lemma bpf_htonl_const: "bpf_htonl ord c x = bpf_htonl_rt ord x"
  by (cases ord) (auto simp: bpf_htonl_def bpf_swab32_builtin)

lemma bpf_ntohl_load:
  "length bs = 4 \<Longrightarrow> bpf_ntohl ord c (of_nat (native_nat ord bs)) = of_nat (be_nat bs)"
  by (cases ord) (auto simp: bpf_ntohl_const builtin_bswap32_load)

lemma bpf_ntohl_htonl: "bpf_ntohl ord c (bpf_htonl ord d x) = x"
  by (cases ord) (auto simp: bpf_ntohl_const bpf_htonl_const builtin_bswap32_twice)

lemma bpf_htonl_ntohl: "bpf_htonl ord c (bpf_ntohl ord d x) = x"
  by (cases ord) (auto simp: bpf_ntohl_const bpf_htonl_const builtin_bswap32_twice)

end
