(* ===== verification/Bpf_Runtime.thy ===== *)
theory Bpf_Runtime
  imports Bpf_Helpers Bpf_Endian
begin

text \<open>
  What one invocation of a BPF program sees of the kernel: the values of the helpers
  that report on the current task and the clock, whether the ring buffer has room, and
  the effect of \<open>bpf_probe_read_kernel\<close> on its destination. The kernel is not part of the
  sources, so all of these are inputs of the programs; \<open>env_reads\<close> and \<open>read_keeps\<close> state
  the documented behaviour of a memory read where a property needs it.
\<close>

section \<open>The environment of one invocation\<close>

text \<open>
  \<open>probe_read a n dst\<close> is the content of the \<open>n\<close>-byte destination after
  \<open>bpf_probe_read_kernel(dst, n, a)\<close>. The programs ignore its return value, so the content
  is all they observe.
\<close>

record kernel_env =
  target_order :: byte_order
  current_cgroup_id :: u64
  current_pid_tgid :: u64
  current_comm :: "u8 list"
  ktime_ns :: u64
  ringbuf_room :: bool
  probe_read :: "u64 \<Rightarrow> nat \<Rightarrow> u8 list \<Rightarrow> u8 list"

text \<open>A variable of the stack as the destination of a read, in the target's byte order.\<close>

definition load_word :: "byte_order \<Rightarrow> u8 list \<Rightarrow> 'a::len word" where
  "load_word ord bs = of_nat (native_nat ord bs)"

definition store_word :: "byte_order \<Rightarrow> 'a::len word \<Rightarrow> u8 list" where
  "store_word ord w = native_bytes ord (LENGTH('a) div 8) (unat w)"

definition probe_read_word :: "kernel_env \<Rightarrow> 'a::len word \<Rightarrow> u64 \<Rightarrow> 'a word" where
  "probe_read_word env dst a =
     load_word (target_order env)
       (probe_read env a (LENGTH('a) div 8) (store_word (target_order env) dst))"

definition probe_read_words :: "kernel_env \<Rightarrow> u32 list \<Rightarrow> u64 \<Rightarrow> u32 list" where
  "probe_read_words env dst a =
     (let bs = probe_read env a (4 * length dst) (concat (map (store_word (target_order env)) dst))
      in map (\<lambda>i. load_word (target_order env) (seg_at (4 * i) 4 bs)) [0..<length dst])"

section \<open>What a read may be relied on for\<close>

text \<open>\<open>env_reads env p bs\<close>: the bytes \<open>bs\<close> at address \<open>p\<close> are readable.\<close>

definition env_reads :: "kernel_env \<Rightarrow> u64 \<Rightarrow> u8 list \<Rightarrow> bool" where
  "env_reads env p bs \<longleftrightarrow>
     (\<forall>off n dst. off + n \<le> length bs \<longrightarrow> length dst = n \<longrightarrow>
        probe_read env (p + of_nat off) n dst = seg_at off n bs)"

text \<open>\<open>read_keeps env p n\<close>: a read at \<open>p\<close> fails and leaves its destination alone.\<close>

definition read_keeps :: "kernel_env \<Rightarrow> u64 \<Rightarrow> nat \<Rightarrow> bool" where
  "read_keeps env p n \<longleftrightarrow> (\<forall>dst. length dst = n \<longrightarrow> probe_read env p n dst = dst)"

text \<open>\<open>read_zeroes env p n\<close>: a read at \<open>p\<close> fails and clears its destination.\<close>

definition read_zeroes :: "kernel_env \<Rightarrow> u64 \<Rightarrow> nat \<Rightarrow> bool" where
  "read_zeroes env p n \<longleftrightarrow> (\<forall>dst. length dst = n \<longrightarrow> probe_read env p n dst = replicate n 0)"

text \<open>An environment with one readable region, for concrete inputs.\<close>

definition region_read :: "u64 \<Rightarrow> u8 list \<Rightarrow> u64 \<Rightarrow> nat \<Rightarrow> u8 list \<Rightarrow> u8 list" where
  "region_read base mem a n dst =
     (if unat (a - base) + n \<le> length mem then seg_at (unat (a - base)) n mem else dst)"

lemma length_store_word [simp]: "length (store_word ord (w :: 'a::len word)) = LENGTH('a) div 8"
  by (simp add: store_word_def)

lemma load_word_zeroes [simp]: "load_word ord (replicate n 0) = 0"
  by (cases ord) (simp_all add: load_word_def)

lemma load_store_word:
  assumes "8 * (LENGTH('a) div 8) = LENGTH('a)"
  shows "load_word ord (store_word ord (w :: 'a::len word)) = w"
proof -
  have "(256 :: nat) ^ (LENGTH('a) div 8) = 2 ^ (8 * (LENGTH('a) div 8))"
    by (simp add: power_mult)
  then have "unat w < 256 ^ (LENGTH('a) div 8)"
    using unsigned_less [of w] assms by simp
  then show ?thesis by (simp add: load_word_def store_word_def native_nat_native_bytes)
qed

lemma env_reads_word:
  assumes "env_reads env p bs" "offsetof t path = Some off" "off + LENGTH('a) div 8 \<le> length bs"
  shows "probe_read_word env (dst :: 'a::len word) (field_addr p t path)
    = load_word (target_order env) (seg_at off (LENGTH('a) div 8) bs)"
  using assms by (simp add: probe_read_word_def field_addr_def env_reads_def)

lemma env_reads_word_at:
  assumes "env_reads env p bs" "length bs = LENGTH('a) div 8"
  shows "probe_read_word env (dst :: 'a::len word) p = load_word (target_order env) bs"
  using assms(1) [unfolded env_reads_def, rule_format, of 0 "length bs"] assms(2)
  by (simp add: probe_read_word_def)

lemma read_keeps_word:
  assumes "read_keeps env p (LENGTH('a) div 8)" "8 * (LENGTH('a) div 8) = LENGTH('a)"
  shows "probe_read_word env (dst :: 'a::len word) p = dst"
  using assms by (simp add: probe_read_word_def read_keeps_def load_store_word)

lemma read_zeroes_word:
  assumes "read_zeroes env p (LENGTH('a) div 8)"
  shows "probe_read_word env (dst :: 'a::len word) p = 0"
  using assms by (simp add: probe_read_word_def read_zeroes_def)

lemma length_concat_store_words [simp]:
  "length (concat (map (store_word ord) (ws :: u32 list))) = 4 * length ws"
  by (induction ws) auto

lemma env_reads_words:
  assumes "env_reads env p bs" "offsetof t path = Some off" "off + 4 * length dst \<le> length bs"
  shows "probe_read_words env dst (field_addr p t path) =
    map (\<lambda>i. load_word (target_order env) (seg_at (4 * i) 4 (seg_at off (4 * length dst) bs)))
      [0..<length dst]"
  using assms by (simp add: probe_read_words_def field_addr_def env_reads_def)

lemma env_reads_append_left: "env_reads env p (xs @ ys) \<Longrightarrow> env_reads env p xs"
  by (auto simp: env_reads_def)

lemma env_reads_append_right:
  assumes "env_reads env p (xs @ ys)"
  shows "env_reads env (p + of_nat (length xs)) ys"
  unfolding env_reads_def
proof (intro allI impI)
  fix off n and dst :: "u8 list"
  assume "off + n \<le> length ys" "length dst = n"
  with assms [unfolded env_reads_def, rule_format, of "length xs + off" n dst]
  show "probe_read env (p + of_nat (length xs) + of_nat off) n dst = seg_at off n ys"
    by (simp add: add.assoc)
qed

definition region_env :: "byte_order \<Rightarrow> u64 \<Rightarrow> u8 list \<Rightarrow> kernel_env" where
  "region_env ord base mem =
     \<lparr>target_order = ord, current_cgroup_id = 7, current_pid_tgid = 0, current_comm = replicate 16 0,
      ktime_ns = 0, ringbuf_room = True, probe_read = region_read base mem\<rparr>"

lemma region_env_simps [simp]:
  "target_order (region_env ord base mem) = ord"
  "current_cgroup_id (region_env ord base mem) = 7"
  "ktime_ns (region_env ord base mem) = 0"
  "ringbuf_room (region_env ord base mem)"
  by (simp_all add: region_env_def)

lemma env_reads_region_env: "length mem < 2 ^ 64 \<Longrightarrow> env_reads (region_env ord base mem) base mem"
  by (auto simp: region_env_def env_reads_def region_read_def unat_of_nat_small)

end
