(* ===== verification/Egress_Classify.thy ===== *)
theory Egress_Classify
  imports Bpf_Runtime
begin

unbundle bit_operations_syntax

text \<open>
  The destination classes of an outbound connect, after \<open>classify_v4\<close> and \<open>classify_dest\<close>
  of \<^verbatim>\<open>src/collector/provenance.bpf.c\<close>. The specification is a pair of prefix tables, one over
  32-bit and one over 128-bit addresses; the octet tests of the code are shown to
  decide exactly these prefixes.
\<close>

section \<open>Constants\<close>

definition AF_INET :: u16 where "AF_INET = 2"
definition AF_INET6 :: u16 where "AF_INET6 = 10"

definition DST_LOOPBACK :: u32 where "DST_LOOPBACK = push_bit 0 1"
definition DST_LINKLOCAL :: u32 where "DST_LINKLOCAL = push_bit 1 1"
definition DST_PRIVATE :: u32 where "DST_PRIVATE = push_bit 2 1"
definition DST_PUBLIC :: u32 where "DST_PUBLIC = push_bit 3 1"
definition DST_OTHER :: u32 where "DST_OTHER = push_bit 4 1"

lemmas DST_defs = DST_LOOPBACK_def DST_LINKLOCAL_def DST_PRIVATE_def DST_PUBLIC_def DST_OTHER_def

section \<open>The classifiers\<close>

definition classify_v4 :: "u32 \<Rightarrow> u32" where
  "classify_v4 a =
     (let o1 = (ucast (drop_bit 24 a) :: u8);
          o2 = (ucast (drop_bit 16 a AND 0xff) :: u8)
      in if a = 0 then DST_LOOPBACK
         else if o1 = 127 then DST_LOOPBACK
         else if o1 = 169 \<and> o2 = 254 then DST_LINKLOCAL
         else if o1 = 10 then DST_PRIVATE
         else if o1 = 172 \<and> o2 AND 0xf0 = 16 then DST_PRIVATE
         else if o1 = 192 \<and> o2 = 168 then DST_PRIVATE
         else if o1 = 100 \<and> o2 AND 0xc0 = 64 then DST_PRIVATE
         else DST_PUBLIC)"

definition classify_dest :: "kernel_env \<Rightarrow> u64 \<Rightarrow> c_int \<Rightarrow> u32" where
  "classify_dest env address addrlen =
     (let ntohl = bpf_ntohl (target_order env) False;
          htonl_const = bpf_htonl (target_order env) True
      in if address = 0 \<or> sint addrlen < int (sizeof t_u16) then DST_OTHER
         else
           let fam = probe_read_word env (0 :: u16) (field_addr address struct_sockaddr [''sa_family''])
           in if fam = AF_INET then
                if sint addrlen < int (sizeof struct_sockaddr_in) then DST_OTHER
                else
                  let raw = probe_read_word env (0 :: u32)
                              (field_addr address struct_sockaddr_in [''sin_addr'', ''s_addr''])
                  in classify_v4 (ntohl raw)
              else if fam = AF_INET6 then
                if sint addrlen < 24 then DST_OTHER
                else
                  let w = probe_read_words env [0, 0, 0, 0]
                            (field_addr address struct_sockaddr_in6 [''sin6_addr'', ''in6_u'', ''u6_addr32''])
                  in if w ! 0 = 0 \<and> w ! 1 = 0 \<and> w ! 2 = 0 \<and> w ! 3 = 0 then DST_LOOPBACK
                     else if w ! 0 = 0 \<and> w ! 1 = 0 \<and> w ! 2 = 0 \<and> w ! 3 = htonl_const 1
                     then DST_LOOPBACK
                     else if w ! 0 = 0 \<and> w ! 1 = 0 \<and> w ! 2 = htonl_const 0x0000ffff
                     then classify_v4 (ntohl (w ! 3))
                     else
                       let b0 = (ucast (drop_bit 24 (ntohl (w ! 0))) :: u8);
                           b1 = (ucast (drop_bit 16 (ntohl (w ! 0)) AND 0xff) :: u8)
                       in if b0 = 0xfe \<and> b1 AND 0xc0 = 0x80 then DST_LINKLOCAL
                          else if b0 AND 0xfe = 0xfc then DST_PRIVATE
                          else DST_PUBLIC
              else DST_OTHER)"

section \<open>Specification by address prefixes\<close>

definition in_prefix :: "'a::len word \<times> nat \<Rightarrow> 'a word \<Rightarrow> bool" where
  "in_prefix p a \<longleftrightarrow>
     drop_bit (LENGTH('a) - snd p) a = drop_bit (LENGTH('a) - snd p) (fst p)"

fun first_match :: "(('a::len word \<times> nat) \<times> 'c) list \<Rightarrow> 'c \<Rightarrow> 'a word \<Rightarrow> 'c" where
  "first_match [] d a = d"
| "first_match ((p, c) # ps) d a = (if in_prefix p a then c else first_match ps d a)"

text \<open>0.0.0.0/32, 127/8, 169.254/16, 10/8, 172.16/12, 192.168/16 and 100.64/10.\<close>

definition v4_table :: "((u32 \<times> nat) \<times> u32) list" where
  "v4_table =
     [((0x00000000, 32), DST_LOOPBACK),
      ((0x7f000000, 8), DST_LOOPBACK),
      ((0xa9fe0000, 16), DST_LINKLOCAL),
      ((0x0a000000, 8), DST_PRIVATE),
      ((0xac100000, 12), DST_PRIVATE),
      ((0xc0a80000, 16), DST_PRIVATE),
      ((0x64400000, 10), DST_PRIVATE)]"

definition v4_class :: "u32 \<Rightarrow> u32" where
  "v4_class = first_match v4_table DST_PUBLIC"

text \<open>\<open>::ffff:0:0/96\<close> carries an IPv4 address; otherwise \<open>::\<close>, \<open>::1\<close>, \<open>fe80::/10\<close> and \<open>fc00::/7\<close>.\<close>

definition v4_mapped :: "128 word \<times> nat" where
  "v4_mapped = (0x0000ffff00000000, 96)"

definition v6_table :: "((128 word \<times> nat) \<times> u32) list" where
  "v6_table =
     [((0, 128), DST_LOOPBACK),
      ((1, 128), DST_LOOPBACK),
      ((0xfe800000000000000000000000000000, 10), DST_LINKLOCAL),
      ((0xfc000000000000000000000000000000, 7), DST_PRIVATE)]"

definition v6_class :: "128 word \<Rightarrow> u32" where
  "v6_class a = (if in_prefix v4_mapped a then v4_class (ucast a) else first_match v6_table DST_PUBLIC a)"

section \<open>The octet tests decide the prefixes\<close>

lemma in_prefix_nat:
  "in_prefix p (a :: 'a::len word) \<longleftrightarrow>
     unat a div 2 ^ (LENGTH('a) - snd p) = unat (fst p) div 2 ^ (LENGTH('a) - snd p)"
  by (simp only: in_prefix_def word_unat_eq_iff unat_drop_bit_div)

lemma unat_ucast_u8: "unat (ucast (w :: u32) :: u8) = unat w mod 256"
  by (simp add: unsigned_ucast_eq take_bit_eq_mod)

lemma unat_octet1: "unat (ucast (drop_bit 24 (a :: u32)) :: u8) = unat a div 2 ^ 24"
proof -
  have "unat a div 2 ^ 24 < 256" using unat_u32_less [of a] by (simp add: less_mult_imp_div_less)
  then show ?thesis by (simp only: unat_ucast_u8 unat_drop_bit_div mod_less)
qed

lemma unat_octet2:
  "unat (ucast (drop_bit 16 (a :: u32) AND 0xff) :: u8) = unat a div 2 ^ 16 mod 256"
proof -
  have "unat (drop_bit 16 a AND 0xff) = unat (drop_bit 16 a) mod 256"
    using take_bit_eq_mask [of 8 "unat (drop_bit 16 a)"]
    by (simp only: unsigned_and_eq) (simp add: take_bit_eq_mod mask_eq_exp_minus_1)
  then show ?thesis by (simp only: unat_ucast_u8 unat_drop_bit_div mod_mod_trivial)
qed

lemma and_push_mask: "(n :: nat) AND push_bit k (mask l) = push_bit k (take_bit l (drop_bit k n))"
  by (rule bit_eqI) (auto simp: bit_simps)

lemma unat_and_high:
  assumes "k \<le> 8" "unat m = push_bit k (mask (8 - k))"
  shows "unat ((b :: u8) AND m) = 2 ^ k * (unat b div 2 ^ k)"
proof -
  have "(2 :: nat) ^ 8 = 2 ^ k * 2 ^ (8 - k)"
    using assms(1) by (simp only: power_add [symmetric]) simp
  then have "unat b div 2 ^ k < 2 ^ (8 - k)"
    using unat_u8_less [of b] by (simp add: less_mult_imp_div_less mult.commute)
  then have "take_bit (8 - k) (drop_bit k (unat b)) = unat b div 2 ^ k"
    by (simp add: drop_bit_eq_div take_bit_nat_eq_self)
  then show ?thesis
    by (simp only: unsigned_and_eq assms(2) and_push_mask) (simp add: push_bit_eq_mult)
qed

lemma unat_and_f0: "unat ((b :: u8) AND 0xf0) = 16 * (unat b div 16)"
  using unat_and_high [of 4 "0xf0" b] by (simp add: mask_eq_exp_minus_1 push_bit_eq_mult)

lemma unat_and_c0: "unat ((b :: u8) AND 0xc0) = 64 * (unat b div 64)"
  using unat_and_high [of 6 "0xc0" b] by (simp add: mask_eq_exp_minus_1 push_bit_eq_mult)

lemma unat_and_fe: "unat ((b :: u8) AND 0xfe) = 2 * (unat b div 2)"
  using unat_and_high [of 1 "0xfe" b] by (simp add: mask_eq_exp_minus_1 push_bit_eq_mult)

lemma v4_div_split: "(n :: nat) div 16777216 = n div 65536 div 256"
  "n div 1048576 = n div 65536 div 16" "n div 4194304 = n div 65536 div 64"
  by (simp_all add: div_mult2_eq [symmetric])

lemma v4_tests:
  "(q :: nat) div 256 = 169 \<and> q mod 256 = 254 \<longleftrightarrow> q = 43518"
  "q div 256 = 192 \<and> q mod 256 = 168 \<longleftrightarrow> q = 49320"
  "q div 256 = 172 \<and> 16 * (q mod 256 div 16) = 16 \<longleftrightarrow> q div 16 = 2753"
  "q div 256 = 100 \<and> 64 * (q mod 256 div 64) = 64 \<longleftrightarrow> q div 64 = 401"
  using div_mod_pair [of 254 256 q 169] div_mod_pair [of 168 256 q 192]
    div_mod_scaled [of 1 16 16 q 172] div_mod_scaled [of 1 4 64 q 100]
  by simp_all

lemma classify_v4_prefixes: "classify_v4 a = v4_class a"
proof -
  define q where "q = unat a div 65536"
  have octets: "unat (ucast (drop_bit 24 a) :: u8) = q div 256"
    "unat (ucast (drop_bit 16 a AND 0xff) :: u8) = q mod 256"
    unfolding unat_octet1 unat_octet2 q_def by (simp_all add: v4_div_split)
  have code: "classify_v4 a =
    (if unat a = 0 then DST_LOOPBACK else if q div 256 = 127 then DST_LOOPBACK
     else if q = 43518 then DST_LINKLOCAL else if q div 256 = 10 then DST_PRIVATE
     else if q div 16 = 2753 then DST_PRIVATE else if q = 49320 then DST_PRIVATE
     else if q div 64 = 401 then DST_PRIVATE else DST_PUBLIC)"
    unfolding classify_v4_def Let_def v4_tests [symmetric]
    by (simp only: word_unat_eq_iff unat_and_f0 unat_and_c0 octets) simp
  show ?thesis
    unfolding code v4_class_def v4_table_def
    by (simp add: in_prefix_nat v4_div_split q_def)
qed

text \<open>
  An IPv6 address as its four 32-bit words in host order, and the tests of the code
  over them.
\<close>

definition v6_words :: "u32 \<Rightarrow> u32 \<Rightarrow> u32 \<Rightarrow> u32 \<Rightarrow> 128 word" where
  "v6_words h0 h1 h2 h3 =
     of_nat (((unat h0 * 2 ^ 32 + unat h1) * 2 ^ 32 + unat h2) * 2 ^ 32 + unat h3)"

lemma word_pair_div:
  assumes "(y :: nat) < 2 ^ 32"
  shows "(x * 2 ^ 32 + y) div 2 ^ 32 = x" "(x * 2 ^ 32 + y) mod 2 ^ 32 = y"
  using assms by simp_all

lemma unat_u32_less_exp: "unat (w :: u32) < 2 ^ 32"
  using unsigned_less [of w] by simp

lemma four_words_bound:
  assumes "(a :: nat) < 2 ^ 32" "b < 2 ^ 32" "c < 2 ^ 32" "d < 2 ^ 32"
  shows "((a * 2 ^ 32 + b) * 2 ^ 32 + c) * 2 ^ 32 + d < 2 ^ 128"
  using assms by simp

lemma three_words_eq:
  assumes "(b :: nat) < 2 ^ 32" "c < 2 ^ 32" "k < 2 ^ 32"
  shows "(a * 2 ^ 32 + b) * 2 ^ 32 + c = k \<longleftrightarrow> a = 0 \<and> b = 0 \<and> c = k"
  using assms by auto

lemma four_words_eq:
  assumes "(b :: nat) < 2 ^ 32" "c < 2 ^ 32" "d < 2 ^ 32" "k < 2 ^ 32"
  shows "((a * 2 ^ 32 + b) * 2 ^ 32 + c) * 2 ^ 32 + d = k \<longleftrightarrow> a = 0 \<and> b = 0 \<and> c = 0 \<and> d = k"
  using assms by auto

lemma len_num: "LENGTH(128) = 128"
  by simp

lemma unat_v6_words:
  "unat (v6_words h0 h1 h2 h3) =
     ((unat h0 * 2 ^ 32 + unat h1) * 2 ^ 32 + unat h2) * 2 ^ 32 + unat h3"
  using four_words_bound [OF unat_u32_less_exp [of h0] unat_u32_less_exp [of h1]
      unat_u32_less_exp [of h2] unat_u32_less_exp [of h3]]
  unfolding v6_words_def by (intro unat_of_nat_small) (simp only: len_num)

lemma v6_words_div32:
  "unat (v6_words h0 h1 h2 h3) div 2 ^ 32 = (unat h0 * 2 ^ 32 + unat h1) * 2 ^ 32 + unat h2"
  unfolding unat_v6_words by (intro word_pair_div unat_u32_less_exp)

lemma v6_words_div96: "unat (v6_words h0 h1 h2 h3) div 2 ^ 96 = unat h0"
proof -
  have "unat (v6_words h0 h1 h2 h3) div 2 ^ 96
      = unat (v6_words h0 h1 h2 h3) div 2 ^ 32 div 2 ^ 32 div 2 ^ 32"
    by (simp add: div_mult2_eq [symmetric])
  then show ?thesis
    by (simp only: v6_words_div32 word_pair_div unat_u32_less_exp)
qed

lemma v6_words_tests:
  "in_prefix (0, 128) (v6_words h0 h1 h2 h3) \<longleftrightarrow> h0 = 0 \<and> h1 = 0 \<and> h2 = 0 \<and> h3 = 0"
  "in_prefix (1, 128) (v6_words h0 h1 h2 h3) \<longleftrightarrow> h0 = 0 \<and> h1 = 0 \<and> h2 = 0 \<and> h3 = 1"
  "in_prefix v4_mapped (v6_words h0 h1 h2 h3) \<longleftrightarrow> h0 = 0 \<and> h1 = 0 \<and> h2 = 0xffff"
proof -
  note less = unat_u32_less_exp
  show "in_prefix (0, 128) (v6_words h0 h1 h2 h3) \<longleftrightarrow> h0 = 0 \<and> h1 = 0 \<and> h2 = 0 \<and> h3 = 0"
    using four_words_eq [OF less less less, of 0 "unat h0" h1 h2 h3] unat_v6_words [of h0 h1 h2 h3]
    by (simp add: in_prefix_def word_unat_eq_iff)
  show "in_prefix (1, 128) (v6_words h0 h1 h2 h3) \<longleftrightarrow> h0 = 0 \<and> h1 = 0 \<and> h2 = 0 \<and> h3 = 1"
    using four_words_eq [OF less less less, of 1 "unat h0" h1 h2 h3] unat_v6_words [of h0 h1 h2 h3]
    by (simp add: in_prefix_def word_unat_eq_iff)
  show "in_prefix v4_mapped (v6_words h0 h1 h2 h3) \<longleftrightarrow> h0 = 0 \<and> h1 = 0 \<and> h2 = 0xffff"
    using three_words_eq [OF less less, of 65535 "unat h0" h1 h2] v6_words_div32 [of h0 h1 h2 h3]
    by (simp add: in_prefix_nat v4_mapped_def word_unat_eq_iff)
qed

lemma v6_words_div_high:
  "unat (v6_words h0 h1 h2 h3) div 2 ^ (96 + k) = unat h0 div 2 ^ k"
  by (simp only: power_add div_mult2_eq v6_words_div96)

lemma v6_words_high_tests:
  "in_prefix (0xfe800000000000000000000000000000, 10) (v6_words h0 h1 h2 h3) \<longleftrightarrow>
     unat h0 div 2 ^ 22 = 0x3fa"
  "in_prefix (0xfc000000000000000000000000000000, 7) (v6_words h0 h1 h2 h3) \<longleftrightarrow>
     unat h0 div 2 ^ 25 = 0x7e"
  using v6_words_div_high [of h0 h1 h2 h3 22] v6_words_div_high [of h0 h1 h2 h3 25]
  by (simp_all add: in_prefix_nat)

lemma ucast_v6_words: "(ucast (v6_words h0 h1 h2 h3) :: u32) = h3"
proof -
  have "unat (v6_words h0 h1 h2 h3) mod 2 ^ 32 = unat h3"
    unfolding unat_v6_words by (intro word_pair_div unat_u32_less_exp)
  then show ?thesis
    by (simp add: word_unat_eq_iff unsigned_ucast_eq take_bit_eq_mod)
qed

lemma v6_octet_tests:
  "(ucast (drop_bit 24 h) :: u8) = 0xfe \<and> (ucast (drop_bit 16 h AND 0xff) :: u8) AND 0xc0 = 0x80
     \<longleftrightarrow> unat (h :: u32) div 2 ^ 22 = 0x3fa"
  "(ucast (drop_bit 24 h) :: u8) AND 0xfe = 0xfc \<longleftrightarrow> unat h div 2 ^ 25 = 0x7e"
proof -
  define q where "q = unat h div 65536"
  have octets: "unat (ucast (drop_bit 24 h) :: u8) = q div 256"
    "unat (ucast (drop_bit 16 h AND 0xff) :: u8) = q mod 256"
    unfolding unat_octet1 unat_octet2 q_def by (simp_all add: v4_div_split)
  have split: "unat h div 2 ^ 22 = q div 64" "unat h div 2 ^ 25 = q div 256 div 2"
    by (simp_all add: q_def div_mult2_eq [symmetric])
  have "q div 256 = 254 \<and> 64 * (q mod 256 div 64) = 128 \<longleftrightarrow> q div 64 = 1018"
    using div_mod_scaled [of 2 4 64 q 254] by simp
  then show "(ucast (drop_bit 24 h) :: u8) = 0xfe \<and> (ucast (drop_bit 16 h AND 0xff) :: u8) AND 0xc0 = 0x80
     \<longleftrightarrow> unat (h :: u32) div 2 ^ 22 = 0x3fa"
    unfolding split by (simp only: word_unat_eq_iff unat_and_c0 octets) simp
  have "2 * (q div 256 div 2) = 252 \<longleftrightarrow> q div 256 div 2 = 126" by simp
  then show "(ucast (drop_bit 24 h) :: u8) AND 0xfe = 0xfc \<longleftrightarrow> unat h div 2 ^ 25 = 0x7e"
    unfolding split by (simp only: word_unat_eq_iff unat_and_fe octets) simp
qed

lemma v6_ladder:
  "(if h0 = 0 \<and> h1 = 0 \<and> h2 = 0 \<and> h3 = 0 then DST_LOOPBACK
    else if h0 = 0 \<and> h1 = 0 \<and> h2 = 0 \<and> h3 = 1 then DST_LOOPBACK
    else if h0 = 0 \<and> h1 = 0 \<and> h2 = 0x0000ffff then classify_v4 h3
    else if (ucast (drop_bit 24 h0) :: u8) = 0xfe \<and> (ucast (drop_bit 16 h0 AND 0xff) :: u8) AND 0xc0 = 0x80
    then DST_LINKLOCAL
    else if (ucast (drop_bit 24 h0) :: u8) AND 0xfe = 0xfc then DST_PRIVATE
    else DST_PUBLIC) = v6_class (v6_words h0 h1 h2 h3)"
  unfolding v6_octet_tests v6_class_def v6_table_def first_match.simps v6_words_tests
    v6_words_high_tests ucast_v6_words classify_v4_prefixes
  by auto

section \<open>The class of a socket address\<close>

text \<open>
  \<open>dest_class\<close> is the class as a function of the bytes of the address alone: too short for
  its family means \<open>DST_OTHER\<close>, the IPv4 address is bytes 4 to 7, the IPv6 address bytes 8
  to 23.
\<close>

definition dest_class :: "byte_order \<Rightarrow> u8 list \<Rightarrow> u32" where
  "dest_class ord bs =
     (if length bs < 2 then DST_OTHER
      else let fam = (load_word ord (take 2 bs) :: u16)
           in if fam = AF_INET then
                if length bs < 16 then DST_OTHER
                else v4_class (of_nat (be_nat (seg_at 4 4 bs)))
              else if fam = AF_INET6 then
                if length bs < 24 then DST_OTHER
                else v6_class (of_nat (be_nat (seg_at 8 16 bs)))
              else DST_OTHER)"

lemma htonl_load:
  "length bs = 4 \<Longrightarrow> (load_word ord bs :: u32) = bpf_htonl ord c (of_nat (be_nat bs))"
  using bpf_htonl_ntohl [of ord c False "load_word ord bs"] bpf_ntohl_load [of bs ord False]
  by (simp add: load_word_def)

lemma bpf_htonl_inject: "bpf_htonl ord c x = bpf_htonl ord d y \<longleftrightarrow> x = y"
proof
  assume "bpf_htonl ord c x = bpf_htonl ord d y"
  then have "bpf_ntohl ord False (bpf_htonl ord c x) = bpf_ntohl ord False (bpf_htonl ord d y)" by simp
  then show "x = y" by (simp add: bpf_ntohl_htonl)
qed (simp add: bpf_htonl_const)

lemma bpf_htonl_0: "bpf_htonl ord c 0 = 0"
  using htonl_load [of "replicate 4 0" ord c] by simp

lemma htonl_eq_0: "bpf_htonl ord c x = 0 \<longleftrightarrow> x = 0"
  using bpf_htonl_inject [of ord c x c 0] by (simp add: bpf_htonl_0)

lemma be_nat_four_words:
  assumes "length bs = 16"
  shows "of_nat (be_nat bs) = v6_words (of_nat (be_nat (seg_at 0 4 bs))) (of_nat (be_nat (seg_at 4 4 bs)))
    (of_nat (be_nat (seg_at 8 4 bs))) (of_nat (be_nat (seg_at 12 4 bs)))"
proof -
  let ?w = "\<lambda>i. seg_at i 4 bs"
  have "((?w 0 @ ?w 4) @ ?w 8) @ ?w 12 = take 16 bs"
    by (simp add: seg_at_def take_add [of 4 12, simplified] take_add [of 4 8, simplified]
        take_add [of 4 4, simplified])
  then have bs: "bs = ((?w 0 @ ?w 4) @ ?w 8) @ ?w 12"
    using assms by simp
  have unat_w: "unat (of_nat (be_nat (?w i)) :: u32) = be_nat (?w i)" if "i + 4 \<le> 16" for i
    using be_nat_less [of "?w i"] assms that by (intro unat_of_nat_small) simp
  have "be_nat bs =
    ((be_nat (?w 0) * 2 ^ 32 + be_nat (?w 4)) * 2 ^ 32 + be_nat (?w 8)) * 2 ^ 32 + be_nat (?w 12)"
    using assms by (subst bs) (simp add: be_nat_append)
  then show ?thesis unfolding v6_words_def by (simp add: unat_w)
qed

lemma v6_branch:
  fixes h0 h1 h2 h3 :: u32
  assumes w_def: "w = map (bpf_htonl ord True) [h0, h1, h2, h3]"
  shows "(if w ! 0 = 0 \<and> w ! 1 = 0 \<and> w ! 2 = 0 \<and> w ! 3 = 0 then DST_LOOPBACK
     else if w ! 0 = 0 \<and> w ! 1 = 0 \<and> w ! 2 = 0 \<and> w ! 3 = bpf_htonl ord True 1 then DST_LOOPBACK
     else if w ! 0 = 0 \<and> w ! 1 = 0 \<and> w ! 2 = bpf_htonl ord True 0x0000ffff
     then classify_v4 (bpf_ntohl ord False (w ! 3))
     else let b0 = (ucast (drop_bit 24 (bpf_ntohl ord False (w ! 0))) :: u8);
              b1 = (ucast (drop_bit 16 (bpf_ntohl ord False (w ! 0)) AND 0xff) :: u8)
          in if b0 = 0xfe \<and> b1 AND 0xc0 = 0x80 then DST_LINKLOCAL
             else if b0 AND 0xfe = 0xfc then DST_PRIVATE
             else DST_PUBLIC) = v6_class (v6_words h0 h1 h2 h3)"
proof -
  have w: "w ! 0 = bpf_htonl ord True h0" "w ! 1 = bpf_htonl ord True h1"
    "w ! 2 = bpf_htonl ord True h2" "w ! 3 = bpf_htonl ord True h3"
    by (simp_all add: w_def)
  show ?thesis
    unfolding w Let_def htonl_eq_0 bpf_htonl_inject bpf_ntohl_htonl by (rule v6_ladder)
qed

lemma classify_dest_bytes:
  assumes p: "p \<noteq> 0" and mem: "env_reads env p bs" and len: "sint addrlen = int (length bs)"
  shows "classify_dest env p addrlen = dest_class (target_order env) bs"
proof -
  let ?ord = "target_order env"
  let ?fam = "load_word ?ord (take 2 bs) :: u16"
  have sizes: "sizeof t_u16 = 2" "sizeof struct_sockaddr_in = 16"
    by (simp_all add: layout_simps)
  have fam: "probe_read_word env (0 :: u16) (field_addr p struct_sockaddr [''sa_family'']) = ?fam"
    if "2 \<le> length bs"
    using env_reads_word [OF mem sockaddr_offsets(1), of "0 :: u16"] that by (simp add: seg_at_def)
  consider (short) "length bs < 2" | (v4) "2 \<le> length bs" "?fam = AF_INET"
    | (v6) "2 \<le> length bs" "?fam = AF_INET6" | (other) "2 \<le> length bs" "?fam \<noteq> AF_INET" "?fam \<noteq> AF_INET6"
    by fastforce
  then show ?thesis
  proof cases
    case v4
    have "bpf_ntohl ?ord False
        (probe_read_word env 0 (field_addr p struct_sockaddr_in [''sin_addr'', ''s_addr'']))
        = of_nat (be_nat (seg_at 4 4 bs))" if "16 \<le> length bs"
      using env_reads_word [OF mem sockaddr_offsets(2), of "0 :: u32"] that
      by (simp add: bpf_ntohl_load load_word_def)
    with v4 p show ?thesis
      by (simp add: classify_dest_def dest_class_def sizes len fam classify_v4_prefixes not_less)
  next
    case v6
    let ?h = "\<lambda>i. of_nat (be_nat (seg_at i 4 (seg_at 8 16 bs))) :: u32"
    have words: "probe_read_words env [0, 0, 0, 0]
        (field_addr p struct_sockaddr_in6 [''sin6_addr'', ''in6_u'', ''u6_addr32''])
        = map (bpf_htonl ?ord True) [?h 0, ?h 4, ?h 8, ?h 12]" if "24 \<le> length bs"
      using env_reads_words [OF mem sockaddr_offsets(3), of "[0, 0, 0, 0]"] that
      by (simp add: htonl_load [where c = True] upt_conv_Cons)
    have "AF_INET6 \<noteq> AF_INET" by (simp add: AF_INET_def AF_INET6_def)
    note v6_fam = v6(2) this
    show ?thesis
    proof (cases "length bs < 24")
      case True
      with v6 v6_fam p show ?thesis by (simp add: classify_dest_def dest_class_def sizes len fam)
    next
      case False
      then have conds: "(p = 0 \<or> int (length bs) < int 2) = False" "(int (length bs) < 24) = False"
        using p by auto
      have "classify_dest env p addrlen = v6_class (v6_words (?h 0) (?h 4) (?h 8) (?h 12))"
        using v6_branch [OF words] False
        by (simp only: classify_dest_def Let_def sizes len fam [OF v6(1)] v6_fam conds if_True if_False
            not_less simp_thms)
      also have "\<dots> = v6_class (of_nat (be_nat (seg_at 8 16 bs)))"
        using be_nat_four_words [of "seg_at 8 16 bs"] False by simp
      finally show ?thesis using v6 v6_fam False by (simp add: dest_class_def)
    qed
  qed (use p in \<open>simp_all add: classify_dest_def dest_class_def sizes len fam\<close>)
qed

lemma first_match_in: "first_match ps d a \<in> insert d (snd ` set ps)"
  by (induction ps d a rule: first_match.induct) auto

lemma v4_class_cases: "v4_class a \<in> {DST_LOOPBACK, DST_LINKLOCAL, DST_PRIVATE, DST_PUBLIC}"
  using first_match_in [of v4_table DST_PUBLIC a] by (auto simp: v4_class_def v4_table_def)

lemma classify_v4_cases: "classify_v4 a \<in> {DST_LOOPBACK, DST_LINKLOCAL, DST_PRIVATE, DST_PUBLIC}"
  using v4_class_cases by (simp add: classify_v4_prefixes)

text \<open>Every destination gets exactly one of the five class bits.\<close>

lemma classify_dest_cases:
  "classify_dest env p n \<in> {DST_LOOPBACK, DST_LINKLOCAL, DST_PRIVATE, DST_PUBLIC, DST_OTHER}"
  using classify_v4_cases unfolding classify_dest_def Let_def by (simp split: if_split) blast

section \<open>Properties\<close>

text \<open>
  C6: for a readable socket address of \<open>addrlen\<close> bytes \<open>classify_dest\<close> returns the class
  that the address prefixes give: an address too short for its family is
  \<open>DST_OTHER\<close>, an IPv4 address and an IPv4-mapped IPv6 address go through the table of
  IPv4 prefixes, any other IPv6 address through the table of IPv6 prefixes, and every
  other family is \<open>DST_OTHER\<close>. Nothing beyond the \<open>addrlen\<close> bytes matters, in either
  byte order.
\<close>

theorem classify_dest_correct:
  assumes "p \<noteq> 0" "env_reads env p bs" "sint addrlen = int (length bs)"
  shows "classify_dest env p addrlen = dest_class (target_order env) bs"
  using assms by (rule classify_dest_bytes)

text \<open>The metadata endpoint 169.254.169.254 as an IPv4 and as a mapped IPv6 destination.\<close>

definition metadata_v4 :: "u8 list" where
  "metadata_v4 = [2, 0, 0, 80, 169, 254, 169, 254, 0, 0, 0, 0, 0, 0, 0, 0]"

definition metadata_v6 :: "u8 list" where
  "metadata_v6 =
     [10, 0, 0, 80, 0, 0, 0, 0, 0, 0, 0, 0, 0, 0, 0, 0, 0, 0, 255, 255, 169, 254, 169, 254, 0, 0, 0, 0]"

lemma dest_class_metadata:
  "dest_class Little metadata_v4 = DST_LINKLOCAL" "dest_class Little metadata_v6 = DST_LINKLOCAL"
  by (simp_all add: dest_class_def metadata_v4_def metadata_v6_def load_word_def seg_at_def be_nat_def
      v6_class_def v4_class_def v4_table_def v4_mapped_def in_prefix_nat AF_INET_def AF_INET6_def)

theorem classify_dest_correct_witness:
  "classify_dest (region_env Little 4096 metadata_v6) 4096 28 = DST_LINKLOCAL"
proof -
  have len: "length metadata_v6 = 28" by (simp add: metadata_v6_def)
  have "classify_dest (region_env Little 4096 metadata_v6) 4096 28 =
      dest_class (target_order (region_env Little 4096 metadata_v6)) metadata_v6"
    by (rule classify_dest_correct) (simp_all add: env_reads_region_env len)
  then show ?thesis by (simp add: dest_class_metadata)
qed

text \<open>
  An IPv4-mapped IPv6 destination (\<open>::ffff:a.b.c.d\<close>) gets the class of the IPv4
  destination \<open>a.b.c.d\<close>, whatever the ports, flow label and scope are: mapping an address
  into IPv6 does not get it past the egress manifest.
\<close>

theorem v4_mapped_same_class:
  assumes "p \<noteq> 0" "q \<noteq> 0" "length a = 4" "length port = 2" "length flow = 4" "length scope = 4"
    "length port' = 2" "length pad = 8"
    and v6: "env_reads env p
      (store_word (target_order env) AF_INET6 @ port @ flow @ (replicate 10 0 @ [0xff, 0xff] @ a) @ scope)"
    and v4: "env_reads env q (store_word (target_order env) AF_INET @ port' @ a @ pad)"
  shows "classify_dest env p 28 = classify_dest env q 16"
proof -
  have fam: "load_word ord (store_word ord (x :: u16)) = x" for ord x
    by (rule load_store_word) simp
  have lens: "length (store_word ord (x :: u16)) = 2" for ord x by simp
  have mapped: "v6_class (of_nat (be_nat (replicate 10 0 @ [0xff, 0xff] @ a))) = v4_class (of_nat (be_nat a))"
  proof -
    have n: "be_nat (replicate 10 0 @ [0xff, 0xff] @ a) = 65535 * 2 ^ 32 + be_nat a"
      using assms(3) be_nat_append [of "[0xff, 0xff]" a] by (simp add: be_nat_append) (simp add: be_nat_def)
    have small: "be_nat a < 2 ^ 32" using be_nat_less [of a] assms(3) by simp
    have "(of_nat (be_nat (replicate 10 0 @ [0xff, 0xff] @ a)) :: 128 word)
        = v6_words 0 0 0xffff (of_nat (be_nat a))"
      using small by (simp only: v6_words_def n) (simp add: unat_of_nat_small)
    then show ?thesis
      by (simp add: v6_class_def v6_words_tests ucast_v6_words)
  qed
  have "classify_dest env p 28 = v4_class (of_nat (be_nat a))"
    using classify_dest_bytes [OF assms(1) v6, of 28] assms(3-6) mapped
      seg_at_all [of "replicate 10 0 @ 255 # 255 # a" 16]
      seg_at_append_left [of 0 16 "replicate 10 0 @ 255 # 255 # a" scope]
    by (simp add: dest_class_def fam AF_INET_def AF_INET6_def)
  moreover have "classify_dest env q 16 = v4_class (of_nat (be_nat a))"
    using classify_dest_bytes [OF assms(2) v4, of 16] assms(3,7,8)
    by (simp add: dest_class_def fam)
  ultimately show ?thesis by simp
qed

lemma le_bytes_2: "le_bytes 2 v = [of_nat v, of_nat (v div 256)]"
  unfolding numeral_2_eq_2 le_bytes.simps ..

lemma metadata_fields:
  "metadata_v6 = store_word Little AF_INET6 @ [0, 80] @ [0, 0, 0, 0]
     @ (replicate 10 0 @ [0xff, 0xff] @ [169, 254, 169, 254]) @ [0, 0, 0, 0]"
  "metadata_v4 = store_word Little AF_INET @ [0, 80] @ [169, 254, 169, 254] @ [0, 0, 0, 0, 0, 0, 0, 0]"
proof -
  have "replicate 10 (0 :: u8) = [0, 0, 0, 0, 0, 0, 0, 0, 0, 0]" by (simp add: numeral_eq_Suc)
  moreover have "store_word Little AF_INET6 = [10, 0]" "store_word Little AF_INET = [2, 0]"
    by (simp_all add: store_word_def AF_INET_def AF_INET6_def le_bytes_2)
  ultimately show
    "metadata_v6 = store_word Little AF_INET6 @ [0, 80] @ [0, 0, 0, 0]
       @ (replicate 10 0 @ [0xff, 0xff] @ [169, 254, 169, 254]) @ [0, 0, 0, 0]"
    "metadata_v4 = store_word Little AF_INET @ [0, 80] @ [169, 254, 169, 254] @ [0, 0, 0, 0, 0, 0, 0, 0]"
    by (simp_all add: metadata_v6_def metadata_v4_def)
qed

theorem v4_mapped_same_class_witness:
  "classify_dest (region_env Little 4096 (metadata_v6 @ metadata_v4)) 4096 28
     = classify_dest (region_env Little 4096 (metadata_v6 @ metadata_v4)) 4124 16"
proof -
  define env where "env = region_env Little 4096 (metadata_v6 @ metadata_v4)"
  have ord: "target_order env = Little" by (simp add: env_def)
  have reads: "env_reads env 4096 (metadata_v6 @ metadata_v4)"
    unfolding env_def by (rule env_reads_region_env) (simp add: metadata_v4_def metadata_v6_def)
  have r6: "env_reads env 4096 metadata_v6"
    using reads by (rule env_reads_append_left)
  have "env_reads env (4096 + of_nat (length metadata_v6)) metadata_v4"
    using reads by (rule env_reads_append_right)
  then have r4: "env_reads env 4124 metadata_v4" by (simp add: metadata_v6_def)
  have "classify_dest env 4096 28 = classify_dest env 4124 16"
    by (rule v4_mapped_same_class [where env = env, unfolded ord, OF _ _ _ _ _ _ _ _
          r6 [unfolded metadata_fields] r4 [unfolded metadata_fields]]) simp_all
  then show ?thesis by (simp add: env_def)
qed

end
