(* ===== verification/Bpf_Maps.thy ===== *)
theory Bpf_Maps
  imports Bulkhead_Prelude
begin

text \<open>
  The BPF maps the program and the collector share, as the helpers
  \<open>bpf_map_lookup_elem\<close>, \<open>bpf_map_update_elem\<close> and \<open>bpf_map_delete_elem\<close> of
  \<^verbatim>\<open>src/collector/headers/bpf_helper_defs.h\<close> present them: hash maps with a capacity, and
  array maps whose slots always exist. The locale \<open>bpf_map\<close> is the contract the clients
  use; both kinds of map are interpretations of it.
\<close>

section \<open>Errors and update flags\<close>

datatype errno = E2BIG | EEXIST | ENOENT | EINVAL

definition BPF_ANY :: u64 where "BPF_ANY = 0"
definition BPF_NOEXIST :: u64 where "BPF_NOEXIST = 1"
definition BPF_EXIST :: u64 where "BPF_EXIST = 2"

lemmas update_flag_defs = BPF_ANY_def BPF_NOEXIST_def BPF_EXIST_def

section \<open>Hash maps\<close>

text \<open>
  \<open>BPF_MAP_TYPE_HASH\<close>: at most \<open>hm_max\<close> entries with distinct keys. \<open>hash_poke\<close> is a store
  through the value pointer a lookup returned.
\<close>

record ('k, 'v) hash_map =
  hm_max :: nat
  hm_entries :: "('k \<times> 'v) list"

definition hash_empty :: "nat \<Rightarrow> ('k, 'v) hash_map" where
  "hash_empty n = \<lparr>hm_max = n, hm_entries = []\<rparr>"

definition hash_lookup :: "('k, 'v) hash_map \<Rightarrow> 'k \<Rightarrow> 'v option" where
  "hash_lookup m k = map_of (hm_entries m) k"

definition hash_update ::
  "('k, 'v) hash_map \<Rightarrow> 'k \<Rightarrow> 'v \<Rightarrow> u64 \<Rightarrow> errno + ('k, 'v) hash_map"
where
  "hash_update m k v flags =
     (if flags > BPF_EXIST then Inl EINVAL
      else if hash_lookup m k \<noteq> None \<and> flags = BPF_NOEXIST then Inl EEXIST
      else if hash_lookup m k = None \<and> flags = BPF_EXIST then Inl ENOENT
      else if hash_lookup m k = None \<and> length (hm_entries m) \<ge> hm_max m then Inl E2BIG
      else Inr (m\<lparr>hm_entries := AList.update k v (hm_entries m)\<rparr>))"

definition hash_delete :: "('k, 'v) hash_map \<Rightarrow> 'k \<Rightarrow> errno + ('k, 'v) hash_map" where
  "hash_delete m k =
     (if hash_lookup m k = None then Inl ENOENT
      else Inr (m\<lparr>hm_entries := AList.delete k (hm_entries m)\<rparr>))"

definition hash_poke :: "('k, 'v) hash_map \<Rightarrow> 'k \<Rightarrow> 'v \<Rightarrow> ('k, 'v) hash_map" where
  "hash_poke m k v =
     (if hash_lookup m k = None then m
      else m\<lparr>hm_entries := AList.update k v (hm_entries m)\<rparr>)"

definition hash_inv :: "('k, 'v) hash_map \<Rightarrow> bool" where
  "hash_inv m \<longleftrightarrow> distinct (map fst (hm_entries m)) \<and> length (hm_entries m) \<le> hm_max m"

section \<open>Array maps\<close>

text \<open>
  \<open>BPF_MAP_TYPE_ARRAY\<close>: the slots \<open>0 .. max_entries - 1\<close>, zeroed at creation; every slot
  exists, so nothing can be inserted with \<open>BPF_NOEXIST\<close> or deleted.
\<close>

type_synonym 'v array_map = "'v list"

definition array_lookup :: "'v array_map \<Rightarrow> u32 \<Rightarrow> 'v option" where
  "array_lookup m i = (if unat i < length m then Some (m ! unat i) else None)"

definition array_update :: "'v array_map \<Rightarrow> u32 \<Rightarrow> 'v \<Rightarrow> u64 \<Rightarrow> errno + 'v array_map" where
  "array_update m i v flags =
     (if flags > BPF_EXIST then Inl EINVAL
      else if unat i \<ge> length m then Inl E2BIG
      else if flags = BPF_NOEXIST then Inl EEXIST
      else Inr (m[unat i := v]))"

definition array_delete :: "'v array_map \<Rightarrow> u32 \<Rightarrow> errno + 'v array_map" where
  "array_delete m i = Inl EINVAL"

section \<open>The contract of a map\<close>

locale bpf_map =
  fixes inv :: "'m \<Rightarrow> bool"
    and lookup :: "'m \<Rightarrow> 'k \<Rightarrow> 'v option"
    and update :: "'m \<Rightarrow> 'k \<Rightarrow> 'v \<Rightarrow> u64 \<Rightarrow> errno + 'm"
    and delete :: "'m \<Rightarrow> 'k \<Rightarrow> errno + 'm"
  assumes update_inv: "inv m \<Longrightarrow> update m k v f = Inr m' \<Longrightarrow> inv m'"
    and lookup_update:
      "inv m \<Longrightarrow> update m k v f = Inr m' \<Longrightarrow> lookup m' k' = (if k' = k then Some v else lookup m k')"
    and delete_inv: "inv m \<Longrightarrow> delete m k = Inr m' \<Longrightarrow> inv m'"
    and lookup_delete:
      "inv m \<Longrightarrow> delete m k = Inr m' \<Longrightarrow> lookup m' k' = (if k' = k then None else lookup m k')"
    and update_present:
      "inv m \<Longrightarrow> lookup m k \<noteq> None \<Longrightarrow> \<exists>m'. update m k v BPF_ANY = Inr m'"
    and update_noexist: "inv m \<Longrightarrow> lookup m k \<noteq> None \<Longrightarrow> update m k v BPF_NOEXIST = Inl EEXIST"
    and update_exist: "inv m \<Longrightarrow> lookup m k = None \<Longrightarrow> \<exists>e. update m k v BPF_EXIST = Inl e"
begin

lemma noexist_fresh:
  assumes "inv m" "update m k v BPF_NOEXIST = Inr m'"
  shows "lookup m k = None"
  using assms update_noexist [of m k v] by fastforce

lemma update_twice:
  assumes "inv m" "update m k v f = Inr m1"
  shows "\<exists>m2. update m1 k w BPF_ANY = Inr m2 \<and> lookup m2 k = Some w"
proof -
  have inv1: "inv m1" and l1: "lookup m1 k = Some v"
    using update_inv [OF assms] lookup_update [OF assms, of k] by simp_all
  then obtain m2 where m2: "update m1 k w BPF_ANY = Inr m2"
    using update_present [of m1 k w] by auto
  with lookup_update [OF inv1 m2, of k] show ?thesis by simp
qed

lemma update_delete_other:
  assumes "inv m" "update m k v f = Inr m1" "delete m1 k' = Inr m2"
  shows "lookup m2 k = (if k = k' then None else Some v)"
proof -
  from assms(1,2) have inv1: "inv m1" by (rule update_inv)
  show ?thesis
    using lookup_delete [OF inv1 assms(3), of k] lookup_update [OF assms(1,2), of k] by simp
qed

end

text \<open>A map whose entries can be removed again, as a hash map's can.\<close>

locale deletable_map = bpf_map +
  assumes delete_present: "inv m \<Longrightarrow> lookup m k \<noteq> None \<Longrightarrow> \<exists>m'. delete m k = Inr m'"
    and delete_absent: "inv m \<Longrightarrow> lookup m k = None \<Longrightarrow> delete m k = Inl ENOENT"
begin

lemma insert_then_delete:
  assumes "inv m" "update m k v f = Inr m1"
  shows "\<exists>m2. delete m1 k = Inr m2 \<and> inv m2 \<and> lookup m2 k = None
    \<and> (\<forall>k'. k' \<noteq> k \<longrightarrow> lookup m2 k' = lookup m k')"
proof -
  have inv1: "inv m1" by (rule update_inv [OF assms])
  note l1 = lookup_update [OF assms]
  with inv1 obtain m2 where d: "delete m1 k = Inr m2" using delete_present [of m1 k] by auto
  show ?thesis
    using d delete_inv [OF inv1 d] lookup_delete [OF inv1 d] l1 by simp
qed

lemma delete_twice:
  assumes "inv m" "delete m k = Inr m'"
  shows "delete m' k = Inl ENOENT"
  using delete_absent [OF delete_inv [OF assms]] lookup_delete [OF assms, of k] by simp

end

section \<open>Both kinds of map meet it\<close>

lemma length_AList_update:
  "length (AList.update k v xs) = (if map_of xs k = None then Suc (length xs) else length xs)"
  by (induction xs) auto

lemma length_AList_delete: "length (AList.delete k xs) \<le> length xs"
  by (simp add: AList.delete_eq)

lemma hash_lookup_update_entries:
  "map_of (AList.update k v xs) k' = (if k' = k then Some v else map_of xs k')"
  by (simp add: update_conv')

lemma hash_lookup_delete_entries:
  "map_of (AList.delete k xs) k' = (if k' = k then None else map_of xs k')"
  by (simp add: delete_conv')

lemmas hash_map_defs =
  hash_lookup_def hash_update_def hash_delete_def hash_poke_def hash_inv_def
  length_AList_update hash_lookup_update_entries hash_lookup_delete_entries

lemma hash_lookup_update:
  "hash_update m k v f = Inr m' \<Longrightarrow>
   hash_lookup m' k' = (if k' = k then Some v else hash_lookup m k')"
  by (auto simp: hash_update_def hash_lookup_def hash_lookup_update_entries split: if_splits)

lemma hash_lookup_delete:
  "hash_delete m k = Inr m' \<Longrightarrow>
   hash_lookup m' k' = (if k' = k then None else hash_lookup m k')"
  by (auto simp: hash_delete_def hash_lookup_def hash_lookup_delete_entries split: if_splits)

lemma hash_update_inv: "hash_inv m \<Longrightarrow> hash_update m k v f = Inr m' \<Longrightarrow> hash_inv m'"
  by (auto simp: hash_map_defs distinct_update split: if_splits)

lemma hash_delete_inv: "hash_inv m \<Longrightarrow> hash_delete m k = Inr m' \<Longrightarrow> hash_inv m'"
  using length_AList_delete [of k "hm_entries m"]
  by (auto simp: hash_map_defs distinct_delete split: if_splits)

interpretation hm: deletable_map hash_inv hash_lookup hash_update hash_delete
proof (unfold_locales, goal_cases)
  case (1 m k v f m')
  then show ?case by (rule hash_update_inv)
next
  case (2 m k v f m' k')
  then show ?case by (blast intro: hash_lookup_update)
next
  case (3 m k m')
  then show ?case by (rule hash_delete_inv)
next
  case (4 m k m' k')
  then show ?case by (blast intro: hash_lookup_delete)
qed (simp_all add: hash_update_def hash_delete_def update_flag_defs)

definition array_inv :: "'v array_map \<Rightarrow> bool" where
  "array_inv m \<longleftrightarrow> length m \<le> 2 ^ 32"

interpretation am: bpf_map array_inv array_lookup array_update array_delete
  by unfold_locales
    (auto simp: array_inv_def array_lookup_def array_update_def array_delete_def update_flag_defs
      nth_list_update word_unat_eq_iff split: if_splits)

section \<open>Stores through a value pointer\<close>

lemma hash_poke_inv [simp]: "hash_inv m \<Longrightarrow> hash_inv (hash_poke m k v)"
  by (auto simp: hash_map_defs distinct_update split: if_splits)

lemma hash_lookup_poke [simp]:
  "hash_lookup (hash_poke m k v) k' =
     (if k' = k \<and> hash_lookup m k \<noteq> None then Some v else hash_lookup m k')"
  by (auto simp: hash_map_defs)

lemma hm_max_poke [simp]: "hm_max (hash_poke m k v) = hm_max m"
  by (simp add: hash_poke_def)

lemma hm_max_delete: "hash_delete m k = Inr m' \<Longrightarrow> hm_max m' = hm_max m"
  by (auto simp: hash_delete_def split: if_splits)

lemma hash_inv_empty [simp]: "hash_inv (hash_empty n)"
  by (simp add: hash_inv_def hash_empty_def)

lemma hash_lookup_empty [simp]: "hash_lookup (hash_empty n) k = None"
  by (simp add: hash_lookup_def hash_empty_def)

end
