(* ===== verification/Bpf_Tracing.thy ===== *)
theory Bpf_Tracing
  imports Bpf_Helpers
begin

text \<open>
  \<^verbatim>\<open>src/collector/headers/bpf_tracing.h\<close>: the choice of the target architecture, the register
  accessors of every target in their plain and CO-RE forms, the return-address reads,
  and the wrappers \<open>BPF_PROG\<close>, \<open>BPF_KPROBE\<close> and \<open>BPF_KRETPROBE\<close> that spread a raw context
  over typed parameters. The programs of the collector are all \<open>BPF_PROG\<close> programs.
\<close>

section \<open>The target\<close>

datatype bpf_target = X86 | S390 | ARM | ARM64 | MIPS | POWERPC | SPARC | RISCV

text \<open>The macros the compilation defines, and the value of \<open>__riscv_xlen\<close>.\<close>

record pp_env =
  defined_macros :: "string list"
  riscv_xlen :: nat

definition is_defined :: "pp_env \<Rightarrow> string \<Rightarrow> bool" where
  "is_defined pp m = (m \<in> set (defined_macros pp))"

definition arch_target :: "pp_env \<Rightarrow> bpf_target option" where
  "arch_target pp =
     (if is_defined pp ''__TARGET_ARCH_x86'' then Some X86
      else if is_defined pp ''__TARGET_ARCH_s390'' then Some S390
      else if is_defined pp ''__TARGET_ARCH_arm'' then Some ARM
      else if is_defined pp ''__TARGET_ARCH_arm64'' then Some ARM64
      else if is_defined pp ''__TARGET_ARCH_mips'' then Some MIPS
      else if is_defined pp ''__TARGET_ARCH_powerpc'' then Some POWERPC
      else if is_defined pp ''__TARGET_ARCH_sparc'' then Some SPARC
      else if is_defined pp ''__TARGET_ARCH_riscv'' then Some RISCV
      else None)"

definition compiler_target :: "pp_env \<Rightarrow> bpf_target option" where
  "compiler_target pp =
     (if is_defined pp ''__x86_64__'' then Some X86
      else if is_defined pp ''__s390__'' then Some S390
      else if is_defined pp ''__arm__'' then Some ARM
      else if is_defined pp ''__aarch64__'' then Some ARM64
      else if is_defined pp ''__mips__'' then Some MIPS
      else if is_defined pp ''__powerpc__'' then Some POWERPC
      else if is_defined pp ''__sparc__'' then Some SPARC
      else if is_defined pp ''__riscv'' \<and> riscv_xlen pp = 64 then Some RISCV
      else None)"

definition bpf_target_of :: "pp_env \<Rightarrow> bpf_target option" where
  "bpf_target_of pp =
     (case arch_target pp of Some t \<Rightarrow> Some t | None \<Rightarrow> compiler_target pp)"

section \<open>Register accessors\<close>

text \<open>
  A row is the accessor \<open>PT_REGS_x\<close>, what it reads, and what \<open>PT_REGS_x_CORE\<close> reads.
  A target that does not declare an accessor has no row for it.
\<close>

datatype pt_reg = PARM1 | PARM2 | PARM3 | PARM4 | PARM5 | RET | FP | RC | SP | IP

datatype reg_access = Field string | Zero

type_synonym pt_regs_row = "pt_reg \<times> reg_access \<times> reg_access"

definition pt_regs_x86 :: "pt_regs_row list" where
  "pt_regs_x86 =
     [(PARM1, Field ''di'', Field ''di''),
      (PARM2, Field ''si'', Field ''si''),
      (PARM3, Field ''dx'', Field ''dx''),
      (PARM4, Field ''cx'', Field ''cx''),
      (PARM5, Field ''r8'', Field ''r8''),
      (RET, Field ''sp'', Field ''sp''),
      (FP, Field ''bp'', Field ''bp''),
      (RC, Field ''ax'', Field ''ax''),
      (SP, Field ''sp'', Field ''sp''),
      (IP, Field ''ip'', Field ''ip'')]"

definition pt_regs_i386 :: "pt_regs_row list" where
  "pt_regs_i386 =
     [(PARM1, Field ''eax'', Field ''eax''),
      (PARM2, Field ''edx'', Field ''edx''),
      (PARM3, Field ''ecx'', Field ''ecx''),
      (PARM4, Zero, Zero),
      (PARM5, Zero, Zero),
      (RET, Field ''esp'', Field ''esp''),
      (FP, Field ''ebp'', Field ''ebp''),
      (RC, Field ''eax'', Field ''eax''),
      (SP, Field ''esp'', Field ''esp''),
      (IP, Field ''eip'', Field ''eip'')]"

definition pt_regs_x86_user :: "pt_regs_row list" where
  "pt_regs_x86_user =
     [(PARM1, Field ''rdi'', Field ''rdi''),
      (PARM2, Field ''rsi'', Field ''rsi''),
      (PARM3, Field ''rdx'', Field ''rdx''),
      (PARM4, Field ''rcx'', Field ''rcx''),
      (PARM5, Field ''r8'', Field ''r8''),
      (RET, Field ''rsp'', Field ''rsp''),
      (FP, Field ''rbp'', Field ''rbp''),
      (RC, Field ''rax'', Field ''rax''),
      (SP, Field ''rsp'', Field ''rsp''),
      (IP, Field ''rip'', Field ''rip'')]"

definition pt_regs_s390 :: "pt_regs_row list" where
  "pt_regs_s390 =
     [(PARM1, Field ''gprs[2]'', Field ''gprs[2]''),
      (PARM2, Field ''gprs[3]'', Field ''gprs[3]''),
      (PARM3, Field ''gprs[4]'', Field ''gprs[4]''),
      (PARM4, Field ''gprs[5]'', Field ''gprs[5]''),
      (PARM5, Field ''gprs[6]'', Field ''gprs[6]''),
      (RET, Field ''gprs[14]'', Field ''gprs[14]''),
      (FP, Field ''gprs[11]'', Field ''gprs[11]''),
      (RC, Field ''gprs[2]'', Field ''gprs[2]''),
      (SP, Field ''gprs[15]'', Field ''gprs[15]''),
      (IP, Field ''psw.addr'', Field ''psw.addr'')]"

definition pt_regs_arm :: "pt_regs_row list" where
  "pt_regs_arm =
     [(PARM1, Field ''uregs[0]'', Field ''uregs[0]''),
      (PARM2, Field ''uregs[1]'', Field ''uregs[1]''),
      (PARM3, Field ''uregs[2]'', Field ''uregs[2]''),
      (PARM4, Field ''uregs[3]'', Field ''uregs[3]''),
      (PARM5, Field ''uregs[4]'', Field ''uregs[4]''),
      (RET, Field ''uregs[14]'', Field ''uregs[14]''),
      (FP, Field ''uregs[11]'', Field ''uregs[11]''),
      (RC, Field ''uregs[0]'', Field ''uregs[0]''),
      (SP, Field ''uregs[13]'', Field ''uregs[13]''),
      (IP, Field ''uregs[12]'', Field ''uregs[12]'')]"

definition pt_regs_arm64 :: "pt_regs_row list" where
  "pt_regs_arm64 =
     [(PARM1, Field ''regs[0]'', Field ''regs[0]''),
      (PARM2, Field ''regs[1]'', Field ''regs[1]''),
      (PARM3, Field ''regs[2]'', Field ''regs[2]''),
      (PARM4, Field ''regs[3]'', Field ''regs[3]''),
      (PARM5, Field ''regs[4]'', Field ''regs[4]''),
      (RET, Field ''regs[30]'', Field ''regs[30]''),
      (FP, Field ''regs[29]'', Field ''regs[29]''),
      (RC, Field ''regs[0]'', Field ''regs[0]''),
      (SP, Field ''sp'', Field ''sp''),
      (IP, Field ''pc'', Field ''pc'')]"

definition pt_regs_mips :: "pt_regs_row list" where
  "pt_regs_mips =
     [(PARM1, Field ''regs[4]'', Field ''regs[4]''),
      (PARM2, Field ''regs[5]'', Field ''regs[5]''),
      (PARM3, Field ''regs[6]'', Field ''regs[6]''),
      (PARM4, Field ''regs[7]'', Field ''regs[7]''),
      (PARM5, Field ''regs[8]'', Field ''regs[8]''),
      (RET, Field ''regs[31]'', Field ''regs[31]''),
      (FP, Field ''regs[30]'', Field ''regs[30]''),
      (RC, Field ''regs[2]'', Field ''regs[2]''),
      (SP, Field ''regs[29]'', Field ''regs[29]''),
      (IP, Field ''cp0_epc'', Field ''cp0_epc'')]"

definition pt_regs_powerpc :: "pt_regs_row list" where
  "pt_regs_powerpc =
     [(PARM1, Field ''gpr[3]'', Field ''gpr[3]''),
      (PARM2, Field ''gpr[4]'', Field ''gpr[4]''),
      (PARM3, Field ''gpr[5]'', Field ''gpr[5]''),
      (PARM4, Field ''gpr[6]'', Field ''gpr[6]''),
      (PARM5, Field ''gpr[7]'', Field ''gpr[7]''),
      (RC, Field ''gpr[3]'', Field ''gpr[3]''),
      (SP, Field ''sp'', Field ''sp''),
      (IP, Field ''nip'', Field ''nip'')]"

definition pt_regs_sparc :: "bool \<Rightarrow> pt_regs_row list" where
  "pt_regs_sparc arch64 =
     [(PARM1, Field ''u_regs[UREG_I0]'', Field ''u_regs[UREG_I0]''),
      (PARM2, Field ''u_regs[UREG_I1]'', Field ''u_regs[UREG_I1]''),
      (PARM3, Field ''u_regs[UREG_I2]'', Field ''u_regs[UREG_I2]''),
      (PARM4, Field ''u_regs[UREG_I3]'', Field ''u_regs[UREG_I3]''),
      (PARM5, Field ''u_regs[UREG_I4]'', Field ''u_regs[UREG_I4]''),
      (RET, Field ''u_regs[UREG_I7]'', Field ''u_regs[UREG_I7]''),
      (RC, Field ''u_regs[UREG_I0]'', Field ''u_regs[UREG_I0]''),
      (SP, Field ''u_regs[UREG_FP]'', Field ''u_regs[UREG_FP]''),
      (IP, if arch64 then Field ''tpc'' else Field ''pc'', if arch64 then Field ''tpc'' else Field ''pc'')]"

definition pt_regs_riscv :: "pt_regs_row list" where
  "pt_regs_riscv =
     [(PARM1, Field ''a0'', Field ''a0''),
      (PARM2, Field ''a1'', Field ''a1''),
      (PARM3, Field ''a2'', Field ''a2''),
      (PARM4, Field ''a3'', Field ''a3''),
      (PARM5, Field ''a4'', Field ''a4''),
      (RET, Field ''ra'', Field ''ra''),
      (FP, Field ''s5'', Field ''fp''),
      (RC, Field ''a5'', Field ''a5''),
      (SP, Field ''sp'', Field ''sp''),
      (IP, Field ''epc'', Field ''epc'')]"

text \<open>The pointer type some targets cast the context to before the access.\<close>

definition pt_regs_cast :: "bpf_target \<Rightarrow> string option" where
  "pt_regs_cast t =
     (case t of
        S390 \<Rightarrow> Some ''const volatile user_pt_regs''
      | ARM64 \<Rightarrow> Some ''const volatile struct user_pt_regs''
      | RISCV \<Rightarrow> Some ''const volatile struct user_regs_struct''
      | _ \<Rightarrow> None)"

definition pt_regs :: "pp_env \<Rightarrow> pt_regs_row list" where
  "pt_regs pp =
     (case bpf_target_of pp of
        Some X86 \<Rightarrow>
          if is_defined pp ''__KERNEL__'' \<or> is_defined pp ''__VMLINUX_H__'' then pt_regs_x86
          else if is_defined pp ''__i386__'' then pt_regs_i386
          else pt_regs_x86_user
      | Some S390 \<Rightarrow> pt_regs_s390
      | Some ARM \<Rightarrow> pt_regs_arm
      | Some ARM64 \<Rightarrow> pt_regs_arm64
      | Some MIPS \<Rightarrow> pt_regs_mips
      | Some POWERPC \<Rightarrow> pt_regs_powerpc
      | Some SPARC \<Rightarrow> pt_regs_sparc (is_defined pp ''__arch64__'')
      | Some RISCV \<Rightarrow> pt_regs_riscv
      | None \<Rightarrow> [])"

lemmas pt_regs_tables =
  pt_regs_x86_def pt_regs_i386_def pt_regs_x86_user_def pt_regs_s390_def pt_regs_arm_def
  pt_regs_arm64_def pt_regs_mips_def pt_regs_powerpc_def pt_regs_sparc_def pt_regs_riscv_def

text \<open>
  An accessor a program uses: a read of a field, the constant 0, or the pragma that
  aborts the build when no target is known. \<open>None\<close> is an undeclared macro.
\<close>

datatype reg_expr = ReadField string | ConstZero | TargetMissing

fun access_expr :: "reg_access \<Rightarrow> reg_expr" where
  "access_expr (Field f) = ReadField f"
| "access_expr Zero = ConstZero"

definition PT_REGS :: "pp_env \<Rightarrow> pt_reg \<Rightarrow> reg_expr option" where
  "PT_REGS pp r =
     (if bpf_target_of pp = None then Some TargetMissing
      else map_option (access_expr \<circ> fst) (map_of (pt_regs pp) r))"

definition PT_REGS_CORE :: "pp_env \<Rightarrow> pt_reg \<Rightarrow> reg_expr option" where
  "PT_REGS_CORE pp r =
     (if bpf_target_of pp = None then Some TargetMissing
      else map_option (access_expr \<circ> snd) (map_of (pt_regs pp) r))"

text \<open>
  How the return address of the probed function is read: from the link register, from
  the \<open>RET\<close> accessor itself, or from memory at \<open>RET\<close> (kprobe) or one word above \<open>FP\<close>
  (kretprobe).
\<close>

datatype ret_ip =
    LinkField
  | RegValue pt_reg
  | MemAt pt_reg nat
  | RetIpMissing

definition BPF_KPROBE_READ_RET_IP :: "pp_env \<Rightarrow> ret_ip" where
  "BPF_KPROBE_READ_RET_IP pp =
     (case bpf_target_of pp of
        Some POWERPC \<Rightarrow> LinkField
      | Some SPARC \<Rightarrow> RegValue RET
      | Some _ \<Rightarrow> MemAt RET 0
      | None \<Rightarrow> RetIpMissing)"

definition BPF_KRETPROBE_READ_RET_IP :: "pp_env \<Rightarrow> nat \<Rightarrow> ret_ip" where
  "BPF_KRETPROBE_READ_RET_IP pp sizeof_ip =
     (case bpf_target_of pp of
        Some POWERPC \<Rightarrow> BPF_KPROBE_READ_RET_IP pp
      | Some SPARC \<Rightarrow> BPF_KPROBE_READ_RET_IP pp
      | Some _ \<Rightarrow> MemAt FP sizeof_ip
      | None \<Rightarrow> RetIpMissing)"

fun ret_ip_reg :: "ret_ip \<Rightarrow> pt_reg option" where
  "ret_ip_reg (RegValue r) = Some r"
| "ret_ip_reg (MemAt r _) = Some r"
| "ret_ip_reg _ = None"

section \<open>Program wrappers\<close>

text \<open>
  \<open>___bpf_ctx_castN(x, args...)\<close> is \<open>___bpf_ctx_cast(N-1)(args), (void *)ctx[N-1]\<close>: the
  parameters get the words of the context in order. \<open>BPF_PROG\<close> applies the body to them;
  \<open>None\<close> is an argument list the macros cannot count.
\<close>

fun ctx_cast_n :: "nat \<Rightarrow> u64 list \<Rightarrow> u64 list" where
  "ctx_cast_n 0 ctx = []"
| "ctx_cast_n (Suc n) ctx = ctx_cast_n n ctx @ [ctx ! n]"

definition bpf_ctx_cast :: "string list \<Rightarrow> u64 list \<Rightarrow> u64 list option" where
  "bpf_ctx_cast args ctx =
     (case bpf_narg args of Some (Inr n) \<Rightarrow> Some (ctx_cast_n n ctx) | _ \<Rightarrow> None)"

definition BPF_PROG :: "string list \<Rightarrow> (u64 list \<Rightarrow> u64 list \<Rightarrow> 'r) \<Rightarrow> u64 list \<Rightarrow> 'r option" where
  "BPF_PROG args body ctx = map_option (body ctx) (bpf_ctx_cast args ctx)"

text \<open>The kprobe wrappers read the parameters through the accessors, five at most.\<close>

definition kprobe_parm :: "nat \<Rightarrow> pt_reg option" where
  "kprobe_parm i =
     (if i < 5 then Some ([PARM1, PARM2, PARM3, PARM4, PARM5] ! i) else None)"

fun kprobe_args_n :: "nat \<Rightarrow> (pt_reg \<Rightarrow> u64) \<Rightarrow> u64 list option" where
  "kprobe_args_n 0 regs = Some []"
| "kprobe_args_n (Suc n) regs =
     (case (kprobe_args_n n regs, kprobe_parm n) of
        (Some as, Some r) \<Rightarrow> Some (as @ [regs r])
      | _ \<Rightarrow> None)"

definition BPF_KPROBE :: "string list \<Rightarrow> (u64 list \<Rightarrow> 'r) \<Rightarrow> (pt_reg \<Rightarrow> u64) \<Rightarrow> 'r option" where
  "BPF_KPROBE args body regs =
     (case bpf_narg args of
        Some (Inr n) \<Rightarrow> map_option body (kprobe_args_n n regs)
      | _ \<Rightarrow> None)"

definition kretprobe_args_n :: "nat \<Rightarrow> (pt_reg \<Rightarrow> u64) \<Rightarrow> u64 list option" where
  "kretprobe_args_n n regs = (if n = 0 then Some [] else if n = 1 then Some [regs RC] else None)"

definition BPF_KRETPROBE :: "string list \<Rightarrow> (u64 list \<Rightarrow> 'r) \<Rightarrow> (pt_reg \<Rightarrow> u64) \<Rightarrow> 'r option" where
  "BPF_KRETPROBE args body regs =
     (case bpf_narg args of
        Some (Inr n) \<Rightarrow> map_option body (kretprobe_args_n n regs)
      | _ \<Rightarrow> None)"

lemma ctx_cast_n_take: "n \<le> length ctx \<Longrightarrow> ctx_cast_n n ctx = take n ctx"
  by (induction n) (simp_all add: take_Suc_conv_app_nth)

lemma kprobe_args_n_take:
  "n \<le> 5 \<Longrightarrow> kprobe_args_n n regs = Some (map regs (take n [PARM1, PARM2, PARM3, PARM4, PARM5]))"
proof (induction n)
  case (Suc n)
  then have "n < length [PARM1, PARM2, PARM3, PARM4, PARM5]" by simp
  from take_Suc_conv_app_nth [OF this] Suc show ?case
    by (simp add: kprobe_parm_def)
qed simp

lemma kprobe_args_n_overflow: "5 < n \<Longrightarrow> kprobe_args_n n regs = None"
proof (induction n)
  case (Suc n)
  then show ?case
    by (cases "kprobe_args_n n regs") (simp_all add: kprobe_parm_def)
qed simp

lemma BPF_PROG_body:
  assumes "length args \<le> 12" "length args \<le> length ctx"
  shows "BPF_PROG args body ctx = Some (body ctx (take (length args) ctx))"
  using assms by (simp add: BPF_PROG_def bpf_ctx_cast_def bpf_narg_length ctx_cast_n_take)

section \<open>Properties\<close>

lemma pt_regs_core_rows:
  "filter (\<lambda>(r, plain, core). plain \<noteq> core) (pt_regs pp) =
     (if bpf_target_of pp = Some RISCV then [(FP, Field ''s5'', Field ''fp'')] else [])"
proof (cases "bpf_target_of pp")
  case (Some t)
  then show ?thesis by (cases t) (simp_all add: pt_regs_def pt_regs_tables)
qed (simp add: pt_regs_def)

lemma PT_REGS_CORE_eq:
  assumes "\<not> (bpf_target_of pp = Some RISCV \<and> r = FP)"
  shows "PT_REGS_CORE pp r = PT_REGS pp r"
proof (cases "map_of (pt_regs pp) r")
  case (Some a)
  obtain plain core where a: "a = (plain, core)" by fastforce
  with Some have row: "(r, plain, core) \<in> set (pt_regs pp)" by (auto dest: map_of_SomeD)
  have "plain = core"
  proof (rule ccontr)
    assume "plain \<noteq> core"
    with row have "(r, plain, core) \<in> set (filter (\<lambda>(r, p, c). p \<noteq> c) (pt_regs pp))" by simp
    with assms show False unfolding pt_regs_core_rows by (simp split: if_splits)
  qed
  with Some a show ?thesis by (simp add: PT_REGS_def PT_REGS_CORE_def)
qed (simp add: PT_REGS_def PT_REGS_CORE_def)

lemma PT_REGS_RET: "bpf_target_of pp = Some t \<Longrightarrow> t \<noteq> POWERPC \<Longrightarrow> PT_REGS pp RET \<noteq> None"
  by (cases t) (simp_all add: PT_REGS_def pt_regs_def pt_regs_tables)

lemma PT_REGS_FP:
  "bpf_target_of pp = Some t \<Longrightarrow> t \<noteq> POWERPC \<Longrightarrow> t \<noteq> SPARC \<Longrightarrow> PT_REGS pp FP \<noteq> None"
  by (cases t) (simp_all add: PT_REGS_def pt_regs_def pt_regs_tables)

text \<open>
  On every configuration the CO-RE accessor of a register reads the same field as
  the plain accessor, with one exception: for RISC-V \<open>PT_REGS_FP\<close> reads \<open>s5\<close> and
  \<open>PT_REGS_FP_CORE\<close> reads \<open>fp\<close>.
\<close>

theorem core_accessors_agree:
  "PT_REGS_CORE pp r =
     (if bpf_target_of pp = Some RISCV \<and> r = FP then Some (ReadField ''fp'')
      else PT_REGS pp r)"
proof (cases "bpf_target_of pp = Some RISCV \<and> r = FP")
  case True
  then show ?thesis
    by (simp add: PT_REGS_CORE_def pt_regs_def pt_regs_riscv_def)
next
  case False
  then show ?thesis using PT_REGS_CORE_eq [OF False] by (simp only: if_False)
qed

text \<open>
  On a known target the register that the return-address read of a kprobe or a
  kretprobe goes through is one the target declares an accessor for.
\<close>

theorem ret_ip_reads_declared_register:
  assumes "bpf_target_of pp \<noteq> None"
    and "ret_ip_reg (BPF_KPROBE_READ_RET_IP pp) = Some r
       \<or> ret_ip_reg (BPF_KRETPROBE_READ_RET_IP pp n) = Some r"
  shows "PT_REGS pp r \<noteq> None"
proof -
  from assms(1) obtain t where t: "bpf_target_of pp = Some t" by blast
  with assms(2) have "r = RET \<and> t \<noteq> POWERPC \<or> r = FP \<and> t \<noteq> POWERPC \<and> t \<noteq> SPARC"
    by (cases t) (auto simp: BPF_KPROBE_READ_RET_IP_def BPF_KRETPROBE_READ_RET_IP_def)
  with t show ?thesis using PT_REGS_RET PT_REGS_FP by blast
qed

theorem ret_ip_reads_declared_register_witness:
  "PT_REGS \<lparr>defined_macros = [''__TARGET_ARCH_sparc''], riscv_xlen = 0\<rparr> RET \<noteq> None"
  by (rule ret_ip_reads_declared_register [where n = 8])
    (simp_all add: bpf_target_of_def arch_target_def is_defined_def BPF_KPROBE_READ_RET_IP_def)

end
