(* ===== verification/Provenance.thy ===== *)
theory Provenance
  imports Egress_Classify Bpf_Maps Bpf_Tracing
begin

unbundle bit_operations_syntax

text \<open>
  The BPF-LSM object \<^verbatim>\<open>src/collector/provenance.bpf.c\<close>: its maps, the one-shot grant, the
  event log, and the five programs. An operation takes the environment of the
  invocation and the state of the maps and returns its C result with the new state, in
  the order the code makes its calls. The declarations of the maps and structs are C
  types, so that their sizes can be compared with the collector's; the state holds
  their values.
\<close>

section \<open>Constants\<close>

definition TASK_COMM_LEN :: nat where "TASK_COMM_LEN = 16"
definition EPERM :: c_int where "EPERM = 1"

definition HOOK_BPF :: u32 where "HOOK_BPF = 0"
definition HOOK_PTRACE :: u32 where "HOOK_PTRACE = 1"
definition HOOK_CONNECT :: u32 where "HOOK_CONNECT = 3"
definition HOOK_SETUID :: u32 where "HOOK_SETUID = 4"
definition HOOK_CAPSET :: u32 where "HOOK_CAPSET = 5"

lemmas HOOK_defs = HOOK_BPF_def HOOK_PTRACE_def HOOK_CONNECT_def HOOK_SETUID_def HOOK_CAPSET_def

section \<open>Declarations\<close>

definition struct_event :: ctype where
  "struct_event =
     CStruct
       [(''cgroup_id'', t_u64),
        (''pid'', t_u32),
        (''comm'', CArr t_u8 TASK_COMM_LEN),
        (''hook'', t_u32),
        (''decision'', t_u32),
        (''mode'', t_u32)]"

definition events_map :: ctype where
  "events_map =
     CStruct
       [uint_member ''type'' 27,
        uint_member ''max_entries'' (push_bit 24 1)]"

definition enforce_flags_map :: ctype where
  "enforce_flags_map =
     CStruct
       [uint_member ''type'' 2,
        uint_member ''max_entries'' 8,
        type_member ''key'' t_u32,
        type_member ''value'' t_u32]"

definition tcb_cgroups_map :: ctype where
  "tcb_cgroups_map =
     CStruct
       [uint_member ''type'' 1,
        uint_member ''max_entries'' 64,
        type_member ''key'' t_u64,
        type_member ''value'' t_u32]"

definition egress_policy_map :: ctype where
  "egress_policy_map =
     CStruct
       [uint_member ''type'' 1,
        uint_member ''max_entries'' 1024,
        type_member ''key'' t_u64,
        type_member ''value'' t_u32]"

definition struct_grant_key :: ctype where
  "struct_grant_key = CStruct [(''cgid'', t_u64), (''hook'', t_u32), (''_pad'', t_u32)]"

definition struct_grant_val :: ctype where
  "struct_grant_val = CStruct [(''count'', t_u64), (''expire_ns'', t_u64)]"

definition grant_once_map :: ctype where
  "grant_once_map =
     CStruct
       [uint_member ''type'' 1,
        uint_member ''max_entries'' 256,
        type_member ''key'' struct_grant_key,
        type_member ''value'' struct_grant_val]"

lemmas object_decls [layout_simps] =
  TASK_COMM_LEN_def struct_event_def events_map_def enforce_flags_map_def tcb_cgroups_map_def
  egress_policy_map_def struct_grant_key_def struct_grant_val_def grant_once_map_def

section \<open>State\<close>

record event =
  ev_cgroup_id :: u64
  ev_pid :: u32
  ev_comm :: "u8 list"
  ev_hook :: u32
  ev_decision :: u32
  ev_mode :: u32

record grant_key =
  gk_cgid :: u64
  gk_hook :: u32
  gk_pad :: u32

record grant_val =
  gv_count :: u64
  gv_expire_ns :: u64

text \<open>The submitted records of the ring buffer, oldest first, and the four policy maps.\<close>

record bpf_state =
  events :: "event list"
  enforce_flags :: "u32 array_map"
  tcb_cgroups :: "(u64, u32) hash_map"
  egress_policy :: "(u64, u32) hash_map"
  grant_once :: "(grant_key, grant_val) hash_map"

text \<open>The state of a freshly loaded object: empty maps, a zeroed array of eight flags.\<close>

definition init_state :: bpf_state where
  "init_state =
     \<lparr>events = [], enforce_flags = replicate 8 0, tcb_cgroups = hash_empty 64,
      egress_policy = hash_empty 1024, grant_once = hash_empty 256\<rparr>"

definition state_inv :: "bpf_state \<Rightarrow> bool" where
  "state_inv s \<longleftrightarrow>
     length (enforce_flags s) = 8 \<and>
     hash_inv (tcb_cgroups s) \<and> hm_max (tcb_cgroups s) = 64 \<and>
     hash_inv (egress_policy s) \<and> hm_max (egress_policy s) = 1024 \<and>
     hash_inv (grant_once s) \<and> hm_max (grant_once s) = 256"

section \<open>Helpers of the programs\<close>

definition the_grant_key :: "u64 \<Rightarrow> u32 \<Rightarrow> grant_key" where
  "the_grant_key cg hook = \<lparr>gk_cgid = cg, gk_hook = hook, gk_pad = 0\<rparr>"

definition try_consume_grant :: "kernel_env \<Rightarrow> u64 \<Rightarrow> u32 \<Rightarrow> bpf_state \<Rightarrow> c_int \<times> bpf_state" where
  "try_consume_grant env cg hook s =
     (let k = the_grant_key cg hook
      in case hash_lookup (grant_once s) k of
           None \<Rightarrow> (0, s)
         | Some v \<Rightarrow>
             if gv_expire_ns v \<noteq> 0 \<and> ktime_ns env > gv_expire_ns v then (0, s)
             else if gv_count v = 1 then
               let burnt = hash_poke (grant_once s) k (v\<lparr>gv_count := 0\<rparr>)
               in case hash_delete burnt k of
                    Inr m \<Rightarrow> (1, s\<lparr>grant_once := m\<rparr>)
                  | Inl _ \<Rightarrow> (1, s\<lparr>grant_once := burnt\<rparr>)
             else (0, s))"

definition log_decision :: "kernel_env \<Rightarrow> u64 \<Rightarrow> u32 \<Rightarrow> u32 \<Rightarrow> u32 \<Rightarrow> bpf_state \<Rightarrow> bpf_state" where
  "log_decision env cg hook decision mode s =
     (if \<not> ringbuf_room env then s
      else
        let e = \<lparr>ev_cgroup_id = cg,
                 ev_pid = ucast (drop_bit 32 (current_pid_tgid env)),
                 ev_comm = current_comm env,
                 ev_hook = hook, ev_decision = decision, ev_mode = mode\<rparr>
        in s\<lparr>events := events s @ [e]\<rparr>)"

text \<open>\<open>p && *p == 1\<close> on the value pointer a lookup returned.\<close>

definition is_one :: "u32 option \<Rightarrow> bool" where
  "is_one p = (p = Some 1)"

definition is_tcb :: "bpf_state \<Rightarrow> u64 \<Rightarrow> bool" where
  "is_tcb s cg = is_one (hash_lookup (tcb_cgroups s) cg)"

definition is_armed :: "bpf_state \<Rightarrow> u32 \<Rightarrow> bool" where
  "is_armed s hook = is_one (array_lookup (enforce_flags s) hook)"

section \<open>The programs\<close>

text \<open>
  The body of each \<open>BPF_PROG\<close>, over its typed parameters. \<open>sock\<close>, \<open>cmd\<close> and the other
  parameters the code does not use are kept.
\<close>

definition prov_socket_connect_body ::
  "kernel_env \<Rightarrow> u64 \<Rightarrow> u64 \<Rightarrow> c_int \<Rightarrow> c_int \<Rightarrow> bpf_state \<Rightarrow> c_int \<times> bpf_state"
where
  "prov_socket_connect_body env sock address addrlen ret s =
     (if ret \<noteq> 0 then (ret, s)
      else
        let cg = current_cgroup_id env;
            cls = classify_dest env address addrlen;
            (decision, mode, verdict) =
              (if \<not> is_tcb s cg then
                 case hash_lookup (egress_policy s) cg of
                   Some allowed \<Rightarrow>
                     if allowed AND cls = 0 then
                       let mode = (if is_armed s HOOK_CONNECT then 1 else 0)
                       in (1, mode, if mode \<noteq> 0 then - EPERM else 0)
                     else (0, 0, 0)
                 | None \<Rightarrow> (0, 0, 0)
               else (0, 0, 0))
        in (verdict, log_decision env cg HOOK_CONNECT decision mode s))"

definition enforce_verdict_g ::
  "kernel_env \<Rightarrow> u32 \<Rightarrow> c_int \<Rightarrow> c_int \<Rightarrow> bpf_state \<Rightarrow> c_int \<times> bpf_state"
where
  "enforce_verdict_g env hook ret grantable s =
     (if ret \<noteq> 0 then (ret, s)
      else
        let cg = current_cgroup_id env
        in if is_tcb s cg then (0, s)
           else if \<not> is_armed s hook then (0, log_decision env cg hook 0 0 s)
           else
             let (won, s1) = (if grantable \<noteq> 0 then try_consume_grant env cg hook s else (0, s))
             in if won \<noteq> 0 then (0, log_decision env cg hook 0 1 s1)
                else (- EPERM, log_decision env cg hook 1 1 s1))"

definition enforce_verdict :: "kernel_env \<Rightarrow> u32 \<Rightarrow> c_int \<Rightarrow> bpf_state \<Rightarrow> c_int \<times> bpf_state" where
  "enforce_verdict env hook ret s = enforce_verdict_g env hook ret 0 s"

definition enforce_bpf_body ::
  "kernel_env \<Rightarrow> c_int \<Rightarrow> u64 \<Rightarrow> u32 \<Rightarrow> c_int \<Rightarrow> bpf_state \<Rightarrow> c_int \<times> bpf_state"
where
  "enforce_bpf_body env cmd attr attr_size ret s = enforce_verdict env HOOK_BPF ret s"

definition enforce_ptrace_body ::
  "kernel_env \<Rightarrow> u64 \<Rightarrow> u32 \<Rightarrow> c_int \<Rightarrow> bpf_state \<Rightarrow> c_int \<times> bpf_state"
where
  "enforce_ptrace_body env child mode ret s = enforce_verdict_g env HOOK_PTRACE ret 1 s"

definition enforce_gain ::
  "kernel_env \<Rightarrow> u32 \<Rightarrow> c_int \<Rightarrow> c_int \<Rightarrow> bpf_state \<Rightarrow> c_int \<times> bpf_state"
where
  "enforce_gain env hook ret gain s =
     (if ret \<noteq> 0 then (ret, s)
      else if gain = 0 then (0, s)
      else
        let cg = current_cgroup_id env
        in if is_tcb s cg then (0, s)
           else if \<not> is_armed s hook then (0, log_decision env cg hook 1 0 s)
           else
             let (won, s1) = try_consume_grant env cg hook s
             in if won \<noteq> 0 then (0, log_decision env cg hook 0 1 s1)
                else (- EPERM, log_decision env cg hook 1 1 s1))"

text \<open>A C comparison is the \<open>int\<close> 1 or 0.\<close>

definition c_bool :: "bool \<Rightarrow> c_int" where
  "c_bool b = (if b then 1 else 0)"

definition setuid_gain :: "kernel_env \<Rightarrow> u64 \<Rightarrow> u64 \<Rightarrow> c_int" where
  "setuid_gain env new old =
     (let ne = probe_read_word env (1 :: u32) (field_addr new struct_cred [''euid'', ''val'']);
          oe = probe_read_word env (1 :: u32) (field_addr old struct_cred [''euid'', ''val''])
      in c_bool (ne = 0 \<and> oe \<noteq> 0))"

definition enforce_setuid_body ::
  "kernel_env \<Rightarrow> u64 \<Rightarrow> u64 \<Rightarrow> c_int \<Rightarrow> c_int \<Rightarrow> bpf_state \<Rightarrow> c_int \<times> bpf_state"
where
  "enforce_setuid_body env new old flags ret s =
     enforce_gain env HOOK_SETUID ret (setuid_gain env new old) s"

definition capset_gain :: "kernel_env \<Rightarrow> u64 \<Rightarrow> u64 \<Rightarrow> u64 \<Rightarrow> u64 \<Rightarrow> c_int" where
  "capset_gain env old effective inheritable permitted =
     (let ne = probe_read_word env (0 :: u64) effective;
          oe = probe_read_word env (0 :: u64) (field_addr old struct_cred [''cap_effective'', ''val'']);
          np = probe_read_word env (0 :: u64) permitted;
          op = probe_read_word env (0 :: u64) (field_addr old struct_cred [''cap_permitted'', ''val'']);
          ni = probe_read_word env (0 :: u64) inheritable;
          oi = probe_read_word env (0 :: u64) (field_addr old struct_cred [''cap_inheritable'', ''val''])
      in c_bool (ne AND NOT oe \<noteq> 0 \<or> np AND NOT op \<noteq> 0 \<or> ni AND NOT oi \<noteq> 0))"

definition enforce_capset_body ::
  "kernel_env \<Rightarrow> u64 \<Rightarrow> u64 \<Rightarrow> u64 \<Rightarrow> u64 \<Rightarrow> u64 \<Rightarrow> c_int \<Rightarrow> bpf_state \<Rightarrow> c_int \<times> bpf_state"
where
  "enforce_capset_body env new old effective inheritable permitted ret s =
     enforce_gain env HOOK_CAPSET ret (capset_gain env old effective inheritable permitted) s"

section \<open>Entry points\<close>

text \<open>
  The functions the \<open>BPF_PROG\<close> macro generates: the raw context is an array of 64-bit words,
  and a word passed as an \<open>int\<close> parameter is truncated.
\<close>

definition prov_socket_connect ::
  "kernel_env \<Rightarrow> u64 list \<Rightarrow> bpf_state \<Rightarrow> (c_int \<times> bpf_state) option"
where
  "prov_socket_connect env ctx s =
     BPF_PROG [''sock'', ''address'', ''addrlen'', ''ret'']
       (\<lambda>_ as. prov_socket_connect_body env (as ! 0) (as ! 1) (ucast (as ! 2)) (ucast (as ! 3)) s) ctx"

definition enforce_bpf ::
  "kernel_env \<Rightarrow> u64 list \<Rightarrow> bpf_state \<Rightarrow> (c_int \<times> bpf_state) option"
where
  "enforce_bpf env ctx s =
     BPF_PROG [''cmd'', ''attr'', ''size'', ''ret'']
       (\<lambda>_ as. enforce_bpf_body env (ucast (as ! 0)) (as ! 1) (ucast (as ! 2)) (ucast (as ! 3)) s) ctx"

definition enforce_ptrace ::
  "kernel_env \<Rightarrow> u64 list \<Rightarrow> bpf_state \<Rightarrow> (c_int \<times> bpf_state) option"
where
  "enforce_ptrace env ctx s =
     BPF_PROG [''child'', ''mode'', ''ret'']
       (\<lambda>_ as. enforce_ptrace_body env (as ! 0) (ucast (as ! 1)) (ucast (as ! 2)) s) ctx"

definition enforce_setuid ::
  "kernel_env \<Rightarrow> u64 list \<Rightarrow> bpf_state \<Rightarrow> (c_int \<times> bpf_state) option"
where
  "enforce_setuid env ctx s =
     BPF_PROG [''new'', ''old'', ''flags'', ''ret'']
       (\<lambda>_ as. enforce_setuid_body env (as ! 0) (as ! 1) (ucast (as ! 2)) (ucast (as ! 3)) s) ctx"

definition enforce_capset ::
  "kernel_env \<Rightarrow> u64 list \<Rightarrow> bpf_state \<Rightarrow> (c_int \<times> bpf_state) option"
where
  "enforce_capset env ctx s =
     BPF_PROG [''new'', ''old'', ''effective'', ''inheritable'', ''permitted'', ''ret'']
       (\<lambda>_ as. enforce_capset_body env (as ! 0) (as ! 1) (as ! 2) (as ! 3) (as ! 4) (ucast (as ! 5)) s) ctx"

text \<open>
  One row per program: its section, its name and its parameters. The hook is the section
  name after \<open>lsm/\<close>.
\<close>

definition lsm_programs :: "(string \<times> string \<times> ctype list) list" where
  "lsm_programs =
     [(''lsm/socket_connect'', ''prov_socket_connect'',
       [CPtr (CTag ''struct socket''), CPtr (CTag ''struct sockaddr''), CInt, CInt]),
      (''lsm/bpf'', ''enforce_bpf'', [CInt, CPtr (CTag ''union bpf_attr''), CUInt, CInt]),
      (''lsm/ptrace_access_check'', ''enforce_ptrace'', [CPtr (CTag ''struct task_struct''), CUInt, CInt]),
      (''lsm/task_fix_setuid'', ''enforce_setuid'',
       [CPtr (CTag ''struct cred''), CPtr (CConst (CTag ''struct cred'')), CInt, CInt]),
      (''lsm/capset'', ''enforce_capset'',
       [CPtr (CTag ''struct cred''), CPtr (CConst (CTag ''struct cred'')),
        CPtr (CConst kernel_cap_t), CPtr (CConst kernel_cap_t), CPtr (CConst kernel_cap_t), CInt])]"

section \<open>Grants\<close>

text \<open>A grant is live when it is unused and its time has not run out.\<close>

fun grant_usable :: "u64 \<Rightarrow> grant_val option \<Rightarrow> bool" where
  "grant_usable now None = False"
| "grant_usable now (Some v) =
     (gv_count v = 1 \<and> (gv_expire_ns v = 0 \<or> now \<le> gv_expire_ns v))"

definition live_grant :: "kernel_env \<Rightarrow> bpf_state \<Rightarrow> u64 \<Rightarrow> u32 \<Rightarrow> bool" where
  "live_grant env s cg hook =
     grant_usable (ktime_ns env) (hash_lookup (grant_once s) (the_grant_key cg hook))"

definition spend_grant :: "bpf_state \<Rightarrow> u64 \<Rightarrow> u32 \<Rightarrow> bpf_state" where
  "spend_grant s cg hook =
     s\<lparr>grant_once := (grant_once s)
         \<lparr>hm_entries := AList.delete (the_grant_key cg hook) (hm_entries (grant_once s))\<rparr>\<rparr>"

lemma hash_delete_poke:
  assumes "hash_lookup m k \<noteq> None"
  shows "hash_delete (hash_poke m k v) k = Inr (m\<lparr>hm_entries := AList.delete k (hm_entries m)\<rparr>)"
proof -
  have "AList.delete k (AList.update k v xs) = AList.delete k xs" for xs
    by (induction xs) auto
  with assms show ?thesis
    by (simp add: hash_delete_def hash_poke_def hash_lookup_def update_conv')
qed

lemma try_consume_grant_eq:
  "try_consume_grant env cg hook s =
     (if live_grant env s cg hook then (1, spend_grant s cg hook) else (0, s))"
proof (cases "hash_lookup (grant_once s) (the_grant_key cg hook)")
  case None
  then show ?thesis by (simp add: try_consume_grant_def live_grant_def)
next
  case (Some v)
  then have present: "hash_lookup (grant_once s) (the_grant_key cg hook) \<noteq> None" by simp
  show ?thesis
    using Some hash_delete_poke [OF present, of "v\<lparr>gv_count := 0\<rparr>"]
    by (auto simp: try_consume_grant_def live_grant_def spend_grant_def Let_def not_less)
qed

lemma the_grant_key_inject [simp]: "the_grant_key cg h = the_grant_key cg' h' \<longleftrightarrow> cg = cg' \<and> h = h'"
  by (simp add: the_grant_key_def)

lemma lookup_spend_grant:
  "hash_lookup (grant_once (spend_grant s cg hook)) k =
     (if k = the_grant_key cg hook then None else hash_lookup (grant_once s) k)"
  by (simp add: spend_grant_def hash_lookup_def delete_conv')

section \<open>What each operation leaves alone\<close>

lemma log_decision_frame [simp]:
  "enforce_flags (log_decision env cg h d m s) = enforce_flags s"
  "tcb_cgroups (log_decision env cg h d m s) = tcb_cgroups s"
  "egress_policy (log_decision env cg h d m s) = egress_policy s"
  "grant_once (log_decision env cg h d m s) = grant_once s"
  by (simp_all add: log_decision_def Let_def)

lemma spend_grant_frame [simp]:
  "enforce_flags (spend_grant s cg hook) = enforce_flags s"
  "tcb_cgroups (spend_grant s cg hook) = tcb_cgroups s"
  "egress_policy (spend_grant s cg hook) = egress_policy s"
  "events (spend_grant s cg hook) = events s"
  by (simp_all add: spend_grant_def)

lemma spend_grant_inv: "state_inv s \<Longrightarrow> state_inv (spend_grant s cg hook)"
proof -
  assume "state_inv s"
  moreover from this have "hash_inv (grant_once (spend_grant s cg hook))"
    using length_AList_delete [of "the_grant_key cg hook" "hm_entries (grant_once s)"]
    by (auto simp: state_inv_def hash_inv_def spend_grant_def distinct_delete)
  ultimately show ?thesis by (simp add: state_inv_def) (simp add: spend_grant_def)
qed

lemma log_decision_inv [simp]: "state_inv (log_decision env cg h d m s) = state_inv s"
  by (simp add: state_inv_def)

lemma init_state_inv: "state_inv init_state"
  by (simp add: state_inv_def init_state_def) (simp add: hash_empty_def)

section \<open>The verdicts in closed form\<close>

lemmas verdict_simps =
  try_consume_grant_eq Let_def EPERM_def

lemma enforce_verdict_g_eq:
  "enforce_verdict_g env hook ret grantable s =
     (let cg = current_cgroup_id env
      in if ret \<noteq> 0 then (ret, s)
         else if is_tcb s cg then (0, s)
         else if \<not> is_armed s hook then (0, log_decision env cg hook 0 0 s)
         else if grantable \<noteq> 0 \<and> live_grant env s cg hook
         then (0, log_decision env cg hook 0 1 (spend_grant s cg hook))
         else (- EPERM, log_decision env cg hook 1 1 s))"
  by (simp add: enforce_verdict_g_def verdict_simps)

lemma enforce_gain_eq:
  "enforce_gain env hook ret gain s =
     (let cg = current_cgroup_id env
      in if ret \<noteq> 0 then (ret, s)
         else if gain = 0 \<or> is_tcb s cg then (0, s)
         else if \<not> is_armed s hook then (0, log_decision env cg hook 1 0 s)
         else if live_grant env s cg hook
         then (0, log_decision env cg hook 0 1 (spend_grant s cg hook))
         else (- EPERM, log_decision env cg hook 1 1 s))"
  by (simp add: enforce_gain_def verdict_simps)

text \<open>Whether the manifest of the cgroup excludes the destination class.\<close>

definition egress_excluded :: "bpf_state \<Rightarrow> u64 \<Rightarrow> u32 \<Rightarrow> bool" where
  "egress_excluded s cg cls =
     (\<not> is_tcb s cg \<and>
      (case hash_lookup (egress_policy s) cg of None \<Rightarrow> False | Some allowed \<Rightarrow> allowed AND cls = 0))"

lemma prov_socket_connect_eq:
  "prov_socket_connect_body env sock address addrlen ret s =
     (let cg = current_cgroup_id env;
          excluded = egress_excluded s cg (classify_dest env address addrlen);
          armed = is_armed s HOOK_CONNECT
      in if ret \<noteq> 0 then (ret, s)
         else (if excluded \<and> armed then - EPERM else 0,
               log_decision env cg HOOK_CONNECT (if excluded then 1 else 0)
                 (if excluded \<and> armed then 1 else 0) s))"
  by (auto simp: prov_socket_connect_body_def egress_excluded_def Let_def split: option.split)

end
