(* ===== verification/Hook_Policy.thy ===== *)
theory Hook_Policy
  imports Provenance
begin

unbundle bit_operations_syntax

text \<open>
  The policy the five programs implement, stated without maps, logs or C integers, and
  the proof that each program refines it. An abstract policy says which cgroups are
  trusted, which hooks are armed, which destination classes a cgroup may reach and
  which single-use grants are outstanding; a request is allowed unless it is restricted
  by that policy, its hook is armed and no grant pays for it.
\<close>

section \<open>Invocations\<close>

text \<open>A call of one of the hooks with the arguments the kernel passes.\<close>

datatype invocation =
    SocketConnect u64 u64 c_int
  | Bpf c_int u64 u32
  | PtraceAccessCheck u64 u32
  | TaskFixSetuid u64 u64 c_int
  | Capset u64 u64 u64 u64 u64

fun run_hook :: "kernel_env \<Rightarrow> invocation \<Rightarrow> c_int \<Rightarrow> bpf_state \<Rightarrow> c_int \<times> bpf_state" where
  "run_hook env (SocketConnect sock address addrlen) ret s =
     prov_socket_connect_body env sock address addrlen ret s"
| "run_hook env (Bpf cmd attr n) ret s = enforce_bpf_body env cmd attr n ret s"
| "run_hook env (PtraceAccessCheck child mode) ret s = enforce_ptrace_body env child mode ret s"
| "run_hook env (TaskFixSetuid new old flags) ret s = enforce_setuid_body env new old flags ret s"
| "run_hook env (Capset new old e i p) ret s = enforce_capset_body env new old e i p ret s"

fun hook_id :: "invocation \<Rightarrow> u32" where
  "hook_id (SocketConnect _ _ _) = HOOK_CONNECT"
| "hook_id (Bpf _ _ _) = HOOK_BPF"
| "hook_id (PtraceAccessCheck _ _) = HOOK_PTRACE"
| "hook_id (TaskFixSetuid _ _ _) = HOOK_SETUID"
| "hook_id (Capset _ _ _ _ _) = HOOK_CAPSET"

section \<open>The abstract policy\<close>

datatype request =
    Connect u32
  | BpfSyscall
  | Ptrace
  | GainRoot bool
  | GainCaps bool

record policy =
  p_tcb :: "u64 \<Rightarrow> bool"
  p_armed :: "u32 \<Rightarrow> bool"
  p_manifest :: "u64 \<Rightarrow> u32 option"
  p_grants :: "u64 \<times> u32 \<Rightarrow> u64 option"

fun request_hook :: "request \<Rightarrow> u32" where
  "request_hook (Connect _) = HOOK_CONNECT"
| "request_hook BpfSyscall = HOOK_BPF"
| "request_hook Ptrace = HOOK_PTRACE"
| "request_hook (GainRoot _) = HOOK_SETUID"
| "request_hook (GainCaps _) = HOOK_CAPSET"

fun grantable :: "request \<Rightarrow> bool" where
  "grantable Ptrace = True"
| "grantable (GainRoot _) = True"
| "grantable (GainCaps _) = True"
| "grantable _ = False"

fun restricted :: "policy \<Rightarrow> u64 \<Rightarrow> request \<Rightarrow> bool" where
  "restricted P cg (Connect cls) =
     (\<not> p_tcb P cg \<and> (case p_manifest P cg of None \<Rightarrow> False | Some classes \<Rightarrow> classes AND cls = 0))"
| "restricted P cg (GainRoot gain) = (\<not> p_tcb P cg \<and> gain)"
| "restricted P cg (GainCaps gain) = (\<not> p_tcb P cg \<and> gain)"
| "restricted P cg _ = (\<not> p_tcb P cg)"

definition has_grant :: "policy \<Rightarrow> u64 \<Rightarrow> u64 \<Rightarrow> u32 \<Rightarrow> bool" where
  "has_grant P now cg hook =
     (case p_grants P (cg, hook) of None \<Rightarrow> False | Some expire \<Rightarrow> expire = 0 \<or> now \<le> expire)"

definition authorize :: "policy \<Rightarrow> u64 \<Rightarrow> u64 \<Rightarrow> request \<Rightarrow> bool \<times> policy" where
  "authorize P now cg r =
     (if \<not> restricted P cg r \<or> \<not> p_armed P (request_hook r) then (True, P)
      else if grantable r \<and> has_grant P now cg (request_hook r)
      then (True, P\<lparr>p_grants := (p_grants P)((cg, request_hook r) := None)\<rparr>)
      else (False, P))"

section \<open>Abstraction\<close>

fun request_of :: "kernel_env \<Rightarrow> invocation \<Rightarrow> request" where
  "request_of env (SocketConnect sock address addrlen) = Connect (classify_dest env address addrlen)"
| "request_of env (Bpf _ _ _) = BpfSyscall"
| "request_of env (PtraceAccessCheck _ _) = Ptrace"
| "request_of env (TaskFixSetuid new old _) = GainRoot (setuid_gain env new old \<noteq> 0)"
| "request_of env (Capset new old e i p) = GainCaps (capset_gain env old e i p \<noteq> 0)"

definition unused_grant :: "bpf_state \<Rightarrow> u64 \<times> u32 \<Rightarrow> u64 option" where
  "unused_grant s k =
     (case hash_lookup (grant_once s) (the_grant_key (fst k) (snd k)) of
        None \<Rightarrow> None
      | Some v \<Rightarrow> if gv_count v = 1 then Some (gv_expire_ns v) else None)"

definition policy_of :: "bpf_state \<Rightarrow> policy" where
  "policy_of s =
     \<lparr>p_tcb = is_tcb s, p_armed = is_armed s, p_manifest = hash_lookup (egress_policy s),
      p_grants = unused_grant s\<rparr>"

lemma policy_of_log_decision [simp]: "policy_of (log_decision env cg h d m s) = policy_of s"
  by (simp add: policy_of_def unused_grant_def is_tcb_def is_armed_def fun_eq_iff)

lemma policy_of_spend_grant:
  "policy_of (spend_grant s cg hook) =
     (policy_of s)\<lparr>p_grants := (p_grants (policy_of s))((cg, hook) := None)\<rparr>"
  by (auto simp: policy_of_def unused_grant_def is_tcb_def is_armed_def lookup_spend_grant fun_eq_iff)

lemma has_grant_live: "has_grant (policy_of s) (ktime_ns env) cg hook = live_grant env s cg hook"
  by (cases "hash_lookup (grant_once s) (the_grant_key cg hook)")
    (simp_all add: has_grant_def live_grant_def policy_of_def unused_grant_def)

lemma policy_of_simps [simp]:
  "p_tcb (policy_of s) = is_tcb s" "p_armed (policy_of s) = is_armed s"
  "p_manifest (policy_of s) = hash_lookup (egress_policy s)"
  by (simp_all add: policy_of_def)

section \<open>Refinement\<close>

lemmas hook_bodies =
  enforce_bpf_body_def enforce_verdict_def enforce_ptrace_body_def enforce_setuid_body_def
  enforce_capset_body_def enforce_verdict_g_eq enforce_gain_eq prov_socket_connect_eq

definition verdict_code :: "bool \<Rightarrow> c_int" where
  "verdict_code allowed = (if allowed then 0 else - EPERM)"

lemma request_hook_of: "request_hook (request_of env i) = hook_id i"
  by (cases i) simp_all

lemma run_hook_prior_deny: "ret \<noteq> 0 \<Longrightarrow> run_hook env i ret s = (ret, s)"
  by (cases i) (simp_all add: hook_bodies Let_def)

lemma run_hook_authorize:
  "fst (run_hook env i 0 s) =
     verdict_code (fst (authorize (policy_of s) (ktime_ns env) (current_cgroup_id env) (request_of env i)))"
  by (cases i) (auto simp: hook_bodies authorize_def has_grant_live verdict_code_def
      egress_excluded_def Let_def split: option.split)

lemma run_hook_policy:
  "policy_of (snd (run_hook env i 0 s)) =
     snd (authorize (policy_of s) (ktime_ns env) (current_cgroup_id env) (request_of env i))"
  by (cases i) (auto simp: hook_bodies authorize_def has_grant_live policy_of_spend_grant
      egress_excluded_def Let_def split: option.split)

section \<open>Effect on the state\<close>

text \<open>
  The state after a hook is the old one with at most one grant spent (that of the current
  cgroup for this hook) and at most one event appended.
\<close>

definition spends :: "kernel_env \<Rightarrow> invocation \<Rightarrow> c_int \<Rightarrow> bpf_state \<Rightarrow> bool" where
  "spends env i ret s \<longleftrightarrow>
     ret = 0 \<and> grantable (request_of env i) \<and> restricted (policy_of s) (current_cgroup_id env) (request_of env i)
     \<and> is_armed s (hook_id i) \<and> live_grant env s (current_cgroup_id env) (hook_id i)"

lemma run_hook_spends:
  "spends env i ret s \<Longrightarrow>
   run_hook env i ret s = (0, log_decision env (current_cgroup_id env) (hook_id i) 0 1
      (spend_grant s (current_cgroup_id env) (hook_id i)))"
  by (cases i) (auto simp: spends_def hook_bodies Let_def)

lemma run_hook_keeps:
  fixes env :: kernel_env and i :: invocation
  defines "log \<equiv> log_decision env (current_cgroup_id env) (hook_id i)"
  assumes "\<not> spends env i ret s"
  shows "snd (run_hook env i ret s) \<in> {s, log 0 0 s, log 1 0 s, log 1 1 s}"
  using assms(2) unfolding log_def
  by (cases i) (auto simp: spends_def hook_bodies Let_def)

lemma run_hook_state:
  obtains (same) "snd (run_hook env i ret s) = s"
  | (logged) d m where "(d, m) \<noteq> (0, 1)" "snd (run_hook env i ret s) =
      log_decision env (current_cgroup_id env) (hook_id i) d m s"
  | (spent) "spends env i ret s" "snd (run_hook env i ret s) =
      log_decision env (current_cgroup_id env) (hook_id i) 0 1
        (spend_grant s (current_cgroup_id env) (hook_id i))"
proof (cases "spends env i ret s")
  case True
  with run_hook_spends [OF True] show ?thesis by (intro spent) simp_all
next
  case False
  from run_hook_keeps [OF False] show ?thesis
    using same logged [of 0 0] logged [of 1 0] logged [of 1 1] by auto
qed

lemma run_hook_inv: "state_inv s \<Longrightarrow> state_inv (snd (run_hook env i ret s))"
  by (cases env i ret s rule: run_hook_state) (simp_all add: spend_grant_inv)

section \<open>Properties\<close>

text \<open>
  C1: the five programs implement the policy. On a call that no earlier security module
  has denied, a program returns 0 exactly when the abstract policy of the maps
  authorizes the request, \<open>-EPERM\<close> otherwise, and the policy the maps describe
  afterwards is the one the abstract decision leaves (only a spent grant is gone).
\<close>

theorem hooks_refine_policy:
  "let (allowed, P) = authorize (policy_of s) (ktime_ns env) (current_cgroup_id env) (request_of env i);
       (verdict, s') = run_hook env i 0 s
   in verdict = (if allowed then 0 else - EPERM) \<and> policy_of s' = P"
  using run_hook_authorize [of env i s] run_hook_policy [of env i s]
  by (simp add: verdict_code_def case_prod_beta Let_def)

text \<open>
  C18: the one-way ratchet. If an earlier module denied the call, every program
  returns that very denial and changes nothing; otherwise its verdict is 0 or \<open>-EPERM\<close>.
\<close>

theorem hooks_only_add_denials:
  "run_hook env i ret s = (if ret \<noteq> 0 then (ret, s) else run_hook env i 0 s)
   \<and> fst (run_hook env i 0 s) \<in> {0, - EPERM}"
  using run_hook_prior_deny [of ret env i s] run_hook_authorize [of env i s]
  by (simp add: verdict_code_def)

text \<open>
  \<open>bpf()\<close> cannot be granted. When its hook is armed, a call from a cgroup outside the
  trusted set is denied whatever grants are in the map, and the map of grants is left
  as it was.
\<close>

theorem bpf_not_grantable:
  assumes "is_armed s HOOK_BPF" "\<not> is_tcb s (current_cgroup_id env)"
  shows "fst (run_hook env (Bpf cmd attr n) 0 s) = - EPERM
    \<and> grant_once (snd (run_hook env (Bpf cmd attr n) 0 s)) = grant_once s"
  using assms by (simp add: hook_bodies Let_def)

text \<open>A state with the \<open>bpf\<close> hook armed and a grant written for it.\<close>

definition armed_state :: bpf_state where
  "armed_state =
     init_state\<lparr>enforce_flags := [1, 1, 0, 1, 1, 1, 0, 0],
       egress_policy := (hash_empty 1024)\<lparr>hm_entries := [(7, DST_LOOPBACK OR DST_PUBLIC)]\<rparr>,
       grant_once := (hash_empty 256)\<lparr>hm_entries :=
         [(the_grant_key 7 HOOK_BPF, \<lparr>gv_count = 1, gv_expire_ns = 0\<rparr>),
          (the_grant_key 7 HOOK_PTRACE, \<lparr>gv_count = 1, gv_expire_ns = 0\<rparr>)]\<rparr>\<rparr>"

lemma armed_state_simps:
  "is_armed armed_state HOOK_BPF" "is_armed armed_state HOOK_PTRACE" "is_armed armed_state HOOK_CONNECT"
  "is_armed armed_state HOOK_SETUID" "is_armed armed_state HOOK_CAPSET" "\<not> is_tcb armed_state 7"
  by (simp_all add: is_armed_def is_one_def array_lookup_def armed_state_def is_tcb_def init_state_def
      HOOK_defs)

lemma armed_state_no_grant: "h \<notin> {HOOK_BPF, HOOK_PTRACE} \<Longrightarrow> \<not> live_grant env armed_state 7 h"
  by (auto simp: live_grant_def armed_state_def hash_lookup_def HOOK_defs the_grant_key_def)

lemma armed_state_inv: "state_inv armed_state"
  by (simp add: state_inv_def armed_state_def init_state_def hash_inv_def the_grant_key_def HOOK_defs)
    (simp add: hash_empty_def)

theorem bpf_not_grantable_witness:
  "fst (run_hook (region_env Little 0 []) (Bpf 0 0 0) 0 armed_state) = - EPERM"
  using bpf_not_grantable [of armed_state "region_env Little 0 []" 0 0 0]
  by (simp add: armed_state_simps)

text \<open>
  No program writes the policy. The enforce flags, the trusted set and the egress
  manifests are untouched, the invariant of the maps is kept, and the map of grants can
  only lose entries: for every key the entry after the call is the old one or none, and
  it is the old one unless the key is that of the current cgroup and this hook.
\<close>

theorem hooks_preserve_policy_maps:
  fixes env :: kernel_env and i :: invocation and ret :: c_int and s :: bpf_state
  assumes "state_inv s"
  defines "s' \<equiv> snd (run_hook env i ret s)"
  shows "state_inv s' \<and> enforce_flags s' = enforce_flags s \<and> tcb_cgroups s' = tcb_cgroups s
    \<and> egress_policy s' = egress_policy s
    \<and> (\<forall>k. hash_lookup (grant_once s') k = hash_lookup (grant_once s) k
         \<or> k = the_grant_key (current_cgroup_id env) (hook_id i) \<and> hash_lookup (grant_once s') k = None)"
proof -
  have "state_inv s'" using assms by (simp add: run_hook_inv)
  then show ?thesis
    unfolding s'_def
    by (cases env i ret s rule: run_hook_state) (simp_all add: lookup_spend_grant)
qed

theorem hooks_preserve_policy_maps_witness:
  "enforce_flags (snd (run_hook (region_env Little 0 []) (PtraceAccessCheck 0 0) 0 armed_state))
     = [1, 1, 0, 1, 1, 1, 0, 0]"
  using hooks_preserve_policy_maps [OF armed_state_inv, of "region_env Little 0 []" "PtraceAccessCheck 0 0" 0]
  by (simp add: armed_state_def)

text \<open>
  Every outbound connect is recorded. With room in the ring buffer a connect that
  no earlier module denied appends exactly one event, of the calling cgroup and thread
  group, whose decision says whether the manifest excludes the destination and whose
  mode says whether the hook enforced it; the connect fails exactly when both are 1.
\<close>

theorem connect_logged:
  assumes "ringbuf_room env"
  shows "\<exists>decision mode verdict.
    run_hook env (SocketConnect sock address addrlen) 0 s =
      (verdict, s\<lparr>events := events s @
         [\<lparr>ev_cgroup_id = current_cgroup_id env, ev_pid = ucast (drop_bit 32 (current_pid_tgid env)),
           ev_comm = current_comm env, ev_hook = HOOK_CONNECT, ev_decision = decision, ev_mode = mode\<rparr>]\<rparr>)
    \<and> decision = (if restricted (policy_of s) (current_cgroup_id env)
                       (Connect (classify_dest env address addrlen)) then 1 else 0)
    \<and> mode = (if decision = 1 \<and> is_armed s HOOK_CONNECT then 1 else 0)
    \<and> (verdict = - EPERM \<longleftrightarrow> decision = 1 \<and> mode = 1) \<and> (verdict = 0 \<longleftrightarrow> mode = 0)"
  using assms
  by (simp add: prov_socket_connect_eq egress_excluded_def log_decision_def Let_def EPERM_def
      split: option.split)

theorem connect_logged_witness:
  "ringbuf_room (region_env Little 4096 metadata_v6)
   \<and> length (events (snd (run_hook (region_env Little 4096 metadata_v6) (SocketConnect 0 4096 28) 0
       armed_state))) = 1"
  using connect_logged [of "region_env Little 4096 metadata_v6" 0 4096 28 armed_state]
  by (auto simp: armed_state_def init_state_def)

text \<open>
  The two ways an unarmed hook records what it would have denied. For a cgroup
  outside the trusted set, an unarmed ptrace or bpf hook records decision 0 and mode 0,
  whereas an unarmed privilege-gain hook records a gain as decision 1 and mode 0; both
  allow the call.
\<close>

theorem observe_decisions_differ:
  assumes "\<not> is_tcb s (current_cgroup_id env)" "\<not> is_armed s (hook_id i)"
    and "i = PtraceAccessCheck child mode \<or> i = Bpf cmd attr n"
    and "\<not> is_armed s HOOK_SETUID" "setuid_gain env new old \<noteq> 0"
  shows "run_hook env i 0 s = (0, log_decision env (current_cgroup_id env) (hook_id i) 0 0 s)
    \<and> run_hook env (TaskFixSetuid new old flags) 0 s =
        (0, log_decision env (current_cgroup_id env) HOOK_SETUID 1 0 s)"
  using assms by (auto simp: hook_bodies Let_def)

theorem observe_decisions_differ_witness:
  "run_hook (region_env Little 4096 (replicate 28 0)) (Bpf 0 0 0) 0 init_state =
     (0, log_decision (region_env Little 4096 (replicate 28 0)) 7 HOOK_BPF 0 0 init_state)
   \<and> run_hook (region_env Little 4096 (replicate 28 0)) (TaskFixSetuid 4096 65536 0) 0 init_state =
     (0, log_decision (region_env Little 4096 (replicate 28 0)) 7 HOOK_SETUID 1 0 init_state)"
proof -
  let ?env = "region_env Little 4096 (replicate 28 0)"
  have unarmed: "\<not> is_armed init_state h" for h
  proof (cases "unat h < 8")
    case True
    then show ?thesis by (simp add: is_armed_def is_one_def array_lookup_def init_state_def)
  qed (simp add: is_armed_def is_one_def array_lookup_def init_state_def)
  have untrusted: "\<not> is_tcb init_state 7" by (simp add: is_tcb_def is_one_def init_state_def)
  have "probe_read_word ?env (1 :: u32) (field_addr 4096 struct_cred [''euid'', ''val'']) = 0"
    using env_reads_word [OF env_reads_region_env cred_offsets(1), of "replicate 28 0" Little 4096 "1 :: u32"]
    by simp
  moreover have "probe_read_word ?env (1 :: u32) (field_addr 65536 struct_cred [''euid'', ''val'']) = 1"
    by (rule read_keeps_word) (simp_all add: read_keeps_def region_env_def region_read_def
        field_addr_def cred_offsets)
  ultimately have gain: "setuid_gain ?env 4096 65536 \<noteq> 0"
    by (simp add: setuid_gain_def Let_def c_bool_def)
  show ?thesis
    using observe_decisions_differ [of init_state ?env "Bpf 0 0 0" 0 0 0 0 0 4096 65536 0] gain
    by (simp add: unarmed untrusted)
qed

end
