(* ===== verification/Object_Abi.thy ===== *)
theory Object_Abi
  imports Provenance
begin

text \<open>
  The contracts at the borders of the BPF object. Towards the kernel: the parameters of
  every program against the LSM hook prototypes of \<open>vmlinux.h\<close>, and the map types, key
  and value sizes of the map declarations. Towards the collector: the bytes of a ring
  buffer record and of a grant entry against the decoder in \<open>runCollector\<close>
  (\<^verbatim>\<open>src/collector/main.go\<close>) and the structs of \<^verbatim>\<open>src/collector/bpf_bpfel.go\<close>.
\<close>

section \<open>Hooks\<close>

definition lsm_hook :: "string \<Rightarrow> ctype option" where
  "lsm_hook name = map_of (security_list_options_1 @ security_list_options_2) name"

fun fn_pointer_params :: "ctype option \<Rightarrow> ctype list option" where
  "fn_pointer_params (Some (CPtr (CFun CInt ps False))) = Some ps"
| "fn_pointer_params _ = None"

definition program_matches_hook :: "string \<times> string \<times> ctype list \<Rightarrow> bool" where
  "program_matches_hook prog =
     (case prog of (section, name, params) \<Rightarrow>
        take 4 section = ''lsm/'' \<and>
        fn_pointer_params (lsm_hook (drop 4 section)) = Some (butlast params) \<and>
        last params = CInt \<and> length params \<le> 12)"

lemma lsm_hooks:
  "lsm_hook ''socket_connect'' = Some (CPtr (CFun CInt
     [CPtr (CTag ''struct socket''), CPtr (CTag ''struct sockaddr''), CInt] False))"
  "lsm_hook ''bpf'' = Some (CPtr (CFun CInt [CInt, CPtr (CTag ''union bpf_attr''), CUInt] False))"
  "lsm_hook ''ptrace_access_check'' =
     Some (CPtr (CFun CInt [CPtr (CTag ''struct task_struct''), CUInt] False))"
  "lsm_hook ''task_fix_setuid'' = Some (CPtr (CFun CInt
     [CPtr (CTag ''struct cred''), CPtr (CConst (CTag ''struct cred'')), CInt] False))"
  "lsm_hook ''capset'' = Some (CPtr (CFun CInt
     [CPtr (CTag ''struct cred''), CPtr (CConst (CTag ''struct cred'')), CPtr (CConst kernel_cap_t),
      CPtr (CConst kernel_cap_t), CPtr (CConst kernel_cap_t)] False))"
  by (simp_all only: lsm_hook_def security_list_options_1_def security_list_options_2_def append.simps
      map_of.simps fst_conv snd_conv fun_upd_apply if_True if_False list.inject list.distinct
      char.inject simp_thms)

text \<open>
  Every program takes exactly the parameters of the LSM hook its section names,
  followed by the \<open>int\<close> verdict of the earlier modules, and few enough for \<open>BPF_PROG\<close>.
\<close>

theorem programs_match_hooks: "list_all program_matches_hook lsm_programs"
  by (simp add: lsm_programs_def program_matches_hook_def lsm_hooks)

text \<open>
  With a context that holds all arguments, each generated entry point runs its
  body on the arguments in order, integers truncated to 32 bits.
\<close>

theorem entry_points:
  "prov_socket_connect env [a, b, c, d] s = Some (prov_socket_connect_body env a b (ucast c) (ucast d) s)
   \<and> enforce_bpf env [a, b, c, d] s = Some (enforce_bpf_body env (ucast a) b (ucast c) (ucast d) s)
   \<and> enforce_ptrace env [a, b, c] s = Some (enforce_ptrace_body env a (ucast b) (ucast c) s)
   \<and> enforce_setuid env [a, b, c, d] s = Some (enforce_setuid_body env a b (ucast c) (ucast d) s)
   \<and> enforce_capset env [a, b, c, d, e, f] s = Some (enforce_capset_body env a b c d e (ucast f) s)"
  by (simp add: prov_socket_connect_def enforce_bpf_def enforce_ptrace_def enforce_setuid_def
      enforce_capset_def BPF_PROG_body)

section \<open>Maps\<close>

definition map_kind :: "ctype \<Rightarrow> string option" where
  "map_kind decl =
     (case uint_attr decl ''type'' of
        Some n \<Rightarrow> map_of (map (\<lambda>(name, v). (v, name)) bpf_map_type) n
      | None \<Rightarrow> None)"

definition map_sizes :: "ctype \<Rightarrow> (nat \<times> nat) option" where
  "map_sizes decl =
     (case (type_attr decl ''key'', type_attr decl ''value'') of
        (Some k, Some v) \<Rightarrow> Some (sizeof k, sizeof v)
      | _ \<Rightarrow> None)"

text \<open>
  The map declarations are what the state of the model holds: their kinds, key and
  value sizes and capacities, with a ring buffer of 16 MiB (a power of two).
\<close>

theorem map_declarations:
  "map_kind events_map = Some ''BPF_MAP_TYPE_RINGBUF'' \<and> uint_attr events_map ''max_entries'' = Some (2 ^ 24)
   \<and> map_kind enforce_flags_map = Some ''BPF_MAP_TYPE_ARRAY'' \<and> map_sizes enforce_flags_map = Some (4, 4)
   \<and> uint_attr enforce_flags_map ''max_entries'' = Some (length (enforce_flags init_state))
   \<and> map_kind tcb_cgroups_map = Some ''BPF_MAP_TYPE_HASH'' \<and> map_sizes tcb_cgroups_map = Some (8, 4)
   \<and> uint_attr tcb_cgroups_map ''max_entries'' = Some (hm_max (tcb_cgroups init_state))
   \<and> map_kind egress_policy_map = Some ''BPF_MAP_TYPE_HASH'' \<and> map_sizes egress_policy_map = Some (8, 4)
   \<and> uint_attr egress_policy_map ''max_entries'' = Some (hm_max (egress_policy init_state))
   \<and> map_kind grant_once_map = Some ''BPF_MAP_TYPE_HASH'' \<and> map_sizes grant_once_map = Some (16, 16)
   \<and> uint_attr grant_once_map ''max_entries'' = Some (hm_max (grant_once init_state))"
  by (simp add: layout_simps map_kind_def map_sizes_def bpf_map_type_def init_state_def hash_empty_def)

end
