(* ===== verification/Event_Wire.thy ===== *)
theory Event_Wire
  imports Hook_Policy Object_Abi
begin

text \<open>
  The path of an event from the BPF program to the collector: the bytes of a ring buffer
  record, the decoder of \<open>runCollector\<close> with \<open>decisionName\<close> and \<open>modeName\<close>
  (\<^verbatim>\<open>src/collector/main.go\<close>), and what the decoded event says about the verdict. Also the
  16-byte keys and values of the grant map (\<open>bpfGrantKey\<close>, \<open>bpfGrantVal\<close> of
  \<^verbatim>\<open>src/collector/bpf_bpfel.go\<close>).
\<close>

section \<open>Records as bytes\<close>

text \<open>The memory of a \<open>struct event\<close>: its members in order, which leaves no gap.\<close>

definition event_bytes :: "byte_order \<Rightarrow> event \<Rightarrow> u8 list" where
  "event_bytes ord e =
     store_word ord (ev_cgroup_id e) @ store_word ord (ev_pid e) @ ev_comm e @
     store_word ord (ev_hook e) @ store_word ord (ev_decision e) @ store_word ord (ev_mode e)"

definition grant_key_bytes :: "byte_order \<Rightarrow> grant_key \<Rightarrow> u8 list" where
  "grant_key_bytes ord k = store_word ord (gk_cgid k) @ store_word ord (gk_hook k) @ store_word ord (gk_pad k)"

definition grant_val_bytes :: "byte_order \<Rightarrow> grant_val \<Rightarrow> u8 list" where
  "grant_val_bytes ord v = store_word ord (gv_count v) @ store_word ord (gv_expire_ns v)"

section \<open>The collector's decoder\<close>

text \<open>
  A Go string that comes from the kernel is its bytes; the strings the collector itself
  writes are HOL strings. A missing key of \<open>hookNames\<close> reads as the empty string.
\<close>

record prov_event =
  pe_cgroup_id :: u64
  pe_pid :: u32
  pe_comm :: "u8 list"
  pe_hook :: string
  pe_decision :: string
  pe_mode :: string

definition hookNames :: "(u32 \<times> string) list" where
  "hookNames =
     [(0, ''bpf''), (1, ''ptrace''), (3, ''socket_connect''), (4, ''setuid''), (5, ''capset'')]"

definition hook_name :: "u32 \<Rightarrow> string" where
  "hook_name h = (case map_of hookNames h of Some n \<Rightarrow> n | None \<Rightarrow> '''')"

definition hookID :: "string \<Rightarrow> u32 option" where
  "hookID name = map_option fst (find (\<lambda>(i, n). n = name) hookNames)"

definition decisionName :: "u32 \<Rightarrow> u32 \<Rightarrow> string" where
  "decisionName decision mode =
     (if decision = 0 then ''allowed'' else if mode = 1 then ''denied'' else ''would-deny'')"

definition modeName :: "u32 \<Rightarrow> string" where
  "modeName mode = (if mode = 1 then ''enforce'' else ''observe'')"

definition trim_right_nul :: "u8 list \<Rightarrow> u8 list" where
  "trim_right_nul bs = rev (dropWhile (\<lambda>b. b = 0) (rev bs))"

definition decode_record :: "u8 list \<Rightarrow> prov_event option" where
  "decode_record b =
     (if length b < 40 then None
      else
        let mode = of_nat (le_nat (seg_at 36 4 b));
            hook = hook_name (of_nat (le_nat (seg_at 28 4 b)))
        in Some \<lparr>pe_cgroup_id = of_nat (le_nat (seg_at 0 8 b)),
                 pe_pid = of_nat (le_nat (seg_at 8 4 b)),
                 pe_comm = trim_right_nul (seg_at 12 16 b),
                 pe_hook = (if hook = '''' then ''unknown'' else hook),
                 pe_decision = decisionName (of_nat (le_nat (seg_at 32 4 b))) mode,
                 pe_mode = modeName mode\<rparr>)"

section \<open>Layout\<close>

lemma event_layout:
  "map (\<lambda>x. offsetof struct_event [x]) [''cgroup_id'', ''pid'', ''comm'', ''hook'', ''decision'', ''mode'']
     = [Some 0, Some 8, Some 12, Some 28, Some 32, Some 36]"
  "sizeof struct_event = 40"
  by (simp_all add: layout_simps)

lemma grant_layout:
  "map (\<lambda>x. offsetof struct_grant_key [x]) [''cgid'', ''hook'', ''_pad''] = [Some 0, Some 8, Some 12]"
  "sizeof struct_grant_key = 16"
  "map (\<lambda>x. offsetof struct_grant_val [x]) [''count'', ''expire_ns''] = [Some 0, Some 8]"
  "sizeof struct_grant_val = 16"
  by (simp_all add: layout_simps)

lemma length_event_bytes: "length (ev_comm e) = 16 \<Longrightarrow> length (event_bytes ord e) = sizeof struct_event"
  by (simp add: event_bytes_def event_layout)

lemma store_word_inject:
  assumes "8 * (LENGTH('a) div 8) = LENGTH('a)"
  shows "store_word ord (v :: 'a::len word) = store_word ord w \<longleftrightarrow> v = w"
  using load_store_word [OF assms] by metis

lemma grant_key_bytes_inject: "grant_key_bytes ord k = grant_key_bytes ord k' \<longleftrightarrow> k = k'"
  by (cases k; cases k') (simp add: grant_key_bytes_def store_word_inject)

lemma grant_val_bytes_inject: "grant_val_bytes ord v = grant_val_bytes ord v' \<longleftrightarrow> v = v'"
  by (cases v; cases v') (simp add: grant_val_bytes_def store_word_inject)

lemma le_nat_store_word:
  assumes "8 * (LENGTH('a) div 8) = LENGTH('a)"
  shows "of_nat (le_nat (store_word Little (w :: 'a::len word))) = w"
  using load_store_word [OF assms, of Little w] by (simp add: load_word_def)

lemma event_bytes_fields:
  assumes "length (ev_comm e) = 16"
  shows "seg_at 0 8 (event_bytes ord e) = store_word ord (ev_cgroup_id e)"
    "seg_at 8 4 (event_bytes ord e) = store_word ord (ev_pid e)"
    "seg_at 12 16 (event_bytes ord e) = ev_comm e"
    "seg_at 28 4 (event_bytes ord e) = store_word ord (ev_hook e)"
    "seg_at 32 4 (event_bytes ord e) = store_word ord (ev_decision e)"
    "seg_at 36 4 (event_bytes ord e) = store_word ord (ev_mode e)"
  using assms by (simp_all add: event_bytes_def)

lemma decode_event:
  assumes "length (ev_comm e) = 16" "map_of hookNames (ev_hook e) = Some name"
  shows "decode_record (event_bytes Little e) =
      Some \<lparr>pe_cgroup_id = ev_cgroup_id e, pe_pid = ev_pid e, pe_comm = trim_right_nul (ev_comm e),
            pe_hook = name, pe_decision = decisionName (ev_decision e) (ev_mode e),
            pe_mode = modeName (ev_mode e)\<rparr>"
proof -
  have "name \<noteq> ''''" using assms(2) by (auto simp: hookNames_def split: if_splits)
  then show ?thesis
    using assms length_event_bytes [OF assms(1), of Little]
    by (simp add: decode_record_def event_layout(2) event_bytes_fields le_nat_store_word hook_name_def Let_def)
qed

section \<open>Properties\<close>

text \<open>
  The layout of a record is the one the collector decodes. The members of
  \<open>struct event\<close> sit at the offsets 0, 8, 12, 28, 32 and 36 of 40 bytes, and decoding the
  bytes of an event gives back its cgroup, its thread group, its command name without
  trailing NULs, and the names of its hook, decision and mode.
\<close>

theorem decode_event_bytes:
  assumes "length (ev_comm e) = 16" "map_of hookNames (ev_hook e) = Some name"
  shows "map (\<lambda>x. offsetof struct_event [x])
      [''cgroup_id'', ''pid'', ''comm'', ''hook'', ''decision'', ''mode''] =
        [Some 0, Some 8, Some 12, Some 28, Some 32, Some 36]
    \<and> length (event_bytes Little e) = sizeof struct_event
    \<and> decode_record (event_bytes Little e) =
      Some \<lparr>pe_cgroup_id = ev_cgroup_id e, pe_pid = ev_pid e, pe_comm = trim_right_nul (ev_comm e),
            pe_hook = name, pe_decision = decisionName (ev_decision e) (ev_mode e),
            pe_mode = modeName (ev_mode e)\<rparr>"
  using decode_event [OF assms] length_event_bytes [OF assms(1)] event_layout(1) by blast

theorem decode_event_bytes_witness:
  "decode_record (event_bytes Little \<lparr>ev_cgroup_id = 7, ev_pid = 42, ev_comm = 65 # replicate 15 0,
     ev_hook = HOOK_PTRACE, ev_decision = 1, ev_mode = 1\<rparr>) =
   Some \<lparr>pe_cgroup_id = 7, pe_pid = 42, pe_comm = [65], pe_hook = ''ptrace'', pe_decision = ''denied'',
     pe_mode = ''enforce''\<rparr>"
  using decode_event_bytes [of "\<lparr>ev_cgroup_id = 7, ev_pid = 42, ev_comm = 65 # replicate 15 0,
     ev_hook = HOOK_PTRACE, ev_decision = 1, ev_mode = 1\<rparr>" "''ptrace''"]
  by (simp add: hookNames_def HOOK_PTRACE_def decisionName_def modeName_def trim_right_nul_def
      dropWhile_append)

lemma run_hook_logged:
  assumes "run_hook env i 0 s = (verdict, s')" "events s' \<noteq> events s"
  shows "\<exists>d m. events s' = events s @
      [\<lparr>ev_cgroup_id = current_cgroup_id env, ev_pid = ucast (drop_bit 32 (current_pid_tgid env)),
        ev_comm = current_comm env, ev_hook = hook_id i, ev_decision = d, ev_mode = m\<rparr>]
    \<and> (d, m, verdict) \<in> {(0, 0, 0), (1, 0, 0), (0, 1, 0), (1, 1, - EPERM)}"
  using assms
  by (cases i) (auto simp: hook_bodies Let_def log_decision_def split: if_splits)

lemma decision_names:
  "decisionName 0 m = ''allowed''" "decisionName 1 0 = ''would-deny''" "decisionName 1 1 = ''denied''"
  by (simp_all add: decisionName_def)

lemma decision_tells_verdict:
  assumes "(d, m, verdict) \<in> {(0, 0, 0), (1, 0, 0), (0, 1, 0), (1, 1, - EPERM)}"
  shows "decisionName d m = ''denied'' \<longleftrightarrow> verdict = - EPERM"
    "decisionName d m \<in> {''allowed'', ''would-deny''} \<longleftrightarrow> verdict = 0"
proof -
  consider "d = 0" "verdict = 0" | "d = 1" "m = 0" "verdict = 0" | "d = 1" "m = 1" "verdict = - EPERM"
    using assms by blast
  then show "decisionName d m = ''denied'' \<longleftrightarrow> verdict = - EPERM"
    "decisionName d m \<in> {''allowed'', ''would-deny''} \<longleftrightarrow> verdict = 0"
    by (cases; simp add: decision_names EPERM_def)+
qed

lemma hook_id_named: "\<exists>name. map_of hookNames (hook_id i) = Some name \<and> hookID name = Some (hook_id i)"
  by (cases i) (simp_all add: hookNames_def hookID_def HOOK_defs)

text \<open>
  C32: the audit trail tells the verdict. When a program on a call no earlier module
  denied appends an event, the collector decodes it as an event of the calling cgroup
  under the name of that hook, as \<open>denied\<close> if the verdict is \<open>-EPERM\<close> and as \<open>allowed\<close> or
  \<open>would-deny\<close> if it is 0.
\<close>

theorem decoded_decision_is_verdict:
  assumes "length (current_comm env) = 16" "run_hook env i 0 s = (verdict, s')"
    and "events s' = events s @ [e]"
  shows "\<exists>pe. decode_record (event_bytes Little e) = Some pe
    \<and> pe_cgroup_id pe = current_cgroup_id env \<and> hookID (pe_hook pe) = Some (hook_id i)
    \<and> (pe_decision pe = ''denied'' \<longleftrightarrow> verdict = - EPERM)
    \<and> (pe_decision pe \<in> {''allowed'', ''would-deny''} \<longleftrightarrow> verdict = 0)"
proof -
  have "events s' \<noteq> events s" using assms(3) by simp
  from run_hook_logged [OF assms(2) this] obtain d m where
    e: "e = \<lparr>ev_cgroup_id = current_cgroup_id env, ev_pid = ucast (drop_bit 32 (current_pid_tgid env)),
      ev_comm = current_comm env, ev_hook = hook_id i, ev_decision = d, ev_mode = m\<rparr>"
    and dm: "(d, m, verdict) \<in> {(0, 0, 0), (1, 0, 0), (0, 1, 0), (1, 1, - EPERM)}"
    unfolding assms(3) by blast
  obtain name where name: "map_of hookNames (hook_id i) = Some name" "hookID name = Some (hook_id i)"
    using hook_id_named by blast
  with assms(1) e have dec: "decode_record (event_bytes Little e) =
      Some \<lparr>pe_cgroup_id = current_cgroup_id env, pe_pid = ucast (drop_bit 32 (current_pid_tgid env)),
        pe_comm = trim_right_nul (current_comm env), pe_hook = name,
        pe_decision = decisionName d m, pe_mode = modeName m\<rparr>"
    using decode_event [of e name] by simp
  with name(2) decision_tells_verdict [OF dm] show ?thesis by (simp del: insert_iff)
qed

theorem decoded_decision_is_verdict_witness:
  "\<exists>e pe. events (snd (run_hook (region_env Little 0 []) (Bpf 0 0 0) 0 armed_state)) = [e]
    \<and> decode_record (event_bytes Little e) = Some pe \<and> pe_decision pe = ''denied''"
proof -
  let ?env = "region_env Little 0 []"
  define e where "e = \<lparr>ev_cgroup_id = 7, ev_pid = 0, ev_comm = replicate 16 0, ev_hook = HOOK_BPF,
    ev_decision = 1, ev_mode = 1\<rparr>"
  have run: "run_hook ?env (Bpf 0 0 0) 0 armed_state = (- EPERM, armed_state\<lparr>events := [e]\<rparr>)"
    using armed_state_simps by (simp add: hook_bodies Let_def log_decision_def e_def region_env_def)
      (simp add: armed_state_def init_state_def)
  from decoded_decision_is_verdict [OF _ run, of e] obtain pe where
    "decode_record (event_bytes Little e) = Some pe" "pe_decision pe = ''denied''"
    by (auto simp: region_env_def armed_state_def init_state_def)
  with run show ?thesis by auto
qed

end
