(* ===== verification/Privilege_Gain.thy ===== *)
theory Privilege_Gain
  imports Hook_Policy
begin

unbundle bit_operations_syntax

text \<open>
  The two privilege-gain hooks \<open>enforce_setuid\<close> and \<open>enforce_capset\<close> of
  \<^verbatim>\<open>src/collector/provenance.bpf.c\<close>, in terms of the credentials in memory: what counts as a
  gain when the credentials can be read, and what a read that fails amounts to.
\<close>

section \<open>Credentials in memory\<close>

text \<open>The fields of a \<open>struct cred\<close> whose bytes are \<open>bs\<close>, at the offsets of \<open>vmlinux.h\<close>.\<close>

definition cred_field :: "byte_order \<Rightarrow> string \<Rightarrow> u8 list \<Rightarrow> 'a::len word" where
  "cred_field ord name bs =
     (case offsetof struct_cred [name, ''val''] of
        Some off \<Rightarrow> load_word ord (seg_at off (LENGTH('a) div 8) bs)
      | None \<Rightarrow> 0)"

abbreviation cred_euid :: "byte_order \<Rightarrow> u8 list \<Rightarrow> u32" where
  "cred_euid ord \<equiv> cred_field ord ''euid''"

abbreviation cred_caps :: "byte_order \<Rightarrow> string \<Rightarrow> u8 list \<Rightarrow> u64" where
  "cred_caps \<equiv> cred_field"

lemma read_euid:
  assumes "env_reads env p bs" "28 \<le> length bs"
  shows "probe_read_word env (dst :: u32) (field_addr p struct_cred [''euid'', ''val''])
    = cred_euid (target_order env) bs"
  using env_reads_word [OF assms(1) cred_offsets(1), of dst] assms(2)
  by (simp add: cred_field_def cred_offsets)

lemma read_caps:
  assumes "env_reads env p bs" "72 \<le> length bs"
  shows "probe_read_word env (dst :: u64) (field_addr p struct_cred [''cap_inheritable'', ''val''])
      = cred_caps (target_order env) ''cap_inheritable'' bs"
    "probe_read_word env (dst :: u64) (field_addr p struct_cred [''cap_permitted'', ''val''])
      = cred_caps (target_order env) ''cap_permitted'' bs"
    "probe_read_word env (dst :: u64) (field_addr p struct_cred [''cap_effective'', ''val''])
      = cred_caps (target_order env) ''cap_effective'' bs"
  using env_reads_word [OF assms(1) cred_offsets(2), of dst] env_reads_word [OF assms(1) cred_offsets(3), of dst]
    env_reads_word [OF assms(1) cred_offsets(4), of dst] assms(2)
  by (simp_all add: cred_field_def cred_offsets)

text \<open>\<open>caps_subset a b\<close>: every capability of \<open>a\<close> is in \<open>b\<close>.\<close>

definition caps_subset :: "u64 \<Rightarrow> u64 \<Rightarrow> bool" where
  "caps_subset a b \<longleftrightarrow> (\<forall>n < 64. bit a n \<longrightarrow> bit b n)"

lemma and_not_eq_0: "(a :: u64) AND NOT b = 0 \<longleftrightarrow> caps_subset a b"
proof
  assume "a AND NOT b = 0"
  then have "\<not> bit (a AND NOT b) n" for n by simp
  then show "caps_subset a b" by (auto simp: caps_subset_def bit_simps)
next
  assume "caps_subset a b"
  then show "a AND NOT b = 0"
    by (intro bit_word_eqI) (auto simp: caps_subset_def bit_simps)
qed

lemma c_bool_eq_0 [simp]: "c_bool b = 0 \<longleftrightarrow> \<not> b"
  by (simp add: c_bool_def)

lemma setuid_gain_creds:
  assumes "env_reads env new nb" "28 \<le> length nb" "env_reads env old ob" "28 \<le> length ob"
  shows "setuid_gain env new old \<noteq> 0 \<longleftrightarrow>
    cred_euid (target_order env) nb = 0 \<and> cred_euid (target_order env) ob \<noteq> 0"
  by (simp add: setuid_gain_def Let_def read_euid [OF assms(1,2)] read_euid [OF assms(3,4)])

lemma capset_gain_creds:
  assumes "env_reads env old ob" "72 \<le> length ob"
    and "env_reads env effective eb" "length eb = 8"
    and "env_reads env inheritable ib" "length ib = 8"
    and "env_reads env permitted pb" "length pb = 8"
  shows "capset_gain env old effective inheritable permitted = 0 \<longleftrightarrow>
    caps_subset (load_word (target_order env) eb) (cred_caps (target_order env) ''cap_effective'' ob)
    \<and> caps_subset (load_word (target_order env) pb) (cred_caps (target_order env) ''cap_permitted'' ob)
    \<and> caps_subset (load_word (target_order env) ib) (cred_caps (target_order env) ''cap_inheritable'' ob)"
  using env_reads_word_at [OF assms(3), where 'a = 64] env_reads_word_at [OF assms(5), where 'a = 64]
    env_reads_word_at [OF assms(7), where 'a = 64] assms(4,6,8)
  by (simp add: capset_gain_def Let_def read_caps [OF assms(1,2)] and_not_eq_0 conj_ac)

section \<open>Properties\<close>

text \<open>
  C19: \<open>enforce_setuid\<close> denies exactly the acquisition of effective root. With both
  credentials readable, a call no earlier module denied fails if and only if the new
  effective uid is 0 and the old one is not, the cgroup is not trusted, the hook is
  armed, and no live grant pays for it; in particular every drop is allowed.
\<close>

theorem setuid_denies_root_gain:
  assumes "env_reads env new nb" "28 \<le> length nb" "env_reads env old ob" "28 \<le> length ob"
  shows "fst (run_hook env (TaskFixSetuid new old flags) 0 s) = - EPERM \<longleftrightarrow>
    cred_euid (target_order env) nb = 0 \<and> cred_euid (target_order env) ob \<noteq> 0
    \<and> \<not> is_tcb s (current_cgroup_id env) \<and> is_armed s HOOK_SETUID
    \<and> \<not> live_grant env s (current_cgroup_id env) HOOK_SETUID"
  using setuid_gain_creds [OF assms]
  by (auto simp: hook_bodies Let_def EPERM_def)

text \<open>Two adjacent credentials, the first with effective uid 0 and the second with 1000.\<close>

definition cred_pair :: "u8 list" where
  "cred_pair = replicate 32 0 @ replicate 24 0 @ [232, 3, 0, 0]"

theorem setuid_denies_root_gain_witness:
  "fst (run_hook (region_env Little 4096 cred_pair) (TaskFixSetuid 4096 4128 0) 0 armed_state) = - EPERM"
proof -
  define env where "env = region_env Little 4096 cred_pair"
  have reads: "env_reads env 4096 cred_pair"
    unfolding env_def by (rule env_reads_region_env) (simp add: cred_pair_def)
  let ?nb = "replicate 32 0 :: u8 list"
  let ?ob = "replicate 24 0 @ [232, 3, 0, 0] :: u8 list"
  have pair: "cred_pair = ?nb @ ?ob" by (simp add: cred_pair_def)
  have new: "env_reads env 4096 ?nb"
    using reads unfolding pair by (rule env_reads_append_left)
  have "env_reads env (4096 + of_nat (length ?nb)) ?ob"
    using reads unfolding pair by (rule env_reads_append_right)
  then have old: "env_reads env 4128 ?ob" by simp
  have "fst (run_hook env (TaskFixSetuid 4096 4128 0) 0 armed_state) = - EPERM"
    using setuid_denies_root_gain [OF new _ old, of 0 armed_state] armed_state_simps
      armed_state_no_grant [of HOOK_SETUID env]
    by (simp add: env_def cred_field_def cred_offsets HOOK_defs) (simp add: load_word_def)
  then show ?thesis by (simp add: env_def)
qed

text \<open>
  C20: \<open>enforce_capset\<close> denies exactly the raising of capabilities. With the requested sets
  and the old credential readable, a call no earlier module denied fails if and only if
  some requested set (effective, permitted or inheritable) has a capability the old one
  lacks, the cgroup is not trusted, the hook is armed, and no live grant pays for it.
\<close>

theorem capset_denies_raise:
  assumes "env_reads env old ob" "72 \<le> length ob"
    and "env_reads env effective eb" "length eb = 8"
    and "env_reads env inheritable ib" "length ib = 8"
    and "env_reads env permitted pb" "length pb = 8"
  shows "fst (run_hook env (Capset new old effective inheritable permitted) 0 s) = - EPERM \<longleftrightarrow>
    \<not> (caps_subset (load_word (target_order env) eb) (cred_caps (target_order env) ''cap_effective'' ob)
       \<and> caps_subset (load_word (target_order env) pb) (cred_caps (target_order env) ''cap_permitted'' ob)
       \<and> caps_subset (load_word (target_order env) ib) (cred_caps (target_order env) ''cap_inheritable'' ob))
    \<and> \<not> is_tcb s (current_cgroup_id env) \<and> is_armed s HOOK_CAPSET
    \<and> \<not> live_grant env s (current_cgroup_id env) HOOK_CAPSET"
  using capset_gain_creds [OF assms]
  by (auto simp: hook_bodies Let_def EPERM_def)

text \<open>A credential without capabilities, and a request for \<open>CAP_CHOWN\<close> in all three sets.\<close>

theorem capset_denies_raise_witness:
  "fst (run_hook (region_env Little 4096 ([1, 0, 0, 0, 0, 0, 0, 0] @ replicate 72 0))
     (Capset 0 4104 4096 4096 4096) 0 armed_state) = - EPERM"
proof -
  let ?req = "[1, 0, 0, 0, 0, 0, 0, 0] :: u8 list"
  define env where "env = region_env Little 4096 (?req @ replicate 72 0)"
  have reads: "env_reads env 4096 (?req @ replicate 72 0)"
    unfolding env_def by (rule env_reads_region_env) simp
  then have req: "env_reads env 4096 ?req" by (rule env_reads_append_left)
  have "env_reads env (4096 + of_nat (length ?req)) (replicate 72 0)"
    using reads by (rule env_reads_append_right)
  then have old: "env_reads env 4104 (replicate 72 0)" by simp
  have "\<not> caps_subset 1 0" by (auto simp: caps_subset_def intro: exI [of _ 0])
  then have "fst (run_hook env (Capset 0 4104 4096 4096 4096) 0 armed_state) = - EPERM"
    using capset_denies_raise [OF old _ req _ req _ req, of 0 armed_state] armed_state_simps
      armed_state_no_grant [of HOOK_CAPSET env]
    by (simp add: env_def cred_field_def cred_offsets HOOK_defs) (simp add: load_word_def)
  then show ?thesis by (simp add: env_def)
qed

text \<open>
  Reads that all fail and leave their destinations alone are no gain, so both hooks
  allow the call and log nothing.
\<close>

theorem failed_reads_allow:
  assumes "read_keeps env (field_addr new struct_cred [''euid'', ''val'']) 4"
    and "read_keeps env effective 8" "read_keeps env inheritable 8" "read_keeps env permitted 8"
  shows "run_hook env (TaskFixSetuid new old flags) 0 s = (0, s)
    \<and> run_hook env (Capset new old effective inheritable permitted) 0 s = (0, s)"
proof -
  have "setuid_gain env new old = 0"
    using read_keeps_word [of env "field_addr new struct_cred [''euid'', ''val'']", where 'a = 32] assms(1)
    by (simp add: setuid_gain_def Let_def)
  moreover have "capset_gain env old effective inheritable permitted = 0"
    using read_keeps_word [of env effective, where 'a = 64] read_keeps_word [of env inheritable, where 'a = 64]
      read_keeps_word [of env permitted, where 'a = 64] assms(2-4)
    by (simp add: capset_gain_def Let_def)
  ultimately show ?thesis by (simp add: hook_bodies Let_def)
qed

theorem failed_reads_allow_witness:
  "run_hook (region_env Little 0 []) (TaskFixSetuid 4096 4096 0) 0 armed_state = (0, armed_state)
   \<and> run_hook (region_env Little 0 []) (Capset 4096 4096 4096 4096 4096) 0 armed_state = (0, armed_state)"
  by (rule failed_reads_allow) (simp_all add: read_keeps_def region_env_def region_read_def)

text \<open>
  A failed read of the old credential is not an allow. Where the requested
  effective uid 0 is readable and the read of the old effective uid fails, leaving its
  default of 1, an armed \<open>enforce_setuid\<close> denies a call without a grant; likewise an armed
  \<open>enforce_capset\<close> denies a readable non-empty effective set when the reads of the old
  sets fail.
\<close>

theorem failed_old_read_denies:
  assumes "\<not> is_tcb s (current_cgroup_id env)" "is_armed s HOOK_SETUID" "is_armed s HOOK_CAPSET"
    and "\<not> live_grant env s (current_cgroup_id env) HOOK_SETUID"
    and "\<not> live_grant env s (current_cgroup_id env) HOOK_CAPSET"
    and "env_reads env new nb" "28 \<le> length nb" "cred_euid (target_order env) nb = 0"
    and "env_reads env effective eb" "length eb = 8" "(load_word (target_order env) eb :: u64) \<noteq> 0"
    and "read_keeps env (field_addr old struct_cred [''euid'', ''val'']) 4"
    and "read_keeps env (field_addr old struct_cred [''cap_effective'', ''val'']) 8"
  shows "fst (run_hook env (TaskFixSetuid new old flags) 0 s) = - EPERM
    \<and> fst (run_hook env (Capset new old effective inheritable permitted) 0 s) = - EPERM"
proof -
  have "setuid_gain env new old \<noteq> 0"
    using read_keeps_word [of env "field_addr old struct_cred [''euid'', ''val'']", where 'a = 32]
      read_euid [OF assms(6,7)] assms(8,12)
    by (simp add: setuid_gain_def Let_def)
  moreover have "capset_gain env old effective inheritable permitted \<noteq> 0"
    using read_keeps_word [of env "field_addr old struct_cred [''cap_effective'', ''val'']", where 'a = 64]
      env_reads_word_at [OF assms(9), where 'a = 64] assms(10,11,13)
    by (simp add: capset_gain_def Let_def)
  ultimately show ?thesis using assms(1-5) by (simp add: hook_bodies Let_def)
qed

theorem failed_old_read_denies_witness:
  "fst (run_hook (region_env Little 4096 (replicate 28 0 @ [1, 0, 0, 0, 0, 0, 0, 0]))
     (TaskFixSetuid 4096 65536 0) 0 armed_state) = - EPERM"
proof -
  define env where "env = region_env Little 4096 (replicate 28 0 @ [1, 0, 0, 0, 0, 0, 0, 0])"
  have reads: "env_reads env 4096 (replicate 28 0 @ [1, 0, 0, 0, 0, 0, 0, 0])"
    unfolding env_def by (rule env_reads_region_env) simp
  then have new: "env_reads env 4096 (replicate 28 0)" by (rule env_reads_append_left)
  have "env_reads env (4096 + of_nat (length (replicate 28 (0 :: u8)))) [1, 0, 0, 0, 0, 0, 0, 0]"
    using reads by (rule env_reads_append_right)
  then have eff: "env_reads env 4124 [1, 0, 0, 0, 0, 0, 0, 0]" by simp
  have keeps: "read_keeps env (field_addr 65536 struct_cred [''euid'', ''val'']) 4"
    "read_keeps env (field_addr 65536 struct_cred [''cap_effective'', ''val'']) 8"
    by (simp_all add: read_keeps_def env_def region_env_def region_read_def field_addr_def cred_offsets)
  have "fst (run_hook env (TaskFixSetuid 4096 65536 0) 0 armed_state) = - EPERM"
    using failed_old_read_denies [OF _ _ _ _ _ new _ _ eff _ _ keeps, of armed_state 0 0 0] armed_state_simps
      armed_state_no_grant [of HOOK_SETUID env] armed_state_no_grant [of HOOK_CAPSET env]
    by (simp add: env_def cred_field_def cred_offsets HOOK_defs) (simp add: load_word_def)
  then show ?thesis by (simp add: env_def)
qed

end
