(* ===== verification/Grant_Trace.thy ===== *)
theory Grant_Trace
  imports Hook_Policy
begin

text \<open>
  Whole histories of the object: hook invocations interleaved with the writes the
  collector makes to the maps, in any order. The invariant of the maps holds throughout,
  and no history spends more grants than were issued.
\<close>

section \<open>Histories\<close>

datatype action =
    Hook kernel_env invocation c_int
  | PutGrant grant_key grant_val u64
  | DeleteGrant grant_key
  | SetFlag u32 u32
  | PutTcb u64 u32
  | PutManifest u64 u32
  | DeleteManifest u64

text \<open>A map operation that fails leaves its map alone.\<close>

definition or_keep :: "'m \<Rightarrow> errno + 'm \<Rightarrow> 'm" where
  "or_keep m r = (case r of Inr m' \<Rightarrow> m' | Inl _ \<Rightarrow> m)"

fun act :: "action \<Rightarrow> bpf_state \<Rightarrow> bpf_state" where
  "act (Hook env i ret) s = snd (run_hook env i ret s)"
| "act (PutGrant k v flags) s = s\<lparr>grant_once := or_keep (grant_once s) (hash_update (grant_once s) k v flags)\<rparr>"
| "act (DeleteGrant k) s = s\<lparr>grant_once := or_keep (grant_once s) (hash_delete (grant_once s) k)\<rparr>"
| "act (SetFlag h v) s = s\<lparr>enforce_flags := or_keep (enforce_flags s) (array_update (enforce_flags s) h v BPF_ANY)\<rparr>"
| "act (PutTcb cg v) s = s\<lparr>tcb_cgroups := or_keep (tcb_cgroups s) (hash_update (tcb_cgroups s) cg v BPF_ANY)\<rparr>"
| "act (PutManifest cg m) s =
     s\<lparr>egress_policy := or_keep (egress_policy s) (hash_update (egress_policy s) cg m BPF_ANY)\<rparr>"
| "act (DeleteManifest cg) s =
     s\<lparr>egress_policy := or_keep (egress_policy s) (hash_delete (egress_policy s) cg)\<rparr>"

fun history :: "action list \<Rightarrow> bpf_state \<Rightarrow> bpf_state" where
  "history [] s = s"
| "history (a # as) s = history as (act a s)"

section \<open>The invariant\<close>

lemma or_keep_cases: "or_keep m r = m \<or> r = Inr (or_keep m r)"
  by (cases r) (simp_all add: or_keep_def)

lemma or_keep_hash_update:
  "hash_inv m \<Longrightarrow> hash_inv (or_keep m (hash_update m k v f)) \<and> hm_max (or_keep m (hash_update m k v f)) = hm_max m"
  using or_keep_cases [of m "hash_update m k v f"] hash_update_inv [of m k v f]
  by (auto simp: hash_update_def split: if_splits)

lemma or_keep_hash_delete:
  "hash_inv m \<Longrightarrow> hash_inv (or_keep m (hash_delete m k)) \<and> hm_max (or_keep m (hash_delete m k)) = hm_max m"
  using or_keep_cases [of m "hash_delete m k"] hash_delete_inv [of m k] hm_max_delete [of m k]
  by metis

lemma or_keep_array_update: "length (or_keep m (array_update m h v f)) = length m"
  by (simp add: or_keep_def array_update_def)

lemma act_inv: "state_inv s \<Longrightarrow> state_inv (act a s)"
proof (cases a)
  case (Hook env i ret)
  then show "state_inv s \<Longrightarrow> ?thesis" by (simp add: run_hook_inv)
qed (simp_all add: state_inv_def or_keep_hash_update or_keep_hash_delete or_keep_array_update)

lemma history_inv: "state_inv s \<Longrightarrow> state_inv (history as s)"
  by (induction as arbitrary: s) (simp_all add: act_inv)

section \<open>Counting grants\<close>

text \<open>
  \<open>granted k es\<close> counts the events that record an operation allowed by a grant for
  \<open>k\<close>; \<open>unused s k\<close> is 1 while an unused grant for \<open>k\<close> is in the map; \<open>issued k as s\<close>
  counts the writes of such a grant along a history.
\<close>

definition granted :: "u64 \<times> u32 \<Rightarrow> event list \<Rightarrow> nat" where
  "granted k es =
     length (filter (\<lambda>e. (ev_cgroup_id e, ev_hook e) = k \<and> ev_decision e = 0 \<and> ev_mode e = 1) es)"

definition unused :: "bpf_state \<Rightarrow> u64 \<times> u32 \<Rightarrow> nat" where
  "unused s k = (if unused_grant s k = None then 0 else 1)"

fun issues :: "u64 \<times> u32 \<Rightarrow> action \<Rightarrow> bool" where
  "issues (cg, h) (PutGrant k v _) = (k = the_grant_key cg h \<and> gv_count v = 1)"
| "issues _ _ = False"

definition issued :: "u64 \<times> u32 \<Rightarrow> action list \<Rightarrow> nat" where
  "issued k as = length (filter (issues k) as)"

lemma granted_log_decision:
  "granted k (events (log_decision env cg h d m s)) \<le>
     granted k (events s) + (if (cg, h) = k \<and> d = 0 \<and> m = 1 then 1 else 0)"
  by (auto simp: granted_def log_decision_def)

lemma unused_log_decision [simp]: "unused (log_decision env cg h d m s) = unused s"
  by (simp add: unused_def unused_grant_def fun_eq_iff)

lemma unused_spend:
  assumes "live_grant env s cg h"
  shows "unused (spend_grant s cg h) k + (if (cg, h) = k then 1 else 0) \<le> unused s k"
  using assms
  by (cases k; cases "hash_lookup (grant_once s) (the_grant_key cg h)")
    (auto simp: unused_def unused_grant_def live_grant_def lookup_spend_grant)

lemma hook_potential:
  "granted k (events (snd (run_hook env i ret s))) + unused (snd (run_hook env i ret s)) k
     \<le> granted k (events s) + unused s k"
proof (cases env i ret s rule: run_hook_state)
  case same
  then show ?thesis by simp
next
  case (logged d m)
  then show ?thesis
    using granted_log_decision [of k env "current_cgroup_id env" "hook_id i" d m s] by auto
next
  case spent
  then have "live_grant env s (current_cgroup_id env) (hook_id i)" by (simp add: spends_def)
  from unused_spend [OF this, of k] show ?thesis
    unfolding spent(2)
    using granted_log_decision [of k env "current_cgroup_id env" "hook_id i" 0 1
        "spend_grant s (current_cgroup_id env) (hook_id i)"]
    by (auto split: if_splits)
qed

lemma put_potential:
  "unused (act (PutGrant k' v f) s) k \<le> unused s k + (if issues k (PutGrant k' v f) then 1 else 0)"
proof (cases "hash_update (grant_once s) k' v f")
  case (Inl e)
  then show ?thesis by (simp add: or_keep_def)
next
  case (Inr m)
  then show ?thesis
    by (cases k) (auto simp: unused_def unused_grant_def or_keep_def hash_lookup_update [OF Inr])
qed

lemma delete_potential: "unused (act (DeleteGrant k') s) k \<le> unused s k"
proof (cases "hash_delete (grant_once s) k'")
  case (Inl e)
  then show ?thesis by (simp add: or_keep_def)
next
  case (Inr m)
  then show ?thesis
    by (auto simp: unused_def unused_grant_def or_keep_def hash_lookup_delete [OF Inr])
qed

lemma act_potential:
  "granted k (events (act a s)) + unused (act a s) k
     \<le> granted k (events s) + unused s k + (if issues k a then 1 else 0)"
proof (cases a)
  case (Hook env i ret)
  then show ?thesis using hook_potential [of k env i ret s] by (simp add: trans_le_add1)
next
  case (PutGrant k' v f)
  then show ?thesis using put_potential [of k' v f s k] by simp
next
  case (DeleteGrant k')
  then show ?thesis using delete_potential [of k' s k] by (simp add: trans_le_add1)
qed (simp_all add: unused_def unused_grant_def)

section \<open>Properties\<close>

text \<open>
  C2: grants are single-use over whole histories. Whatever the order of hook calls and
  map writes, the number of operations recorded as granted for a cgroup and hook, plus
  one if an unused grant is still in the map, is at most what was there at the start
  plus the number of grants written for exactly that cgroup and hook.
\<close>

theorem granted_at_most_issued:
  "granted k (events (history as s)) + unused (history as s) k
     \<le> granted k (events s) + unused s k + issued k as"
proof (induction as arbitrary: s)
  case (Cons a as)
  from Cons [of "act a s"] act_potential [of k a s] show ?case
    by (auto simp: issued_def)
qed (simp add: issued_def)

text \<open>
  Every reachable state of the object satisfies the invariant of its maps: distinct
  keys, and no more entries than the declarations allow.
\<close>

theorem reachable_state_inv: "state_inv (history as init_state)"
  using init_state_inv by (rule history_inv)

end
