(* ===== verification/Grant_Race.thy ===== *)
theory Grant_Race
  imports Provenance
begin

text \<open>
  \<open>try_consume_grant\<close> under concurrency. Several threads run it at once, each between two
  memory operations at any moment: the lookup that yields a pointer into the map, the
  expiry test, the compare-and-swap through the pointer, and the delete by key. The
  collector meanwhile writes and revokes grants, and the map places a value into any
  slot that no key refers to. Whether a slot may be used again while a thread still
  holds a pointer to it is a parameter of the model.
\<close>

section \<open>One thread\<close>

record grant_mem =
  gm_table :: "grant_key \<Rightarrow> nat option"
  gm_slots :: "nat \<Rightarrow> grant_val"

datatype consumer =
    Idle
  | Lookup grant_key
  | TestExpiry grant_key nat
  | Swap grant_key nat
  | Remove grant_key
  | Returned bool

text \<open>The next memory operation of a thread, at time \<open>now\<close>.\<close>

fun consume_step :: "u64 \<Rightarrow> consumer \<Rightarrow> grant_mem \<Rightarrow> consumer \<times> grant_mem" where
  "consume_step now (Lookup k) m =
     (case gm_table m k of None \<Rightarrow> (Returned False, m) | Some p \<Rightarrow> (TestExpiry k p, m))"
| "consume_step now (TestExpiry k p) m =
     (let e = gv_expire_ns (gm_slots m p)
      in if e \<noteq> 0 \<and> now > e then (Returned False, m) else (Swap k p, m))"
| "consume_step now (Swap k p) m =
     (if gv_count (gm_slots m p) = 1
      then (Remove k, m\<lparr>gm_slots := (gm_slots m)(p := (gm_slots m p)\<lparr>gv_count := 0\<rparr>)\<rparr>)
      else (Returned False, m))"
| "consume_step now (Remove k) m = (Returned True, m\<lparr>gm_table := (gm_table m)(k := None)\<rparr>)"
| "consume_step now c m = (c, m)"

fun consume_steps :: "nat \<Rightarrow> u64 \<Rightarrow> consumer \<times> grant_mem \<Rightarrow> consumer \<times> grant_mem" where
  "consume_steps 0 now cm = cm"
| "consume_steps (Suc n) now cm = consume_steps n now (consume_step now (fst cm) (snd cm))"

text \<open>The entry a key has in memory.\<close>

definition gm_lookup :: "grant_mem \<Rightarrow> grant_key \<Rightarrow> grant_val option" where
  "gm_lookup m k = map_option (gm_slots m) (gm_table m k)"

section \<open>Many threads\<close>

text \<open>
  \<open>wins\<close> collects the key of every successful compare-and-swap, \<open>puts\<close> the key of every
  unused grant written, \<open>owner\<close> the key a slot was last written for and \<open>used\<close> the slots
  ever written.
\<close>

record race =
  mem :: grant_mem
  threads :: "nat \<Rightarrow> consumer"
  wins :: "grant_key list"
  puts :: "grant_key list"
  owner :: "nat \<Rightarrow> grant_key"
  used :: "nat set"

fun swap_key :: "consumer \<Rightarrow> consumer \<Rightarrow> grant_key list" where
  "swap_key (Swap k _) (Remove _) = [k]"
| "swap_key _ _ = []"

definition place :: "grant_key \<Rightarrow> grant_val \<Rightarrow> nat \<Rightarrow> grant_mem \<Rightarrow> grant_mem" where
  "place k v p m =
     m\<lparr>gm_table := (gm_table m)(k := Some p), gm_slots := (gm_slots m)(p := v)\<rparr>"

definition enter_thread :: "nat \<Rightarrow> grant_key \<Rightarrow> race \<Rightarrow> race" where
  "enter_thread i k r = r\<lparr>threads := (threads r)(i := Lookup k)\<rparr>"

definition run_thread :: "u64 \<Rightarrow> nat \<Rightarrow> race \<Rightarrow> race" where
  "run_thread now i r =
     (let (c, m) = consume_step now (threads r i) (mem r)
      in r\<lparr>mem := m, threads := (threads r)(i := c), wins := swap_key (threads r i) c @ wins r\<rparr>)"

definition put_grant :: "grant_key \<Rightarrow> grant_val \<Rightarrow> nat \<Rightarrow> race \<Rightarrow> race" where
  "put_grant k v p r =
     r\<lparr>mem := place k v p (mem r), puts := (if gv_count v = 1 then [k] else []) @ puts r,
       owner := (owner r)(p := k), used := insert p (used r)\<rparr>"

definition revoke_grant :: "grant_key \<Rightarrow> race \<Rightarrow> race" where
  "revoke_grant k r = r\<lparr>mem := (mem r)\<lparr>gm_table := (gm_table (mem r))(k := None)\<rparr>\<rparr>"

inductive race_step :: "bool \<Rightarrow> race \<Rightarrow> race \<Rightarrow> bool" for reuse :: bool where
  enter: "threads r i = Idle \<or> threads r i = Returned b \<Longrightarrow> race_step reuse r (enter_thread i k r)"
| run: "race_step reuse r (run_thread now i r)"
| put: "p \<notin> ran (gm_table (mem r)) \<Longrightarrow> reuse \<or> p \<notin> used r \<Longrightarrow> race_step reuse r (put_grant k v p r)"
| revoke: "race_step reuse r (revoke_grant k r)"

definition race_init :: race where
  "race_init =
     \<lparr>mem = \<lparr>gm_table = (\<lambda>_. None), gm_slots = (\<lambda>_. \<lparr>gv_count = 0, gv_expire_ns = 0\<rparr>)\<rparr>,
      threads = (\<lambda>_. Idle), wins = [], puts = [],
      owner = (\<lambda>_. the_grant_key 0 0), used = {}\<rparr>"

inductive race_reachable :: "bool \<Rightarrow> race \<Rightarrow> bool" for reuse :: bool where
  init: "race_reachable reuse race_init"
| step: "race_reachable reuse r \<Longrightarrow> race_step reuse r r' \<Longrightarrow> race_reachable reuse r'"

lemma race_step_elim [consumes 1, case_names enter run put revoke]:
  assumes "race_step reuse r r'"
  obtains i k where "r' = r\<lparr>threads := (threads r)(i := Lookup k)\<rparr>"
  | now i c m where "r' = r\<lparr>mem := m, threads := (threads r)(i := c), wins := swap_key (threads r i) c @ wins r\<rparr>"
      "consume_step now (threads r i) (mem r) = (c, m)"
  | p k v where "r' = r\<lparr>mem := place k v p (mem r), puts := (if gv_count v = 1 then [k] else []) @ puts r,
        owner := (owner r)(p := k), used := insert p (used r)\<rparr>"
      "p \<notin> ran (gm_table (mem r))" "reuse \<or> p \<notin> used r"
  | k where "r' = r\<lparr>mem := (mem r)\<lparr>gm_table := (gm_table (mem r))(k := None)\<rparr>\<rparr>"
  using assms
proof (cases rule: race_step.cases)
  case (run now i)
  obtain c m where "consume_step now (threads r i) (mem r) = (c, m)" by fastforce
  with run that(2) show ?thesis by (simp add: run_thread_def)
qed (simp_all add: that enter_thread_def put_grant_def revoke_grant_def)

section \<open>Invariants\<close>

definition unspent :: "race \<Rightarrow> nat set" where
  "unspent r = {p. gv_count (gm_slots (mem r) p) = 1}"

text \<open>How a thread's step changes memory: only a successful swap writes a slot.\<close>

lemma consume_step_cases:
  assumes "consume_step now c m = (c', m')"
  obtains (swap) k p where "c = Swap k p" "c' = Remove k" "gv_count (gm_slots m p) = 1"
      "m' = m\<lparr>gm_slots := (gm_slots m)(p := (gm_slots m p)\<lparr>gv_count := 0\<rparr>)\<rparr>"
  | (other) "swap_key c c' = []" "gm_slots m' = gm_slots m"
  using assms
  by (cases c) (auto split: option.splits if_splits simp: Let_def)

lemma unspent_swap:
  "gv_count (gm_slots m p) = 1 \<Longrightarrow>
   {q. gv_count (((gm_slots m)(p := (gm_slots m p)\<lparr>gv_count := 0\<rparr>)) q) = 1}
     = {q. gv_count (gm_slots m q) = 1} - {p}"
  by auto

definition supply_inv :: "race \<Rightarrow> bool" where
  "supply_inv r \<longleftrightarrow> finite (unspent r) \<and> length (wins r) + card (unspent r) \<le> length (puts r)"

lemma supply_inv_step:
  assumes "race_step reuse r r'" "supply_inv r"
  shows "supply_inv r'"
  using assms
proof (cases rule: race_step_elim)
  case (run now i c m)
  from run(2) show ?thesis
  proof (cases rule: consume_step_cases)
    case (swap k p)
    then have "p \<in> unspent r" "unspent r' = unspent r - {p}"
      using run(1) unspent_swap [of "mem r" p] by (simp_all add: unspent_def)
    moreover have "length (wins r') = Suc (length (wins r))" "puts r' = puts r"
      using run(1) swap by simp_all
    ultimately show ?thesis
      using assms(2) card_Suc_Diff1 [of "unspent r" p] by (simp add: supply_inv_def)
  next
    case other
    then show ?thesis using run(1) assms(2) by (simp add: supply_inv_def unspent_def)
  qed
next
  case (put p k v)
  have "unspent r' \<subseteq> (if gv_count v = 1 then insert p (unspent r) else unspent r)"
    using put(1) by (auto simp: unspent_def place_def)
  moreover have "card (insert p (unspent r)) \<le> Suc (card (unspent r))"
    using assms(2) by (simp add: supply_inv_def card_insert_if)
  ultimately have "finite (unspent r')" "card (unspent r') \<le> card (unspent r) + (if gv_count v = 1 then 1 else 0)"
    using assms(2) by (auto simp: supply_inv_def split: if_splits dest: finite_subset card_mono)
      (meson card_mono finite_insert le_trans)+
  then show ?thesis using put(1) assms(2) by (simp add: supply_inv_def split: if_splits)
qed (simp_all add: supply_inv_def unspent_def)

lemma supply_inv_reachable: "race_reachable reuse r \<Longrightarrow> supply_inv r"
proof (induction rule: race_reachable.induct)
  case init
  then show ?case by (simp add: supply_inv_def unspent_def race_init_def)
qed (rule supply_inv_step)

text \<open>A thread that holds a pointer, with the key it looked up.\<close>

fun holds :: "consumer \<Rightarrow> (grant_key \<times> nat) option" where
  "holds (TestExpiry k p) = Some (k, p)"
| "holds (Swap k p) = Some (k, p)"
| "holds _ = None"

definition owner_inv :: "race \<Rightarrow> bool" where
  "owner_inv r \<longleftrightarrow>
     (\<forall>k p. gm_table (mem r) k = Some p \<longrightarrow> owner r p = k \<and> p \<in> used r)
     \<and> (\<forall>i k p. holds (threads r i) = Some (k, p) \<longrightarrow> owner r p = k \<and> p \<in> used r)
     \<and> unspent r \<subseteq> used r"

lemma consume_step_table:
  "consume_step now c m = (c', m') \<Longrightarrow> gm_table m' k = Some p \<Longrightarrow> gm_table m k = Some p"
  by (cases c) (auto split: option.splits if_splits simp: Let_def)

lemma consume_step_holds:
  "consume_step now c m = (c', m') \<Longrightarrow> holds c' = Some (k, p) \<Longrightarrow>
   holds c = Some (k, p) \<or> gm_table m k = Some p"
  by (cases c) (auto split: option.splits if_splits simp: Let_def)

lemma consume_step_unspent:
  "consume_step now c m = (c', m') \<Longrightarrow> gv_count (gm_slots m' p) = 1 \<Longrightarrow> gv_count (gm_slots m p) = 1"
  by (cases c) (auto split: option.splits if_splits simp: Let_def)

lemma owner_inv_step:
  assumes "race_step False r r'" "owner_inv r"
  shows "owner_inv r'"
  using assms
proof (cases rule: race_step_elim)
  case (run now i c m)
  show ?thesis
    using assms(2) consume_step_table [OF run(2)] consume_step_holds [OF run(2)]
      consume_step_unspent [OF run(2)]
    unfolding run(1) owner_inv_def unspent_def by (auto split: if_splits) blast+
next
  case (put p k v)
  then show ?thesis
    using assms(2) unfolding owner_inv_def unspent_def place_def by (auto split: if_splits)
qed (auto simp: owner_inv_def unspent_def)

definition key_supply_inv :: "race \<Rightarrow> bool" where
  "key_supply_inv r \<longleftrightarrow> finite (unspent r) \<and>
     (\<forall>k. count_list (wins r) k + card {p \<in> unspent r. owner r p = k} \<le> count_list (puts r) k)"

lemma key_supply_swap:
  assumes "key_supply_inv r" "p \<in> unspent r" "owner r p = k"
    and "unspent r' = unspent r - {p}" "owner r' = owner r" "wins r' = k # wins r" "puts r' = puts r"
  shows "key_supply_inv r'"
  unfolding key_supply_inv_def
proof (intro conjI allI)
  show "finite (unspent r')" using assms(1,4) by (simp add: key_supply_inv_def)
  fix k'
  let ?S = "{q \<in> unspent r. owner r q = k'}"
  have fin: "finite ?S" using assms(1) by (simp add: key_supply_inv_def)
  have S': "{q \<in> unspent r'. owner r' q = k'} = ?S - {p}" using assms(4,5) by auto
  have "count_list (wins r) k' + card ?S \<le> count_list (puts r) k'"
    using assms(1) by (simp add: key_supply_inv_def)
  moreover have "k' = k \<Longrightarrow> card ?S = Suc (card (?S - {p}))"
    using card_Suc_Diff1 [OF fin, of p] assms(2,3) by simp
  moreover have "card (?S - {p}) \<le> card ?S" using fin by (intro card_mono) auto
  ultimately show "count_list (wins r') k' + card {q \<in> unspent r'. owner r' q = k'} \<le> count_list (puts r') k'"
    unfolding S' assms(6,7) by (auto split: if_splits)
qed

lemma key_supply_put:
  assumes "key_supply_inv r" "unspent r' \<subseteq> (if c then insert p (unspent r) else unspent r)"
    and "p \<notin> unspent r" "owner r' = (owner r)(p := k)" "wins r' = wins r"
    and "puts r' = (if c then [k] else []) @ puts r"
  shows "key_supply_inv r'"
  unfolding key_supply_inv_def
proof (intro conjI allI)
  have fin: "finite (unspent r)" using assms(1) by (simp add: key_supply_inv_def)
  with assms(2) show "finite (unspent r')" by (auto split: if_splits intro: finite_subset)
  fix k'
  let ?S = "{q \<in> unspent r. owner r q = k'}"
  have "{q \<in> unspent r'. owner r' q = k'} \<subseteq> (if c \<and> k' = k then insert p ?S else ?S)"
    using assms(2-4) by (auto split: if_splits)
  then have "card {q \<in> unspent r'. owner r' q = k'} \<le> card (if c \<and> k' = k then insert p ?S else ?S)"
    using fin by (intro card_mono) auto
  also have "\<dots> \<le> card ?S + (if c \<and> k' = k then 1 else 0)"
    using fin by (simp add: card_insert_if)
  finally have "card {q \<in> unspent r'. owner r' q = k'} \<le> card ?S + (if c \<and> k' = k then 1 else 0)" .
  moreover have "count_list (wins r) k' + card ?S \<le> count_list (puts r) k'"
    using assms(1) by (simp add: key_supply_inv_def)
  moreover have "count_list (puts r') k' = (if c \<and> k' = k then 1 else 0) + count_list (puts r) k'"
    using assms(6) by auto
  ultimately show "count_list (wins r') k' + card {q \<in> unspent r'. owner r' q = k'} \<le> count_list (puts r') k'"
    unfolding assms(5) by linarith
qed

lemma key_supply_inv_step:
  assumes "race_step False r r'" "owner_inv r" "key_supply_inv r"
  shows "key_supply_inv r'"
  using assms(1)
proof (cases rule: race_step_elim)
  case (run now i c m)
  from run(2) show ?thesis
  proof (cases rule: consume_step_cases)
    case (swap k p)
    have "p \<in> unspent r" "unspent r' = unspent r - {p}"
      using swap run(1) unspent_swap [of "mem r" p] by (simp_all add: unspent_def)
    moreover have "owner r p = k"
      using assms(2) swap(1) by (simp add: owner_inv_def) (metis holds.simps(2))
    ultimately show ?thesis
      using key_supply_swap [OF assms(3)] swap run(1) by simp
  next
    case other
    then show ?thesis using run(1) assms(3) by (simp add: key_supply_inv_def unspent_def)
  qed
next
  case (put p k v)
  have "p \<notin> unspent r" using put(3) assms(2) by (auto simp: owner_inv_def)
  moreover have "unspent r' \<subseteq> (if gv_count v = 1 then insert p (unspent r) else unspent r)"
    using put(1) by (auto simp: unspent_def place_def)
  ultimately show ?thesis
    by (intro key_supply_put [OF assms(3)]) (simp_all add: put(1))
qed (use assms(3) in \<open>simp_all add: key_supply_inv_def unspent_def\<close>)

lemma key_supply_reachable: "race_reachable False r \<Longrightarrow> owner_inv r \<and> key_supply_inv r"
proof (induction rule: race_reachable.induct)
  case init
  then show ?case
    by (simp add: owner_inv_def key_supply_inv_def unspent_def race_init_def)
next
  case (step r r')
  then show ?case using owner_inv_step key_supply_inv_step by blast
qed

section \<open>One thread alone\<close>

lemma consume_steps_4:
  "consume_steps 4 now (Lookup k, m) =
     (if grant_usable now (gm_lookup m k)
      then (Returned True,
            m\<lparr>gm_table := (gm_table m)(k := None),
              gm_slots := (gm_slots m)(the (gm_table m k) :=
                (gm_slots m (the (gm_table m k)))\<lparr>gv_count := 0\<rparr>)\<rparr>)
      else (Returned False, m))"
  by (cases "gm_table m k") (auto simp: numeral_eq_Suc gm_lookup_def Let_def not_less)

section \<open>Properties\<close>

text \<open>
  Uninterrupted, the four memory operations are \<open>try_consume_grant\<close>. From a memory
  that holds the entries of the map, with no two keys in one slot, a thread that runs
  alone returns the result of the function and leaves the entries of the map it
  returns.
\<close>

theorem consumer_alone_refines:
  assumes "\<And>k. gm_lookup m k = hash_lookup (grant_once s) k"
    and "inj_on (gm_table m) (dom (gm_table m))"
    and "try_consume_grant env cg hook s = (v, s')"
    and "consume_steps 4 (ktime_ns env) (Lookup (the_grant_key cg hook), m) = (c, m')"
  shows "c = Returned (v \<noteq> 0) \<and> gm_lookup m' k = hash_lookup (grant_once s') k"
proof (cases "live_grant env s cg hook")
  case True
  then have usable: "grant_usable (ktime_ns env) (gm_lookup m (the_grant_key cg hook))"
    using assms(1) by (simp add: live_grant_def)
  then obtain p where p: "gm_table m (the_grant_key cg hook) = Some p"
    by (cases "gm_table m (the_grant_key cg hook)") (simp_all add: gm_lookup_def)
  have "gm_lookup m' k = (if k = the_grant_key cg hook then None else gm_lookup m k)"
    using assms(4) usable p inj_onD [OF assms(2), of k "the_grant_key cg hook"]
    by (cases "gm_table m k") (auto simp: consume_steps_4 gm_lookup_def domIff)
  with True usable assms show ?thesis
    by (auto simp: consume_steps_4 try_consume_grant_eq lookup_spend_grant)
next
  case False
  then have "\<not> grant_usable (ktime_ns env) (gm_lookup m (the_grant_key cg hook))"
    using assms(1) by (simp add: live_grant_def)
  with False assms show ?thesis
    by (auto simp: consume_steps_4 try_consume_grant_eq)
qed

text \<open>An unused grant in slot 0 and in the map.\<close>

definition one_grant :: grant_val where
  "one_grant = \<lparr>gv_count = 1, gv_expire_ns = 0\<rparr>"

theorem consumer_alone_refines_witness:
  "fst (consume_steps 4 0 (Lookup (the_grant_key 7 HOOK_PTRACE),
     \<lparr>gm_table = (\<lambda>_. None)(the_grant_key 7 HOOK_PTRACE := Some 0), gm_slots = (\<lambda>_. one_grant)\<rparr>))
   = Returned True"
proof -
  let ?k = "the_grant_key 7 HOOK_PTRACE"
  let ?m = "\<lparr>gm_table = (\<lambda>_. None)(?k := Some 0), gm_slots = (\<lambda>_. one_grant)\<rparr>"
  let ?s = "init_state\<lparr>grant_once := (hash_empty 256)\<lparr>hm_entries := [(?k, one_grant)]\<rparr>\<rparr>"
  let ?env = "region_env Little 0 []"
  obtain c m' where run: "consume_steps 4 (ktime_ns ?env) (Lookup ?k, ?m) = (c, m')" by fastforce
  obtain v s' where consumed: "try_consume_grant ?env 7 HOOK_PTRACE ?s = (v, s')" by fastforce
  have "live_grant ?env ?s 7 HOOK_PTRACE"
    by (simp add: live_grant_def hash_lookup_def one_grant_def)
  with consumed have v: "v = 1" by (simp add: try_consume_grant_eq)
  have entries: "gm_lookup ?m k = hash_lookup (grant_once ?s) k" for k
    by (simp add: gm_lookup_def hash_lookup_def)
  have apart: "inj_on (gm_table ?m) (dom (gm_table ?m))"
    by (simp add: inj_on_def)
  from consumer_alone_refines [OF entries apart consumed run] have "c = Returned (v \<noteq> 0)" by blast
  with run v show ?thesis by simp
qed

text \<open>
  C7: the compare-and-swap lets through at most one thread per grant. In every state the
  concurrent system can reach, however its threads and the collector interleave and
  wherever the map places its values, at most as many threads have won a grant as
  unused grants were written.
\<close>

theorem wins_at_most_puts:
  assumes "race_reachable reuse r"
  shows "length (wins r) \<le> length (puts r)"
  using supply_inv_reachable [OF assms] by (simp add: supply_inv_def)

text \<open>Two threads race for one grant of the ptrace hook; both get as far as the swap.\<close>

definition race_two :: race where
  "race_two =
     (run_thread 0 1 \<circ> run_thread 0 0 \<circ> run_thread 0 0 \<circ> run_thread 0 1 \<circ> run_thread 0 0 \<circ> run_thread 0 1 \<circ>
      run_thread 0 0 \<circ> enter_thread 1 (the_grant_key 7 HOOK_PTRACE) \<circ>
      enter_thread 0 (the_grant_key 7 HOOK_PTRACE) \<circ> put_grant (the_grant_key 7 HOOK_PTRACE) one_grant 0) race_init"

lemmas race_example_simps =
  run_thread_def enter_thread_def put_grant_def race_init_def place_def one_grant_def

lemma race_two_reachable: "race_reachable reuse race_two"
  unfolding race_two_def comp_def
  by (intro race_reachable.step [OF _ race_step.run] race_reachable.step [OF _ race_step.enter]
      race_reachable.step [OF _ race_step.put] race_reachable.init)
    (simp_all add: race_example_simps)

lemma race_two_outcome:
  "wins race_two = [the_grant_key 7 HOOK_PTRACE]" "puts race_two = [the_grant_key 7 HOOK_PTRACE]"
  "threads race_two 0 = Returned True" "threads race_two 1 = Returned False"
  by (simp_all add: race_two_def race_example_simps)

theorem wins_at_most_puts_witness:
  "race_reachable True race_two \<and> length (wins race_two) = 1 \<and> length (wins race_two) \<le> length (puts race_two)"
  using wins_at_most_puts [OF race_two_reachable] race_two_reachable by (simp add: race_two_outcome)

text \<open>
  A grant serves only its own cgroup and hook. If the map never places a value into
  a slot that was used before, every reachable state has, for each key, at most as many
  winners for the key as unused grants written for it.
\<close>

theorem wins_at_most_puts_per_key:
  assumes "race_reachable False r"
  shows "count_list (wins r) k \<le> count_list (puts r) k"
  using key_supply_reachable [OF assms] unfolding key_supply_inv_def by (meson add_leD1)

theorem wins_at_most_puts_per_key_witness:
  "race_reachable False race_two
   \<and> count_list (wins race_two) (the_grant_key 7 HOOK_PTRACE)
       \<le> count_list (puts race_two) (the_grant_key 7 HOOK_PTRACE)"
  using wins_at_most_puts_per_key [OF race_two_reachable] race_two_reachable by blast

text \<open>
  Without that restriction a stale pointer can cross keys. There is a run in which a
  slot is used again while a thread still points to it, and two threads win for a key
  for which one grant was written; the second of them swaps away the grant of another
  key.
\<close>

definition race_stale :: race where
  "race_stale =
     (run_thread 0 0 \<circ> put_grant (the_grant_key 8 HOOK_SETUID) one_grant 0 \<circ>
      run_thread 0 1 \<circ> run_thread 0 1 \<circ> run_thread 0 0 \<circ> run_thread 0 1 \<circ> run_thread 0 0 \<circ> run_thread 0 1 \<circ>
      enter_thread 1 (the_grant_key 7 HOOK_PTRACE) \<circ> enter_thread 0 (the_grant_key 7 HOOK_PTRACE) \<circ>
      put_grant (the_grant_key 7 HOOK_PTRACE) one_grant 0) race_init"

theorem stale_pointer_crosses_keys:
  "race_reachable True race_stale
   \<and> count_list (wins race_stale) (the_grant_key 7 HOOK_PTRACE) = 2
   \<and> count_list (puts race_stale) (the_grant_key 7 HOOK_PTRACE) = 1"
proof (intro conjI)
  show "race_reachable True race_stale"
    unfolding race_stale_def comp_def
    by (intro race_reachable.step [OF _ race_step.run] race_reachable.step [OF _ race_step.enter]
        race_reachable.step [OF _ race_step.put] race_reachable.init)
      (simp_all add: race_example_simps HOOK_defs)
  show "count_list (wins race_stale) (the_grant_key 7 HOOK_PTRACE) = 2"
    "count_list (puts race_stale) (the_grant_key 7 HOOK_PTRACE) = 1"
    by (simp_all add: race_stale_def race_example_simps HOOK_defs)
qed

end
