(* ===== verification/Go_Strings.thy ===== *)
theory Go_Strings
  imports Bulkhead_Prelude
begin

text \<open>
  What the Go programs use of \<open>strings\<close>, \<open>bytes\<close>, \<open>strconv\<close> and \<open>encoding/hex\<close>. A Go string
  is a sequence of bytes, and so is a HOL string; white space is matched as the UTF-8
  encodings of the code points for which \<open>unicode.IsSpace\<close> holds.
\<close>

section \<open>White space\<close>

definition unicode_spaces :: "string list" where
  "unicode_spaces =
     [[CHR 0x09], [CHR 0x0A], [CHR 0x0B], [CHR 0x0C], [CHR 0x0D], [CHR 0x20],
      [CHR 0xC2, CHR 0x85], [CHR 0xC2, CHR 0xA0], [CHR 0xE1, CHR 0x9A, CHR 0x80],
      [CHR 0xE2, CHR 0x80, CHR 0x80], [CHR 0xE2, CHR 0x80, CHR 0x81], [CHR 0xE2, CHR 0x80, CHR 0x82],
      [CHR 0xE2, CHR 0x80, CHR 0x83], [CHR 0xE2, CHR 0x80, CHR 0x84], [CHR 0xE2, CHR 0x80, CHR 0x85],
      [CHR 0xE2, CHR 0x80, CHR 0x86], [CHR 0xE2, CHR 0x80, CHR 0x87], [CHR 0xE2, CHR 0x80, CHR 0x88],
      [CHR 0xE2, CHR 0x80, CHR 0x89], [CHR 0xE2, CHR 0x80, CHR 0x8A], [CHR 0xE2, CHR 0x80, CHR 0xA8],
      [CHR 0xE2, CHR 0x80, CHR 0xA9], [CHR 0xE2, CHR 0x80, CHR 0xAF], [CHR 0xE2, CHR 0x81, CHR 0x9F],
      [CHR 0xE3, CHR 0x80, CHR 0x80]]"

definition hasPrefix :: "string \<Rightarrow> string \<Rightarrow> bool" where
  "hasPrefix s p \<longleftrightarrow> take (length p) s = p"

definition trimPrefix :: "string \<Rightarrow> string \<Rightarrow> string" where
  "trimPrefix s p = (if hasPrefix s p then drop (length p) s else s)"

text \<open>The first of the given non-empty prefixes that \<open>s\<close> starts with.\<close>

definition match_any :: "string list \<Rightarrow> string \<Rightarrow> string option" where
  "match_any ps s = find (\<lambda>p. p \<noteq> [] \<and> hasPrefix s p) ps"

lemma match_any_shorter: "match_any ps s = Some p \<Longrightarrow> length (drop (length p) s) < length s"
  by (cases s) (auto simp: match_any_def find_Some_iff hasPrefix_def)

function strip_all :: "string list \<Rightarrow> string \<Rightarrow> string" where
  "strip_all ps s = (case match_any ps s of None \<Rightarrow> s | Some p \<Rightarrow> strip_all ps (drop (length p) s))"
  by pat_completeness auto
termination
  by (relation "measure (\<lambda>(ps, s). length s)") (auto dest: match_any_shorter)

declare strip_all.simps [simp del]

definition trimSpace :: "string \<Rightarrow> string" where
  "trimSpace s = rev (strip_all (map rev unicode_spaces) (rev (strip_all unicode_spaces s)))"

text \<open>
  \<open>strings.Fields\<close>: the maximal runs without white space. The first argument is the field
  being read, reversed. No white space encoding starts inside another code point, so the
  bytes of a field can be taken one by one.
\<close>

definition emit_field :: "string \<Rightarrow> string list" where
  "emit_field acc = (if acc = [] then [] else [rev acc])"

function fields_from :: "string \<Rightarrow> string \<Rightarrow> string list" where
  "fields_from acc [] = emit_field acc"
| "fields_from acc (c # cs) =
     (case match_any unicode_spaces (c # cs) of
        Some p \<Rightarrow> emit_field acc @ fields_from [] (drop (length p) (c # cs))
      | None \<Rightarrow> fields_from (c # acc) cs)"
  by pat_completeness auto
termination
  by (relation "measure (\<lambda>(acc, s). length s)") (auto dest: match_any_shorter)

definition Fields :: "string \<Rightarrow> string list" where
  "Fields s = fields_from [] s"

section \<open>Splitting, joining and searching\<close>

fun split_on :: "char \<Rightarrow> string \<Rightarrow> string list" where
  "split_on c [] = [[]]"
| "split_on c (x # xs) =
     (if x = c then [] # split_on c xs
      else case split_on c xs of [] \<Rightarrow> [[x]] | y # ys \<Rightarrow> (x # y) # ys)"

fun join_with :: "string \<Rightarrow> string list \<Rightarrow> string" where
  "join_with sep [] = []"
| "join_with sep [x] = x"
| "join_with sep (x # y # ys) = x @ sep @ join_with sep (y # ys)"

fun Index :: "string \<Rightarrow> string \<Rightarrow> nat option" where
  "Index [] sub = (if sub = [] then Some 0 else None)"
| "Index (x # xs) sub =
     (if hasPrefix (x # xs) sub then Some 0 else map_option Suc (Index xs sub))"

fun LastIndex :: "string \<Rightarrow> string \<Rightarrow> nat option" where
  "LastIndex [] sub = (if sub = [] then Some 0 else None)"
| "LastIndex (x # xs) sub =
     (case LastIndex xs sub of
        Some i \<Rightarrow> Some (Suc i)
      | None \<Rightarrow> if hasPrefix (x # xs) sub then Some 0 else None)"

section \<open>Numbers\<close>

definition is_digit :: "char \<Rightarrow> bool" where
  "is_digit c \<longleftrightarrow> (48 :: nat) \<le> of_char c \<and> of_char c \<le> (57 :: nat)"

definition digit_char :: "nat \<Rightarrow> char" where
  "digit_char d = char_of (48 + d)"

definition digit_val :: "char \<Rightarrow> nat" where
  "digit_val c = of_char c - 48"

fun itoa :: "nat \<Rightarrow> string" where
  "itoa n = (if n < 10 then [digit_char n] else itoa (n div 10) @ [digit_char (n mod 10)])"

declare itoa.simps [simp del]

definition dec_value :: "string \<Rightarrow> nat" where
  "dec_value s = foldl (\<lambda>n c. 10 * n + digit_val c) 0 s"

text \<open>
  \<open>strconv.Atoi\<close> on a string of digits: an \<open>int\<close> of 64 bits, or an error when it does not
  fit; \<open>strconv.ParseUint(s, 10, 64)\<close> likewise for \<open>uint64\<close>.
\<close>

definition Atoi_digits :: "string \<Rightarrow> nat option" where
  "Atoi_digits s =
     (if s \<noteq> [] \<and> list_all is_digit s \<and> dec_value s < 2 ^ 63 then Some (dec_value s) else None)"

text \<open>\<open>strconv.Atoi\<close> on any string: an optional sign and then digits.\<close>

definition Atoi :: "string \<Rightarrow> int option" where
  "Atoi s =
     (let neg = hasPrefix s ''-'';
          d = (if neg \<or> hasPrefix s ''+'' then drop 1 s else s);
          n = (if neg then - int (dec_value d) else int (dec_value d))
      in if d \<noteq> [] \<and> list_all is_digit d \<and> - (2 ^ 63) \<le> n \<and> n < 2 ^ 63 then Some n else None)"

definition ParseUint64 :: "string \<Rightarrow> u64 option" where
  "ParseUint64 s =
     (if s \<noteq> [] \<and> list_all is_digit s \<and> dec_value s < 2 ^ 64 then Some (of_nat (dec_value s)) else None)"

section \<open>Bytes and hexadecimal\<close>

definition bytes_of :: "string \<Rightarrow> u8 list" where
  "bytes_of s = map (\<lambda>c. of_nat (of_char c)) s"

definition hex_digit :: "nat \<Rightarrow> char" where
  "hex_digit d = (if d < 10 then char_of (48 + d) else char_of (87 + d))"

definition hex_encode :: "u8 list \<Rightarrow> string" where
  "hex_encode bs = concat (map (\<lambda>b. [hex_digit (unat b div 16), hex_digit (unat b mod 16)]) bs)"

definition hex_val :: "char \<Rightarrow> nat option" where
  "hex_val c =
     (let n = of_char c :: nat
      in if 48 \<le> n \<and> n \<le> 57 then Some (n - 48)
         else if 97 \<le> n \<and> n \<le> 102 then Some (n - 87)
         else if 65 \<le> n \<and> n \<le> 70 then Some (n - 55) else None)"

text \<open>\<open>hex.DecodeString\<close>: an error for a character that is no digit and for an odd length.\<close>

fun hex_decode :: "string \<Rightarrow> u8 list option" where
  "hex_decode [] = Some []"
| "hex_decode [c] = None"
| "hex_decode (c # d # s) =
     (case (hex_val c, hex_val d, hex_decode s) of
        (Some h, Some l, Some bs) \<Rightarrow> Some (of_nat (16 * h + l) # bs)
      | _ \<Rightarrow> None)"

section \<open>Lemmas\<close>

lemma hasPrefix_append [simp]: "hasPrefix (p @ s) p"
  by (simp add: hasPrefix_def)

lemma hasPrefix_simps: "hasPrefix s ''''" "hasPrefix (c # s) (d # p) \<longleftrightarrow> c = d \<and> hasPrefix s p"
  by (auto simp: hasPrefix_def)

lemma hasPrefix_Nil: "\<not> hasPrefix [] (c # p)"
  by (simp add: hasPrefix_def)

lemma hasPrefix_iff: "hasPrefix s p \<longleftrightarrow> (\<exists>t. s = p @ t)"
  by (auto simp: hasPrefix_def) (metis append_take_drop_id)

lemma strip_all_none: "match_any ps s = None \<Longrightarrow> strip_all ps s = s"
  by (subst strip_all.simps) simp

lemma match_any_None: "match_any ps s = None \<longleftrightarrow> (\<forall>p\<in>set ps. p \<noteq> [] \<longrightarrow> \<not> hasPrefix s p)"
  by (auto simp: match_any_def find_None_iff)

lemma strip_all_stripped: "match_any ps (strip_all ps s) = None"
  by (induction ps s rule: strip_all.induct)
    (subst strip_all.simps, auto split: option.splits)

lemma strip_all_idem: "strip_all ps (strip_all ps s) = strip_all ps s"
  by (rule strip_all_none) (rule strip_all_stripped)

text \<open>A string whose first and last bytes are printable ASCII is its own trimmed form.\<close>

definition graphic :: "char \<Rightarrow> bool" where
  "graphic c \<longleftrightarrow> (33 :: nat) \<le> of_char c \<and> of_char c \<le> (126 :: nat)"

lemma match_any_graphic: "graphic c \<Longrightarrow> match_any unicode_spaces (c # s) = None"
  by (auto simp: match_any_None unicode_spaces_def hasPrefix_def graphic_def)

lemma match_any_graphic_rev: "graphic c \<Longrightarrow> match_any (map rev unicode_spaces) (c # s) = None"
  by (auto simp: match_any_None unicode_spaces_def hasPrefix_def graphic_def)

lemma match_any_blank: "match_any unicode_spaces (CHR '' '' # s) = Some '' ''"
  by (simp add: match_any_def unicode_spaces_def hasPrefix_def)

lemma trimSpace_graphic:
  assumes "s \<noteq> []" "graphic (hd s)" "graphic (last s)"
  shows "trimSpace s = s"
proof -
  obtain c t where s: "s = c # t" using assms(1) by (cases s) auto
  obtain u d where r: "s = u @ [d]" using assms(1) by (cases s rule: rev_cases) auto
  have "strip_all unicode_spaces s = s"
    using assms(2) match_any_graphic [of c t] by (intro strip_all_none) (simp add: s)
  moreover have "strip_all (map rev unicode_spaces) (rev s) = rev s"
    using assms(3) match_any_graphic_rev [of d "rev u"] by (intro strip_all_none) (simp add: r)
  ultimately show ?thesis by (simp add: trimSpace_def)
qed

lemma trimSpace_Nil [simp]: "trimSpace [] = []"
  by (simp add: trimSpace_def strip_all_none match_any_None hasPrefix_def unicode_spaces_def)

lemma split_on_neq_Nil [simp]: "split_on c s \<noteq> []"
  by (induction s) (auto split: list.splits)

lemma split_on_no_sep: "c \<notin> set x \<Longrightarrow> split_on c x = [x]"
  by (induction x) auto

lemma split_on_append: "c \<notin> set x \<Longrightarrow> split_on c (x @ c # s) = x # split_on c s"
  by (induction x) auto

lemma split_join:
  "xs \<noteq> [] \<Longrightarrow> \<forall>x\<in>set xs. c \<notin> set x \<Longrightarrow> split_on c (join_with [c] xs) = xs"
  by (induction "[c]" xs rule: join_with.induct) (auto simp: split_on_no_sep split_on_append)

lemma join_split: "join_with [c] (split_on c s) = s"
proof (induction s)
  case (Cons x s)
  then show ?case by (cases "split_on c s"; cases "tl (split_on c s)") auto
qed simp

lemma of_char_digit_char: "d < 10 \<Longrightarrow> of_char (digit_char d) = 48 + d"
  by (simp add: digit_char_def)

lemma digit_char_digit [simp]: "d < 10 \<Longrightarrow> is_digit (digit_char d)"
  by (simp add: is_digit_def of_char_digit_char)

lemma digit_val_char [simp]: "d < 10 \<Longrightarrow> digit_val (digit_char d) = d"
  by (simp add: digit_val_def of_char_digit_char)

lemma itoa_digits: "itoa n \<noteq> [] \<and> list_all is_digit (itoa n)"
proof (induction n rule: itoa.induct)
  case (1 n)
  then show ?case by (subst (1 2) itoa.simps) auto
qed

lemma dec_value_snoc: "dec_value (s @ [c]) = 10 * dec_value s + digit_val c"
  by (simp add: dec_value_def)

lemma dec_value_itoa: "dec_value (itoa n) = n"
proof (induction n rule: itoa.induct)
  case (1 n)
  then show ?case
    by (subst itoa.simps) (auto simp: dec_value_snoc, simp add: dec_value_def)
qed

theorem Atoi_itoa: "n < 2 ^ 63 \<Longrightarrow> Atoi_digits (itoa n) = Some n"
  by (simp add: Atoi_digits_def itoa_digits dec_value_itoa)

lemma ParseUint64_itoa: "ParseUint64 (itoa (unat w)) = Some w"
proof -
  have "unat w < 2 ^ 64" using unsigned_less [of w] by simp
  then show ?thesis by (simp add: ParseUint64_def itoa_digits dec_value_itoa)
qed

lemma hex_val_digit: "d < 16 \<Longrightarrow> hex_val (hex_digit d) = Some d"
  by (auto simp: hex_val_def hex_digit_def Let_def)

lemma hex_decode_encode [simp]: "hex_decode (hex_encode bs) = Some bs"
proof (induction bs)
  case (Cons b bs)
  have "unat b div 16 < 16" using unat_u8_less [of b] by (simp add: less_mult_imp_div_less)
  moreover have "of_nat (16 * (unat b div 16) + unat b mod 16) = b" by simp
  ultimately show ?case
    using Cons by (simp add: hex_encode_def hex_val_digit del: of_nat_add of_nat_mult)
qed (simp add: hex_encode_def)

lemma length_bytes_of [simp]: "length (bytes_of s) = length s"
  by (simp add: bytes_of_def)

lemma unat_byte_of_char [simp]: "unat (of_nat (of_char c) :: u8) = of_char c"
  using nat_of_char_less_256 [of c] by (simp add: unat_of_nat)

lemma of_char_u8_inject: "(of_nat (of_char c) :: u8) = of_nat (of_char d) \<longleftrightarrow> c = d"
  by (metis unat_byte_of_char of_char_eq_iff)

lemma bytes_of_inject [simp]: "bytes_of s = bytes_of t \<longleftrightarrow> s = t"
  unfolding bytes_of_def
  by (rule iffI) (auto dest!: map_injective intro!: injI simp: of_char_u8_inject)

section \<open>Cutting, case and truncation\<close>

text \<open>\<open>strings.Cut\<close>: the text before and after the first separator, and whether it occurs.\<close>

definition Cut :: "string \<Rightarrow> string \<Rightarrow> string \<times> string \<times> bool" where
  "Cut s sep =
     (case Index s sep of
        Some i \<Rightarrow> (take i s, drop (i + length sep) s, True)
      | None \<Rightarrow> (s, '''', False))"

definition hasSuffix :: "string \<Rightarrow> string \<Rightarrow> bool" where
  "hasSuffix s p \<longleftrightarrow> length p \<le> length s \<and> drop (length s - length p) s = p"

definition ascii :: "char \<Rightarrow> bool" where
  "ascii c \<longleftrightarrow> of_char c < (128 :: nat)"

definition lower_char :: "char \<Rightarrow> char" where
  "lower_char c = (if (65 :: nat) \<le> of_char c \<and> of_char c \<le> (90 :: nat) then char_of (of_char c + (32 :: nat)) else c)"

text \<open>
  \<open>strings.ToLower\<close>: byte by byte on ASCII. Other strings go through the case tables of
  Unicode, which are the first argument.
\<close>

definition ToLower :: "(string \<Rightarrow> string) \<Rightarrow> string \<Rightarrow> string" where
  "ToLower unicode s = (if list_all ascii s then map lower_char s else unicode s)"

definition upper_char :: "char \<Rightarrow> char" where
  "upper_char c = (if (97 :: nat) \<le> of_char c \<and> of_char c \<le> (122 :: nat) then char_of (of_char c - (32 :: nat)) else c)"

definition ToUpper :: "(string \<Rightarrow> string) \<Rightarrow> string \<Rightarrow> string" where
  "ToUpper unicode s = (if list_all ascii s then map upper_char s else unicode s)"

text \<open>\<open>strings.FieldsFunc\<close> for a test on ASCII bytes, and \<open>strings.Contains\<close>.\<close>

fun fields_func :: "(char \<Rightarrow> bool) \<Rightarrow> string \<Rightarrow> string \<Rightarrow> string list" where
  "fields_func f acc [] = emit_field acc"
| "fields_func f acc (c # cs) = (if f c then emit_field acc @ fields_func f [] cs else fields_func f (c # acc) cs)"

definition Contains_str :: "string \<Rightarrow> string \<Rightarrow> bool" where
  "Contains_str s sub \<longleftrightarrow> Index s sub \<noteq> None"

lemma Cut_no_sep: "Index s sep = None \<Longrightarrow> Cut s sep = (s, '''', False)"
  by (simp add: Cut_def)

lemma Index_char_append: "c \<notin> set x \<Longrightarrow> Index (x @ c # y) [c] = Some (length x)"
  by (induction x) (auto simp: hasPrefix_simps)

lemma Index_char_None: "Index s [c] = None \<longleftrightarrow> c \<notin> set s"
  by (induction s) (auto simp: hasPrefix_simps)

lemma Cut_append: "c \<notin> set x \<Longrightarrow> Cut (x @ c # y) [c] = (x, y, True)"
  by (simp add: Cut_def Index_char_append)

lemma Cut_absent: "c \<notin> set s \<Longrightarrow> Cut s [c] = (s, '''', False)"
  by (simp add: Cut_no_sep Index_char_None)

lemma lower_char_idem [simp]: "lower_char (lower_char c) = lower_char c"
  by (auto simp: lower_char_def)

lemma ascii_lower [simp]: "ascii c \<Longrightarrow> ascii (lower_char c)"
  by (auto simp: lower_char_def ascii_def)

lemma LastIndex_char_None: "LastIndex s [c] = None \<longleftrightarrow> c \<notin> set s"
  by (induction s) (auto simp: hasPrefix_simps split: option.splits)

lemma LastIndex_char_append: "c \<notin> set y \<Longrightarrow> LastIndex (x @ c # y) [c] = Some (length x)"
  by (induction x) (auto simp: hasPrefix_simps LastIndex_char_None split: option.splits)

text \<open>An ASCII blank separates fields: no encoding of a wider white space contains one.\<close>

definition ascii_blank :: "char \<Rightarrow> bool" where
  "ascii_blank c \<longleftrightarrow> c = CHR '' '' \<or> c = CHR 0x0A"

lemma wide_space_no_blank: "p \<in> set unicode_spaces \<Longrightarrow> 1 < length p \<Longrightarrow> ascii_blank c \<Longrightarrow> c \<notin> set p"
  by (auto simp: unicode_spaces_def ascii_blank_def)

lemma match_any_before_blank:
  assumes "ascii_blank c" "a \<noteq> []"
  shows "match_any unicode_spaces (a @ c # b) = match_any unicode_spaces a"
proof -
  have "hasPrefix (a @ c # b) p \<longleftrightarrow> hasPrefix a p" if "p \<in> set unicode_spaces" for p
  proof (cases "length p \<le> length a")
    case False
    then obtain k where k: "length p = length a + Suc k" by (metis add_Suc_right less_imp_Suc_add linorder_not_le)
    have "\<not> hasPrefix (a @ c # b) p"
    proof
      assume "hasPrefix (a @ c # b) p"
      then have "p = a @ c # take k b" by (simp add: hasPrefix_def k)
      then have "c \<in> set p" "1 < length p" using assms(2) by (auto simp: Suc_le_eq)
      then show False using wide_space_no_blank [OF that _ assms(1)] by blast
    qed
    moreover have "\<not> hasPrefix a p"
    proof
      assume "hasPrefix a p"
      then have "length (take (length p) a) = length p" by (simp add: hasPrefix_def)
      then show False using False by simp
    qed
    ultimately show ?thesis by blast
  qed (simp add: hasPrefix_def)
  then have "find (\<lambda>p. p \<noteq> [] \<and> hasPrefix (a @ c # b) p) ps = find (\<lambda>p. p \<noteq> [] \<and> hasPrefix a p) ps"
    if "set ps \<subseteq> set unicode_spaces" for ps
    using that by (induction ps) auto
  then show ?thesis by (simp add: match_any_def)
qed

lemma match_any_at_blank: "ascii_blank c \<Longrightarrow> match_any unicode_spaces (c # b) = Some [c]"
  unfolding ascii_blank_def by (elim disjE) (simp_all add: match_any_def unicode_spaces_def hasPrefix_def)

lemma match_any_prefix: "match_any ps s = Some p \<Longrightarrow> \<exists>t. s = p @ t"
  by (auto simp: match_any_def find_Some_iff hasPrefix_iff)

lemma fields_from_blank:
  "ascii_blank c \<Longrightarrow> fields_from acc (a @ c # b) = fields_from acc a @ Fields b"
proof (induction acc a rule: fields_from.induct)
  case (1 acc)
  then show ?case by (simp add: match_any_at_blank Fields_def)
next
  case (2 acc x xs)
  have m: "match_any unicode_spaces (x # xs @ c # b) = match_any unicode_spaces (x # xs)"
    using match_any_before_blank [OF "2.prems", of "x # xs" b] by simp
  show ?case
  proof (cases "match_any unicode_spaces (x # xs)")
    case None
    then show ?thesis using m 2 by simp
  next
    case (Some p)
    then have "length p \<le> length (x # xs)" by (metis length_append match_any_prefix le_add1)
    then have "drop (length p) (x # xs @ c # b) = drop (length p) (x # xs) @ c # b"
      using drop_append [of "length p" "x # xs" "c # b"] by simp
    then show ?thesis using m Some 2 by simp
  qed
qed

lemma Fields_blank: "ascii_blank c \<Longrightarrow> Fields (a @ c # b) = Fields a @ Fields b"
  by (simp add: Fields_def fields_from_blank)

lemma fields_from_graphic: "list_all graphic s \<Longrightarrow> fields_from acc s = emit_field (rev s @ acc)"
  by (induction s arbitrary: acc) (simp_all add: match_any_graphic)

lemma Fields_graphic: "list_all graphic s \<Longrightarrow> s \<noteq> [] \<Longrightarrow> Fields s = [s]"
  by (simp add: Fields_def fields_from_graphic emit_field_def)

lemma fields_from_infix:
  "f \<in> set (fields_from acc s) \<Longrightarrow> \<exists>x y. rev acc @ s = x @ f @ y"
proof (induction acc s rule: fields_from.induct)
  case (1 acc)
  then show ?case by (auto simp: emit_field_def split: if_splits intro: exI [of _ "[]"])
next
  case (2 acc c cs)
  show ?case
  proof (cases "match_any unicode_spaces (c # cs)")
    case None
    then show ?thesis using 2 by simp
  next
    case (Some p)
    then obtain t where t: "c # cs = p @ t" using match_any_prefix by blast
    consider "f \<in> set (emit_field acc)" | "f \<in> set (fields_from [] (drop (length p) (c # cs)))"
      using "2.prems" Some by auto
    then show ?thesis
    proof cases
      case 1
      then have "rev acc @ c # cs = [] @ f @ c # cs" by (auto simp: emit_field_def split: if_splits)
      then show ?thesis by blast
    next
      case 2
      then obtain x y where "t = x @ f @ y" using "2.IH"(2) [OF Some] t by auto
      then have "rev acc @ c # cs = (rev acc @ p @ x) @ f @ y" using t by simp
      then show ?thesis by blast
    qed
  qed
qed

lemma Fields_infix: "f \<in> set (Fields s) \<Longrightarrow> \<exists>x y. s = x @ f @ y"
  using fields_from_infix [of f "[]" s] by (simp add: Fields_def)

lemma Index_append_iff: "Index s sub \<noteq> None \<longleftrightarrow> (\<exists>x y. s = x @ sub @ y)"
proof (induction s)
  case (Cons a s)
  show ?case
  proof (cases "hasPrefix (a # s) sub")
    case True
    then obtain t where "a # s = [] @ sub @ t" by (auto simp: hasPrefix_iff)
    then have "\<exists>x y. a # s = x @ sub @ y" by blast
    moreover have "Index (a # s) sub = Some 0" using True by simp
    ultimately show ?thesis by blast
  next
    case False
    have "\<exists>x y. s = x @ sub @ y" if "a # s = x @ sub @ y" for x y
      using that False by (cases x) auto
    moreover have "a # s = (a # x) @ sub @ y" if "s = x @ sub @ y" for x y using that by simp
    ultimately have "(\<exists>x y. a # s = x @ sub @ y) \<longleftrightarrow> (\<exists>x y. s = x @ sub @ y)" by blast
    moreover have "Index (a # s) sub \<noteq> None \<longleftrightarrow> Index s sub \<noteq> None" using False by auto
    ultimately show ?thesis using Cons by blast
  qed
qed simp

lemma hex_encode_graphic: "list_all graphic (hex_encode bs)"
proof -
  have "graphic (hex_digit d)" if "d < 16" for d
    using that by (auto simp: hex_digit_def graphic_def)
  moreover have "unat b div 16 < 16" for b :: u8 using unat_u8_less [of b] by (simp add: less_mult_imp_div_less)
  ultimately show ?thesis by (induction bs) (simp_all add: hex_encode_def)
qed

end
