(* ===== verification/Egress_Classes.thy ===== *)
theory Egress_Classes
  imports Go_Strings Egress_Classify
begin

unbundle bit_operations_syntax

text \<open>
  The collector's side of the destination classes: the bits and names of
  \<^verbatim>\<open>src/collector/main.go\<close>, the parser and printer of class lists, and the two mask
  operations of the broker, \<open>narrowMask\<close> (\<^verbatim>\<open>narrow.go\<close>) and \<open>expandMask\<close> (\<^verbatim>\<open>broker.go\<close>).
\<close>

section \<open>Classes and their names\<close>

definition dstLoopback :: u32 where "dstLoopback = push_bit 0 1"
definition dstLinklocal :: u32 where "dstLinklocal = push_bit 1 1"
definition dstPrivate :: u32 where "dstPrivate = push_bit 2 1"
definition dstPublic :: u32 where "dstPublic = push_bit 3 1"
definition dstOther :: u32 where "dstOther = push_bit 4 1"

lemmas dst_bits = dstLoopback_def dstLinklocal_def dstPrivate_def dstPublic_def dstOther_def

definition dstClasses :: "(string \<times> u32) list" where
  "dstClasses =
     [(''loopback'', dstLoopback), (''linklocal'', dstLinklocal), (''private'', dstPrivate),
      (''public'', dstPublic), (''other'', dstOther)]"

definition all_classes :: u32 where
  "all_classes = foldl (\<lambda>m c. m OR snd c) 0 dstClasses"

text \<open>One token of the list; an error carries the token that names no class.\<close>

definition parse_token :: "u32 \<Rightarrow> string \<Rightarrow> string + u32" where
  "parse_token m tok =
     (if tok = '''' \<or> tok = ''none'' then Inr m
      else if tok = ''any'' \<or> tok = ''all'' then Inr (foldl (\<lambda>m c. m OR snd c) m dstClasses)
      else case find (\<lambda>c. fst c = tok) dstClasses of
             Some c \<Rightarrow> Inr (m OR snd c)
           | None \<Rightarrow> Inl tok)"

fun parse_tokens :: "u32 \<Rightarrow> string list \<Rightarrow> string + u32" where
  "parse_tokens m [] = Inr m"
| "parse_tokens m (t # ts) =
     (case parse_token m (trimSpace t) of Inl e \<Rightarrow> Inl e | Inr m' \<Rightarrow> parse_tokens m' ts)"

definition parseClasses :: "string \<Rightarrow> string + u32" where
  "parseClasses s = parse_tokens 0 (split_on CHR '','' s)"

definition classNames :: "u32 \<Rightarrow> string" where
  "classNames m =
     (if m = 0 then ''none''
      else join_with '','' (map fst (filter (\<lambda>c. m AND snd c \<noteq> 0) dstClasses)))"

section \<open>Mask operations\<close>

definition narrowMask :: "u32 \<Rightarrow> u32 \<Rightarrow> u32" where
  "narrowMask cur req = cur AND NOT req"

definition expandMask :: "u32 \<Rightarrow> u32 \<Rightarrow> u32 \<Rightarrow> u32" where
  "expandMask cur req ceiling = cur OR (req AND ceiling)"

text \<open>\<open>a \<subseteq> b\<close> for sets of classes.\<close>

definition submask :: "u32 \<Rightarrow> u32 \<Rightarrow> bool" where
  "submask a b \<longleftrightarrow> a AND NOT b = 0"

lemma submask_bits: "submask a b \<longleftrightarrow> (\<forall>n. bit a n \<longrightarrow> bit b n)"
proof
  assume a: "submask a b"
  show "\<forall>n. bit a n \<longrightarrow> bit b n"
  proof (intro allI impI)
    fix n assume n: "bit a n"
    then have "n < 32" using bit_imp_le_length [of a n] by simp
    moreover from a have "\<not> bit (a AND NOT b) n" by (simp add: submask_def)
    ultimately show "bit b n" using n by (simp add: bit_simps)
  qed
next
  assume "\<forall>n. bit a n \<longrightarrow> bit b n"
  then show "submask a b" unfolding submask_def by (intro bit_word_eqI) (auto simp: bit_simps)
qed

lemma submask_refl [simp, intro]: "submask a a"
  by (simp add: submask_bits)

lemma submask_trans [trans]: "submask a b \<Longrightarrow> submask b c \<Longrightarrow> submask a c"
  by (simp add: submask_bits)

lemma submask_zero [simp]: "submask 0 a"
  by (simp add: submask_bits)

lemma submask_and [simp]: "submask (a AND b) a" "submask (a AND b) b"
  by (simp_all add: submask_bits bit_simps)

lemma submask_or [simp]: "submask (a OR b) c \<longleftrightarrow> submask a c \<and> submask b c"
  by (auto simp: submask_bits bit_simps)

lemma submask_meet: "submask a b \<Longrightarrow> a AND c \<noteq> 0 \<Longrightarrow> b AND c \<noteq> 0"
  by (auto simp: submask_bits bit_eq_iff bit_simps)

lemma narrowMask_submask [simp]: "submask (narrowMask cur req) cur"
  by (simp add: narrowMask_def)

lemma narrowMask_disjoint [simp]: "narrowMask cur req AND req = 0"
  by (auto simp: narrowMask_def bit_eq_iff bit_simps)

lemma narrowMask_keeps: "narrowMask cur req AND NOT req = cur AND NOT req"
  by (auto simp: narrowMask_def bit_eq_iff bit_simps)

lemma narrowMask_idem [simp]: "narrowMask (narrowMask cur req) req = narrowMask cur req"
  by (auto simp: narrowMask_def bit_eq_iff bit_simps)

lemma expandMask_bounds: "submask cur (expandMask cur req c)" "submask (expandMask cur req c) (cur OR c)"
  by (auto simp: expandMask_def submask_bits bit_simps)

lemma narrow_after_expand: "narrowMask (expandMask cur req c) req = narrowMask cur req"
  by (auto simp: narrowMask_def expandMask_def bit_eq_iff bit_simps)

section \<open>Parsing and printing\<close>

lemma dst_bits_match_object:
  "dstLoopback = DST_LOOPBACK" "dstLinklocal = DST_LINKLOCAL" "dstPrivate = DST_PRIVATE"
  "dstPublic = DST_PUBLIC" "dstOther = DST_OTHER"
  by (simp_all add: dst_bits DST_defs)

lemma class_bit: "(m :: u32) AND push_bit k 1 \<in> {0, push_bit k 1}"
proof -
  have "m AND push_bit k 1 = (if bit m k then push_bit k 1 else 0)"
    by (rule bit_word_eqI) (cases "bit m k"; auto simp: bit_simps)
  then show ?thesis by simp
qed

lemma or_classes_acc: "foldl (\<lambda>m c. m OR snd c) a cs = a OR foldl (\<lambda>m c. m OR snd c) (0 :: u32) cs"
proof (induction cs arbitrary: a)
  case (Cons c cs)
  from Cons [of "a OR snd c"] Cons [of "snd c"] show ?case by (simp add: or.assoc)
qed simp

lemma or_of_held:
  "\<forall>c\<in>set cs. m AND snd c \<in> {0, snd c} \<Longrightarrow>
   foldl (\<lambda>m c. m OR snd c) 0 (filter (\<lambda>c. m AND snd c \<noteq> 0) cs) = m AND foldl (\<lambda>m c. m OR snd c) (0 :: u32) cs"
proof (induction cs)
  case (Cons c cs)
  then show ?case
    using or_classes_acc [of "snd c" cs] or_classes_acc [of "snd c" "filter (\<lambda>c. m AND snd c \<noteq> 0) cs"]
    by (auto simp: bit.conj_disj_distrib)
qed simp

lemma all_classes_eq: "all_classes = 31"
  by (simp add: all_classes_def dstClasses_def dst_bits)

lemma class_names_ok:
  "c \<in> set dstClasses \<Longrightarrow> CHR '','' \<notin> set (fst c) \<and> trimSpace (fst c) = fst c
     \<and> fst c \<notin> {'''', ''none'', ''any'', ''all''}"
  by (auto simp: dstClasses_def graphic_def intro!: trimSpace_graphic)

lemma distinct_class_names: "distinct (map fst dstClasses)"
  by (simp add: dstClasses_def)

lemma find_class: "c \<in> set dstClasses \<Longrightarrow> find (\<lambda>d. fst d = fst c) dstClasses = Some c"
  by (auto simp: dstClasses_def)

lemma parse_class_name: "c \<in> set dstClasses \<Longrightarrow> parse_token m (fst c) = Inr (m OR snd c)"
  using class_names_ok [of c] by (simp add: parse_token_def find_class)

lemma parse_class_names:
  "set cs \<subseteq> set dstClasses \<Longrightarrow> parse_tokens m (map fst cs) = Inr (foldl (\<lambda>m c. m OR snd c) m cs)"
  by (induction cs arbitrary: m) (auto simp: parse_class_name class_names_ok)

lemma held_class: "c \<in> set dstClasses \<Longrightarrow> m AND snd c \<in> {0, snd c}"
  unfolding dstClasses_def dst_bits
  using class_bit [of m 0] class_bit [of m 1] class_bit [of m 2] class_bit [of m 3] class_bit [of m 4]
  by auto

lemma or_of_held_classes:
  "foldl (\<lambda>m c. m OR snd c) 0 (filter (\<lambda>c. m AND snd c \<noteq> 0) dstClasses) = m AND all_classes"
  unfolding all_classes_def by (rule or_of_held) (blast dest: held_class)

lemma class_submask: "c \<in> set cs \<Longrightarrow> submask (snd c) (foldl (\<lambda>m c. m OR snd c) 0 cs)"
proof (induction cs)
  case (Cons d cs)
  then show ?case using or_classes_acc [of "snd d" cs] by (auto simp: submask_bits bit_simps)
qed simp

text \<open>A parsed list never holds a bit outside the five classes.\<close>

lemma parse_token_bound:
  assumes "parse_token m t = Inr m'" "submask m all_classes"
  shows "submask m' all_classes"
proof -
  have "submask (snd c) all_classes" if "find (\<lambda>c. fst c = t) dstClasses = Some c" for c
    using that class_submask [of c dstClasses] by (auto simp: find_Some_iff all_classes_def)
  moreover have "submask (foldl (\<lambda>m c. m OR snd c) m dstClasses) all_classes"
    using assms(2) or_classes_acc [of m dstClasses] by (simp flip: all_classes_def)
  ultimately show ?thesis
    using assms by (auto simp: parse_token_def split: if_splits option.splits)
qed

lemma parse_tokens_bound: "parse_tokens m ts = Inr m' \<Longrightarrow> submask m all_classes \<Longrightarrow> submask m' all_classes"
  by (induction ts arbitrary: m) (auto split: sum.splits dest: parse_token_bound)

lemma parseClasses_bound: "parseClasses s = Inr m \<Longrightarrow> submask m all_classes"
  unfolding parseClasses_def by (erule parse_tokens_bound) simp

lemma parse_names: "parseClasses (classNames m) = Inr (m AND all_classes)"
proof (cases "filter (\<lambda>c. m AND snd c \<noteq> 0) dstClasses = []")
  case True
  then have "m AND all_classes = 0" using or_of_held_classes [of m] by simp
  moreover have "parseClasses '''' = Inr 0" "parseClasses ''none'' = Inr 0"
    using trimSpace_graphic [of "''none''"] by (simp_all add: parseClasses_def parse_token_def graphic_def)
  ultimately show ?thesis by (simp add: classNames_def True)
next
  case False
  let ?cs = "filter (\<lambda>c. m AND snd c \<noteq> 0) dstClasses"
  from False have "classNames m = join_with '','' (map fst ?cs)" by (auto simp: classNames_def)
  moreover have "split_on CHR '','' (join_with '','' (map fst ?cs)) = map fst ?cs"
    using False class_names_ok by (intro split_join) auto
  ultimately show ?thesis
    by (simp add: parseClasses_def parse_class_names or_of_held_classes)
qed

section \<open>Properties\<close>

text \<open>
  Class lists survive the trip through text. Printing any mask and parsing it back
  gives the classes it holds, with the bits that stand for no class dropped; and whatever
  spelling of a list was parsed, its printed form parses to the same mask.
\<close>

theorem parse_classNames:
  "parseClasses (classNames m) = Inr (m AND all_classes)
   \<and> (case parseClasses s of Inl _ \<Rightarrow> True | Inr m' \<Rightarrow> parseClasses (classNames m') = Inr m')"
proof -
  have "m' AND all_classes = m'" if "parseClasses s = Inr m'" for m'
    using parseClasses_bound [OF that] by (auto simp: submask_bits bit_eq_iff bit_simps)
  then show ?thesis by (auto simp: parse_names split: sum.splits)
qed

end
