(* ===== verification/Agent_Identity.thy ===== *)
theory Agent_Identity
  imports Egress_Classes "HOL-Library.Sublist"
begin

text \<open>
  How the collector and the broker recognise an agent: cgroup paths
  (\<open>isAgentCgroup\<close>, \<open>isBrokerCaller\<close> of \<^verbatim>\<open>src/collector/control.go\<close>), instance names and
  the delegation generation they carry (\<open>validSuffix\<close>, \<open>validTask\<close>, \<open>delegGen\<close>,
  \<open>delegatedDropIn\<close> of \<^verbatim>\<open>src/collector/broker.go\<close>), and the operator's targets
  (\<open>validInstance\<close>, \<open>resolveAgentTarget\<close> of \<^verbatim>\<open>src/collector/narrow.go\<close>). The cgroup file
  system is a parameter: \<open>stat\<close> gives the inode of a path, \<open>glob\<close> the matches of a pattern.
\<close>

section \<open>Paths\<close>

definition trimSuffix :: "string \<Rightarrow> string \<Rightarrow> string" where
  "trimSuffix s p = (if hasSuffix s p then take (length s - length p) s else s)"

text \<open>\<open>filepath.Clean\<close> and \<open>filepath.Join\<close> on Unix; the components read so far are reversed.\<close>

fun clean_comps :: "bool \<Rightarrow> string list \<Rightarrow> string list \<Rightarrow> string list" where
  "clean_comps rooted acc [] = rev acc"
| "clean_comps rooted acc (c # cs) =
     (if c = '''' \<or> c = ''.'' then clean_comps rooted acc cs
      else if c = ''..'' then
        (case acc of
           x # xs \<Rightarrow> if x = ''..'' then clean_comps rooted (''..'' # acc) cs else clean_comps rooted xs cs
         | [] \<Rightarrow> clean_comps rooted (if rooted then [] else [''..'']) cs)
      else clean_comps rooted (c # acc) cs)"

definition Clean :: "string \<Rightarrow> string" where
  "Clean p =
     (if p = '''' then ''.''
      else
        let rooted = (hd p = CHR ''/'');
            s = join_with ''/'' (clean_comps rooted [] (split_on CHR ''/'' p))
        in if rooted then ''/'' @ s else if s = '''' then ''.'' else s)"

definition Join2 :: "string \<Rightarrow> string \<Rightarrow> string" where
  "Join2 a b =
     (if a = '''' then (if b = '''' then '''' else Clean b)
      else if b = '''' then Clean a else Clean (a @ ''/'' @ b))"

definition cgroup_root :: string where "cgroup_root = ''/sys/fs/cgroup''"

section \<open>Who is calling\<close>

text \<open>
  \<open>agentCgroupRe\<close>, \<open>^(/bulkhead\.slice)?/bulkhead-agent\.slice/bulkhead-agent@[^/]+\.service$\<close>:
  an optional parent slice, then one leaf with a non-empty name free of slashes.
\<close>

definition agent_leaf :: "string \<Rightarrow> bool" where
  "agent_leaf s \<longleftrightarrow>
     hasSuffix s ''.service'' \<and> trimSuffix s ''.service'' \<noteq> '''' \<and> CHR ''/'' \<notin> set (trimSuffix s ''.service'')"

definition agent_prefix :: string where
  "agent_prefix = ''/bulkhead-agent.slice/bulkhead-agent@''"

definition agent_parent :: string where "agent_parent = ''/bulkhead.slice''"

definition isAgentCgroup :: "string \<Rightarrow> bool" where
  "isAgentCgroup p \<longleftrightarrow>
     (hasPrefix p agent_prefix \<and> agent_leaf (trimPrefix p agent_prefix)) \<or>
     (hasPrefix p (agent_parent @ agent_prefix) \<and> agent_leaf (trimPrefix p (agent_parent @ agent_prefix)))"

definition brokerCgroupPath :: string where
  "brokerCgroupPath = ''/sys/fs/cgroup/system.slice/bulkhead-broker.service''"

definition isBrokerCaller :: "string \<Rightarrow> bool" where
  "isBrokerCaller p \<longleftrightarrow> Clean p = Clean (trimPrefix brokerCgroupPath cgroup_root)"

text \<open>\<open>cgroupPathFromBytes\<close>: the path of the unified hierarchy in \<open>/proc/<pid>/cgroup\<close>.\<close>

definition cgroupPathFromBytes :: "string \<Rightarrow> string" where
  "cgroupPathFromBytes data =
     (case find (\<lambda>l. hasPrefix l ''0::'') (split_on (CHR 0x0A) (trimSpace data)) of
        Some l \<Rightarrow> trimPrefix l ''0::''
      | None \<Rightarrow> '''')"

text \<open>\<open>reverifyCgroup\<close>: the path still names the cgroup that was attested.\<close>

definition reverifyCgroup :: "(string \<Rightarrow> u64 option) \<Rightarrow> string \<Rightarrow> u64 \<Rightarrow> bool" where
  "reverifyCgroup stat path want \<longleftrightarrow> stat (Join2 cgroup_root path) = Some want"

section \<open>Names an agent supplies\<close>

definition name_char :: "char \<Rightarrow> bool" where
  "name_char c \<longleftrightarrow>
     (let n = of_char c :: nat
      in 97 \<le> n \<and> n \<le> 122 \<or> 48 \<le> n \<and> n \<le> 57 \<or> c = CHR ''-'' \<or> c = CHR ''_'')"

definition validSuffix :: "string \<Rightarrow> bool" where
  "validSuffix s \<longleftrightarrow> 1 \<le> length s \<and> length s \<le> 24 \<and> list_all name_char s"

definition validInstance :: "string \<Rightarrow> bool" where
  "validInstance s \<longleftrightarrow> 1 \<le> length s \<and> length s \<le> 64 \<and> list_all name_char s"

definition validTask :: "string \<Rightarrow> bool" where
  "validTask s \<longleftrightarrow>
     s = '''' \<or> length s \<le> 4096 \<and> list_all (\<lambda>c. (32 :: nat) \<le> of_char c \<and> of_char c \<le> (126 :: nat)) s"

definition parseDelegateTail :: "string list \<Rightarrow> (string \<times> string \<times> string) option" where
  "parseDelegateTail f =
     (if length f < 3 then None
      else Some (f ! 1, f ! 2, if length f > 3 then join_with '' '' (drop 3 f) else ''''))"

text \<open>
  \<open>delegGen\<close>: the generation in the instance name of an agent's cgroup path; \<open>None\<close> is an
  error. \<open>mint_instance\<close> is the name \<open>handleDelegateTail\<close> gives a child, from the
  generation, eight random hexadecimal digits and the suffix.
\<close>

definition marker :: string where "marker = ''bulkhead-agent@''"

definition instance_of :: "string \<Rightarrow> string option" where
  "instance_of path =
     (case LastIndex path marker of
        None \<Rightarrow> None
      | Some i \<Rightarrow>
          (let inst = drop (i + length marker) path;
              inst' = (case Index inst ''.service'' of Some j \<Rightarrow> take j inst | None \<Rightarrow> inst)
          in if inst' = '''' then None else Some inst'))"

definition delegGen :: "string \<Rightarrow> nat option" where
  "delegGen path =
     (case instance_of path of
        None \<Rightarrow> None
      | Some inst \<Rightarrow>
          if length inst \<ge> 2 \<and> inst ! 0 = CHR ''d'' \<and> is_digit (inst ! 1) then
            let ds = takeWhile is_digit (tl inst); k = Suc (length ds)
            in if k < length inst \<and> inst ! k = CHR ''-'' then Atoi_digits ds else Some 0
          else Some 0)"

definition mint_instance :: "nat \<Rightarrow> string \<Rightarrow> string \<Rightarrow> string" where
  "mint_instance gen rnd sfx = ''d'' @ itoa gen @ ''-'' @ rnd @ ''-'' @ sfx"

section \<open>The drop-in of a delegated child\<close>

text \<open>
  \<open>delegatedDropIn\<close>. The router URL is written only if it is non-empty and holds no
  control character.
\<close>

definition plain_text :: "string \<Rightarrow> bool" where
  "plain_text s \<longleftrightarrow> list_all (\<lambda>c. (32 :: nat) \<le> of_char c \<and> of_char c \<noteq> (127 :: nat)) s"

definition drop_in_lines :: "string \<Rightarrow> string \<Rightarrow> string \<Rightarrow> bool \<Rightarrow> string list" where
  "drop_in_lines classes inst routerURL hasTask =
     [''[Service]'', ''ExecStart='', ''ExecStart=/usr/bin/bulkhead-agent %i'',
      ''Environment=BULKHEAD_AGENT_EGRESS='' @ classes,
      ''Environment=BULKHEAD_AGENT_DEADLINE=120'', ''Environment=BULKHEAD_AGENT_MAX_STEPS=6'',
      ''Environment=BULKHEAD_AGENT_ALLOW_DELEGATE=1'', ''Environment=BULKHEAD_AGENT_NO_EXPAND=1''] @
     (if hasTask
      then [''LoadCredential=agent-task:/run/bulkhead/tasks/'' @ inst @ ''.task'',
            ''Environment=BULKHEAD_AGENT_TASK_CRED=agent-task'']
      else [''Environment=\"BULKHEAD_AGENT_TASK=Report your egress manifest over loopback, then finish.\"'']) @
     (if routerURL \<noteq> '''' \<and> plain_text routerURL
      then [''Environment=\"BULKHEAD_ROUTER_URL='' @ routerURL @ ''\"''] else [])"

definition delegatedDropIn :: "string \<Rightarrow> string \<Rightarrow> string \<Rightarrow> bool \<Rightarrow> string" where
  "delegatedDropIn classes inst routerURL hasTask =
     concat (map (\<lambda>l. l @ [CHR 0x0A]) (drop_in_lines classes inst routerURL hasTask))"

section \<open>The operator's targets\<close>

datatype target_error = NarrowID | NarrowBadInst | NarrowNotAgent | NarrowGone

definition findAgentCgroupPath :: "(string \<Rightarrow> string list) \<Rightarrow> string \<Rightarrow> string" where
  "findAgentCgroupPath glob inst =
     (let leaf = marker @ inst @ ''.service''
      in case find (\<lambda>pat. length (glob pat) = 1)
               [''/sys/fs/cgroup/bulkhead.slice/bulkhead-agent.slice/'' @ leaf,
                ''/sys/fs/cgroup/*/bulkhead-agent.slice/'' @ leaf,
                ''/sys/fs/cgroup/bulkhead-agent.slice/'' @ leaf] of
           Some pat \<Rightarrow> trimPrefix (hd (glob pat)) cgroup_root
         | None \<Rightarrow> '''')"

definition target_path :: "(string \<Rightarrow> string list) \<Rightarrow> string \<Rightarrow> target_error + string" where
  "target_path glob target =
     (if hasPrefix target ''id:'' then Inl NarrowID
      else if hasPrefix target cgroup_root then Inr (trimPrefix target cgroup_root)
      else if hasPrefix target ''/'' then Inr target
      else
        let inst = trimSuffix (trimPrefix target marker) ''.service''
        in if \<not> validInstance inst then Inl NarrowBadInst
           else let rel = findAgentCgroupPath glob inst
                in if rel = '''' then Inl NarrowGone else Inr rel)"

definition resolveAgentTarget ::
  "(string \<Rightarrow> u64 option) \<Rightarrow> (string \<Rightarrow> string list) \<Rightarrow> string \<Rightarrow> target_error + (u64 \<times> string)"
where
  "resolveAgentTarget stat glob target =
     (case target_path glob target of
        Inl e \<Rightarrow> Inl e
      | Inr rel \<Rightarrow>
          (let full = Clean (Join2 cgroup_root rel); path = trimPrefix full cgroup_root
           in if \<not> isAgentCgroup path then Inl NarrowNotAgent
             else case stat full of
                    None \<Rightarrow> Inl NarrowGone
                  | Some cg \<Rightarrow> Inr (cg, path)))"

section \<open>Searching\<close>

lemma Index_no_char:
  assumes "sub \<noteq> []" "hd sub \<notin> set a"
  shows "Index (a @ sub @ b) sub = Some (length a)"
  using assms(2)
proof (induction a)
  case Nil
  obtain x s where "sub = x # s" using assms(1) by (cases sub) auto
  then show ?case using hasPrefix_append [of sub b] by simp
next
  case (Cons x a)
  moreover have "\<not> hasPrefix (x # a @ sub @ b) sub"
    using assms(1) Cons.prems by (cases sub) (auto simp: hasPrefix_def)
  ultimately show ?case by simp
qed

lemma LastIndex_None: "\<forall>t. suffix t s \<longrightarrow> \<not> hasPrefix t sub \<Longrightarrow> LastIndex s sub = None"
proof (induction s)
  case Nil
  then show ?case by (auto simp: hasPrefix_def)
next
  case (Cons x s)
  moreover from Cons.prems have "\<forall>t. suffix t s \<longrightarrow> \<not> hasPrefix t sub"
    by (auto intro: suffix_ConsI)
  ultimately show ?case by auto
qed

lemma append_longer:
  "xs @ b = ys @ r \<Longrightarrow> length xs < length ys \<Longrightarrow> \<exists>u. u \<noteq> [] \<and> b = u @ r \<and> ys = xs @ u"
  by (auto simp: append_eq_append_conv2)

lemma no_late_occurrence:
  assumes "sub \<noteq> []" "last sub \<notin> set b" "suffix t (tl sub @ b)"
  shows "\<not> hasPrefix t sub"
proof
  assume "hasPrefix t sub"
  then obtain r where t: "t = sub @ r" by (auto simp: hasPrefix_iff)
  from assms(3) obtain q where q: "tl sub @ b = (q @ sub) @ r" by (auto simp: suffix_def t)
  have "length (tl sub) < length (q @ sub)" using assms(1) by (cases sub) auto
  from append_longer [OF q this] obtain u where u: "b = u @ r" "q @ sub = tl sub @ u" "u \<noteq> []"
    by blast
  then have "last sub = last u" using assms(1) by (metis last_appendR)
  with u assms(2) show False by simp
qed

lemma LastIndex_marker:
  assumes "sub \<noteq> []" "last sub \<notin> set b"
  shows "LastIndex (a @ sub @ b) sub = Some (length a)"
proof (induction a)
  case Nil
  obtain x s where s: "sub = x # s" using assms(1) by (cases sub) auto
  have "LastIndex (s @ b) sub = None"
    using no_late_occurrence [OF assms] by (intro LastIndex_None) (simp add: s)
  then show ?case using hasPrefix_append [of sub b] by (simp add: s)
qed simp

section \<open>Suffixes and paths\<close>

lemma hasSuffix_iff: "hasSuffix s p \<longleftrightarrow> (\<exists>t. s = t @ p)"
proof
  assume "hasSuffix s p"
  then have "s = take (length s - length p) s @ p" by (metis append_take_drop_id hasSuffix_def)
  then show "\<exists>t. s = t @ p" ..
qed (auto simp: hasSuffix_def)

lemma trimSuffix_append [simp]: "trimSuffix (s @ p) p = s"
  by (simp add: trimSuffix_def hasSuffix_def)

lemma trimPrefix_append [simp]: "trimPrefix (p @ s) p = s"
  by (simp add: trimPrefix_def)

lemma agent_leaf_iff:
  "agent_leaf s \<longleftrightarrow> (\<exists>inst. s = inst @ ''.service'' \<and> inst \<noteq> '''' \<and> CHR ''/'' \<notin> set inst)"
proof
  assume l: "agent_leaf s"
  then obtain t where "s = t @ ''.service''" by (auto simp: agent_leaf_def hasSuffix_iff)
  with l show "\<exists>inst. s = inst @ ''.service'' \<and> inst \<noteq> '''' \<and> CHR ''/'' \<notin> set inst"
    unfolding agent_leaf_def by (metis trimSuffix_append)
next
  assume "\<exists>inst. s = inst @ ''.service'' \<and> inst \<noteq> '''' \<and> CHR ''/'' \<notin> set inst"
  then show "agent_leaf s" unfolding agent_leaf_def hasSuffix_iff by (metis trimSuffix_append)
qed

lemma prefixed_leaf:
  "hasPrefix s p \<and> agent_leaf (trimPrefix s p) \<longleftrightarrow>
   (\<exists>inst. s = p @ inst @ ''.service'' \<and> inst \<noteq> '''' \<and> CHR ''/'' \<notin> set inst)"
  unfolding hasPrefix_iff agent_leaf_iff by (metis trimPrefix_append)

text \<open>The pattern, spelled out: an optional parent slice and one named leaf.\<close>

lemma isAgentCgroup_iff:
  "isAgentCgroup s \<longleftrightarrow>
   (\<exists>parent inst. s = parent @ agent_prefix @ inst @ ''.service'' \<and> parent \<in> {'''', agent_parent}
      \<and> inst \<noteq> '''' \<and> CHR ''/'' \<notin> set inst)"
  unfolding isAgentCgroup_def prefixed_leaf by auto

lemma split_agent_path:
  assumes "CHR ''/'' \<notin> set inst"
  shows "split_on CHR ''/'' (agent_prefix @ inst @ ''.service'') =
    ['''', ''bulkhead-agent.slice'', marker @ inst @ ''.service'']"
proof -
  have 1: "agent_prefix @ inst @ ''.service'' =
      [] @ CHR ''/'' # (''bulkhead-agent.slice'' @ CHR ''/'' # (marker @ inst @ ''.service''))"
    by (simp add: agent_prefix_def marker_def)
  have 2: "CHR ''/'' \<notin> set (marker @ inst @ ''.service'')" using assms by (simp add: marker_def)
  have 3: "CHR ''/'' \<notin> set ''bulkhead-agent.slice''" by simp
  have 4: "CHR ''/'' \<notin> set ''''" by simp
  show ?thesis
    unfolding 1 by (simp only: split_on_append [OF 3] split_on_no_sep [OF 2] split_on_append [OF 4])
qed

lemma split_nested_path:
  assumes "CHR ''/'' \<notin> set inst"
  shows "split_on CHR ''/'' (agent_parent @ agent_prefix @ inst @ ''.service'') =
    ['''', ''bulkhead.slice'', ''bulkhead-agent.slice'', marker @ inst @ ''.service'']"
proof -
  obtain r where r: "agent_prefix = CHR ''/'' # r" by (simp add: agent_prefix_def)
  have 1: "agent_parent @ agent_prefix @ inst @ ''.service'' =
      [] @ CHR ''/'' # (''bulkhead.slice'' @ CHR ''/'' # (r @ inst @ ''.service''))"
    by (simp add: agent_parent_def r)
  have 2: "split_on CHR ''/'' (r @ inst @ ''.service'') = [''bulkhead-agent.slice'', marker @ inst @ ''.service'']"
    using split_agent_path [OF assms] by (simp add: r)
  have 3: "CHR ''/'' \<notin> set ''bulkhead.slice''" "CHR ''/'' \<notin> set ''''" by simp_all
  show ?thesis
    unfolding 1 by (simp only: split_on_append [OF 3(1)] split_on_append [OF 3(2)] 2)
qed

lemma agent_leaf_comp: "marker @ inst @ ''.service'' \<notin> {'''', ''.'', ''..''}"
  by (simp add: marker_def)

lemma clean_agent_comps:
  "clean_comps rooted [] ['''', ''bulkhead-agent.slice'', marker @ inst @ ''.service''] =
     [''bulkhead-agent.slice'', marker @ inst @ ''.service'']"
  "clean_comps rooted [] ['''', ''bulkhead.slice'', ''bulkhead-agent.slice'', marker @ inst @ ''.service''] =
     [''bulkhead.slice'', ''bulkhead-agent.slice'', marker @ inst @ ''.service'']"
  using agent_leaf_comp [of inst] by simp_all

lemma Clean_agent: "isAgentCgroup p \<Longrightarrow> Clean p = p"
proof -
  assume "isAgentCgroup p"
  then obtain parent inst where p: "p = parent @ agent_prefix @ inst @ ''.service''"
    "parent \<in> {'''', agent_parent}" "CHR ''/'' \<notin> set inst" by (auto simp: isAgentCgroup_iff)
  from p(2) consider "parent = ''''" | "parent = agent_parent" by blast
  then show ?thesis
  proof cases
    case 1
    have "Clean p = CHR ''/'' # join_with ''/'' (clean_comps True [] (split_on CHR ''/'' p))"
      by (simp add: Clean_def p(1) 1 agent_prefix_def Let_def)
    also have "\<dots> = p"
      unfolding p(1) 1 append_Nil split_agent_path [OF p(3)] clean_agent_comps
      by (simp add: agent_prefix_def marker_def)
    finally show ?thesis .
  next
    case 2
    have "Clean p = CHR ''/'' # join_with ''/'' (clean_comps True [] (split_on CHR ''/'' p))"
      by (simp add: Clean_def p(1) 2 agent_parent_def Let_def)
    also have "\<dots> = p"
      unfolding p(1) 2 split_nested_path [OF p(3)] clean_agent_comps
      by (simp add: agent_prefix_def agent_parent_def marker_def)
    finally show ?thesis .
  qed
qed

lemma broker_path_clean:
  "Clean (trimPrefix brokerCgroupPath cgroup_root) = ''/system.slice/bulkhead-broker.service''"
  by (simp add: Clean_def brokerCgroupPath_def cgroup_root_def trimPrefix_def hasPrefix_def)

lemma agent_not_broker: "isAgentCgroup p \<Longrightarrow> \<not> isBrokerCaller p"
  using Clean_agent [of p]
  by (auto simp: isBrokerCaller_def broker_path_clean isAgentCgroup_iff agent_prefix_def agent_parent_def)

section \<open>Generations\<close>

lemma name_char_plain: "name_char c \<Longrightarrow> c \<noteq> CHR ''@'' \<and> c \<noteq> CHR ''.'' \<and> c \<noteq> CHR ''/'' \<and> c \<noteq> CHR 0x0A"
  by (auto simp: name_char_def)

lemma digit_name_char: "is_digit c \<Longrightarrow> name_char c"
  by (simp add: name_char_def is_digit_def)

lemma itoa_name_chars: "list_all name_char (itoa n)"
  using itoa_digits [of n] by (auto simp: list_all_iff digit_name_char)

lemma mint_name_chars:
  "list_all name_char rnd \<Longrightarrow> validSuffix s \<Longrightarrow> list_all name_char (mint_instance gen rnd s)"
  using itoa_name_chars [of gen] by (simp add: mint_instance_def validSuffix_def) (simp add: name_char_def)

lemma instance_of_path:
  assumes "list_all name_char inst" "inst \<noteq> ''''"
  shows "instance_of (dir @ marker @ inst @ ''.service'') = Some inst"
proof -
  have plain: "c \<noteq> CHR ''@'' \<and> c \<noteq> CHR ''.''" if "c \<in> set inst" for c
    using assms(1) that name_char_plain [of c] by (auto simp: list_all_iff)
  have "last marker \<notin> set (inst @ ''.service'')" using plain by (auto simp: marker_def)
  then have 1: "LastIndex (dir @ marker @ inst @ ''.service'') marker = Some (length dir)"
    by (intro LastIndex_marker) (simp add: marker_def)
  have "hd ''.service'' \<notin> set inst" using plain by auto
  from Index_no_char [OF _ this, of "''''"]
  have 2: "Index (inst @ ''.service'') ''.service'' = Some (length inst)" by simp
  show ?thesis using assms(2) by (simp add: instance_of_def 1 2 Let_def)
qed

lemma delegGen_minted:
  assumes "list_all name_char rnd" "validSuffix s" "gen < 2 ^ 63"
  shows "delegGen (dir @ marker @ mint_instance gen rnd s @ ''.service'') = Some gen"
proof -
  let ?i = "mint_instance gen rnd s"
  note d = itoa_digits [of gen]
  have tl: "tl ?i = itoa gen @ ''-'' @ rnd @ ''-'' @ s" by (simp add: mint_instance_def)
  have "takeWhile is_digit (tl ?i) = itoa gen"
    unfolding tl using d by (subst takeWhile_append2) (auto simp: list_all_iff is_digit_def)
  moreover have "2 \<le> length ?i" "?i ! 0 = CHR ''d''" "is_digit (?i ! 1)"
    "Suc (length (itoa gen)) < length ?i" "?i ! Suc (length (itoa gen)) = CHR ''-''"
    using d by (auto simp: mint_instance_def nth_append list_all_iff neq_Nil_conv)
  moreover have "instance_of (dir @ marker @ ?i @ ''.service'') = Some ?i"
    by (rule instance_of_path [OF mint_name_chars [OF assms(1,2)]]) (simp add: mint_instance_def)
  ultimately show ?thesis using Atoi_itoa [OF assms(3)] by (simp add: delegGen_def Let_def)
qed

section \<open>The lines of a drop-in\<close>

lemma split_terminated:
  "\<forall>l\<in>set ls. c \<notin> set l \<Longrightarrow> split_on c (concat (map (\<lambda>l. l @ [c]) ls)) = ls @ ['''']"
  by (induction ls) (simp_all add: split_on_append)

definition single_line :: "string \<Rightarrow> bool" where
  "single_line s \<longleftrightarrow> CHR 0x0A \<notin> set s"

lemma single_line_simps [simp]:
  "single_line ''''" "single_line (c # s) \<longleftrightarrow> c \<noteq> CHR 0x0A \<and> single_line s"
  "single_line (s @ t) \<longleftrightarrow> single_line s \<and> single_line t"
  by (auto simp: single_line_def)

lemma single_line_names: "list_all name_char s \<Longrightarrow> single_line s"
  using name_char_plain by (auto simp: single_line_def list_all_iff)

lemma single_line_plain: "plain_text s \<Longrightarrow> single_line s"
  by (auto simp: single_line_def plain_text_def list_all_iff)

lemma single_line_join: "single_line sep \<Longrightarrow> \<forall>x\<in>set xs. single_line x \<Longrightarrow> single_line (join_with sep xs)"
  by (induction sep xs rule: join_with.induct) auto

lemma single_line_classNames: "single_line (classNames m)"
proof -
  have "single_line (fst c)" if "c \<in> set dstClasses" for c
    using that by (auto simp: dstClasses_def)
  then show ?thesis by (auto simp: classNames_def intro!: single_line_join)
qed

lemma drop_in_single_lines:
  assumes "single_line classes" "single_line inst"
  shows "\<forall>l\<in>set (drop_in_lines classes inst url hasTask). single_line l"
  using assms single_line_plain [of url] unfolding drop_in_lines_def by (simp add: ball_Un)

section \<open>Properties\<close>

text \<open>
  C33: nothing a parent supplies can add a directive to the unit of its child. Whatever the
  classes, the random digits, the suffix that passed \<open>validSuffix\<close>, the router URL and the
  presence of a task, the drop-in has exactly the lines the broker means to write.
\<close>

theorem drop_in_no_injection:
  assumes "list_all name_char rnd" "validSuffix s"
  shows "split_on (CHR 0x0A) (delegatedDropIn (classNames m) (mint_instance gen rnd s) url hasTask) =
    drop_in_lines (classNames m) (mint_instance gen rnd s) url hasTask @ ['''']"
  unfolding delegatedDropIn_def
  using drop_in_single_lines [OF single_line_classNames single_line_names [OF mint_name_chars [OF assms]]]
  by (intro split_terminated) (simp add: single_line_def)

theorem drop_in_no_injection_witness:
  "split_on (CHR 0x0A) (delegatedDropIn (classNames 9) (mint_instance 1 ''0badcafe'' ''helper'') ''http://r/'' True) =
    drop_in_lines (classNames 9) (mint_instance 1 ''0badcafe'' ''helper'') ''http://r/'' True @ ['''']"
  by (rule drop_in_no_injection) (simp_all add: validSuffix_def name_char_def)

text \<open>
  The generation of a delegated child is the one its broker gave it. A cgroup path
  whose leaf is a minted instance is recognised as an agent, is never taken for the
  broker, and \<open>delegGen\<close> reads back the generation that was written into the name.
\<close>

theorem minted_generation:
  assumes "list_all name_char rnd" "validSuffix s" "gen < 2 ^ 63" "parent \<in> {'''', agent_parent}"
  shows "isAgentCgroup (parent @ agent_prefix @ mint_instance gen rnd s @ ''.service'')
    \<and> \<not> isBrokerCaller (parent @ agent_prefix @ mint_instance gen rnd s @ ''.service'')
    \<and> delegGen (parent @ agent_prefix @ mint_instance gen rnd s @ ''.service'') = Some gen"
proof -
  let ?i = "mint_instance gen rnd s"
  have "?i \<noteq> ''''" "CHR ''/'' \<notin> set ?i"
    using mint_name_chars [OF assms(1,2), of gen] name_char_plain
    by (auto simp: list_all_iff mint_instance_def)
  then have agent: "isAgentCgroup (parent @ agent_prefix @ ?i @ ''.service'')"
    using assms(4) unfolding isAgentCgroup_iff by blast
  have "parent @ agent_prefix @ ?i @ ''.service'' =
      (parent @ ''/bulkhead-agent.slice/'') @ marker @ ?i @ ''.service''"
    by (simp add: agent_prefix_def marker_def)
  then have "delegGen (parent @ agent_prefix @ ?i @ ''.service'') = Some gen"
    by (simp only: delegGen_minted [OF assms(1-3)])
  then show ?thesis using agent agent_not_broker [OF agent] by blast
qed

theorem minted_generation_witness:
  "isAgentCgroup (agent_parent @ agent_prefix @ mint_instance 2 ''0badcafe'' ''helper'' @ ''.service'')
    \<and> \<not> isBrokerCaller (agent_parent @ agent_prefix @ mint_instance 2 ''0badcafe'' ''helper'' @ ''.service'')
    \<and> delegGen (agent_parent @ agent_prefix @ mint_instance 2 ''0badcafe'' ''helper'' @ ''.service'') = Some 2"
  by (rule minted_generation) (simp_all add: validSuffix_def name_char_def)

end
