(* ===== verification/Approval_Gate.thy ===== *)
theory Approval_Gate
  imports Agent_Identity Bpf_Maps
begin

text \<open>
  The approval gate of the broker (\<^verbatim>\<open>src/collector/broker.go\<close>): the table of pending
  requests, \<open>register\<close> and \<open>resolve\<close>. Both run under \<open>pendMu\<close>, so the connections, the
  operator and the timers interleave whole operations; \<open>gate_trace\<close> is every such
  interleaving. The one value sent on a request's channel is kept in \<open>g_sent\<close>.
\<close>

section \<open>State\<close>

datatype actionKind = actDelegate | actExpandEgress | actNarrowEgress | actGrantOnce

record pending =
  pd_id :: u64
  pd_kind :: actionKind
  pd_cgid :: u64
  pd_path :: string
  pd_suffix :: string
  pd_instance :: string
  pd_task :: string
  pd_gen :: nat
  pd_reqMask :: u32
  pd_childMask :: u32
  pd_curMask :: u32
  pd_grantHook :: u32
  pd_verdict :: string
  pd_operator :: string

text \<open>The zero value of a request, from which the handlers build theirs.\<close>

definition pending0 :: pending where
  "pending0 =
     \<lparr>pd_id = 0, pd_kind = actDelegate, pd_cgid = 0, pd_path = '''', pd_suffix = '''', pd_instance = '''',
      pd_task = '''', pd_gen = 0, pd_reqMask = 0, pd_childMask = 0, pd_curMask = 0, pd_grantHook = 0,
      pd_verdict = '''', pd_operator = ''''\<rparr>"

definition maxPending :: nat where "maxPending = 64"
definition maxPendingPar :: int where "maxPendingPar = 4"

record gate =
  g_next :: u64
  g_pend :: "(u64 \<times> pending) list"
  g_perPar :: "u64 \<Rightarrow> int"
  g_sent :: "(u64 \<times> bool \<times> string \<times> string) list"

definition gate0 :: gate where
  "gate0 = \<lparr>g_next = 0, g_pend = [], g_perPar = (\<lambda>_. 0), g_sent = []\<rparr>"

section \<open>Operations\<close>

definition register :: "pending \<Rightarrow> gate \<Rightarrow> (u64 option) \<times> gate" where
  "register p g =
     (if length (g_pend g) \<ge> maxPending \<or> g_perPar g (pd_cgid p) \<ge> maxPendingPar then (None, g)
      else
        let i = g_next g + 1
        in (Some i,
            g\<lparr>g_next := i, g_pend := AList.update i (p\<lparr>pd_id := i\<rparr>) (g_pend g),
              g_perPar := (g_perPar g)(pd_cgid p := g_perPar g (pd_cgid p) + 1)\<rparr>))"

definition resolve :: "u64 \<Rightarrow> bool \<Rightarrow> string \<Rightarrow> string \<Rightarrow> gate \<Rightarrow> bool \<times> gate" where
  "resolve i ok verdict operator g =
     (case map_of (g_pend g) i of
        None \<Rightarrow> (False, g)
      | Some p \<Rightarrow>
          (True,
           g\<lparr>g_pend := AList.delete i (g_pend g),
             g_perPar := (g_perPar g)(pd_cgid p := g_perPar g (pd_cgid p) - 1),
             g_sent := (i, ok, verdict, operator) # g_sent g\<rparr>))"

text \<open>What can happen at the gate: a request arrives, the operator decides, a timer fires.\<close>

datatype gate_op = Register pending | Decide u64 bool string | Timeout u64

fun gate_exec :: "gate_op \<Rightarrow> gate \<Rightarrow> gate" where
  "gate_exec (Register p) g = snd (register p g)"
| "gate_exec (Decide i allow operator) g =
     snd (resolve i allow (if allow then ''approve'' else ''deny'') operator g)"
| "gate_exec (Timeout i) g = snd (resolve i False ''timeout'' ''-'' g)"

inductive gate_trace :: "gate_op list \<Rightarrow> gate \<Rightarrow> bool" where
  start: "gate_trace [] gate0"
| step: "gate_trace ops g \<Longrightarrow> gate_trace (ops @ [op]) (gate_exec op g)"

inductive_cases gate_trace_snocE: "gate_trace (ops @ [op]) g"

section \<open>Invariant\<close>

definition per_parent :: "(u64 \<times> pending) list \<Rightarrow> u64 \<Rightarrow> nat" where
  "per_parent ps cg = length (filter (\<lambda>(i, p). pd_cgid p = cg) ps)"

text \<open>
  Identities: every request that was ever registered has its own number, and is either
  waiting or has had one verdict sent. Counts: the table and its per-parent counters
  agree and stay within the flood caps.
\<close>

definition gate_ids :: "nat \<Rightarrow> gate \<Rightarrow> bool" where
  "gate_ids n g \<longleftrightarrow>
     distinct (map fst (g_pend g) @ map fst (g_sent g)) \<and>
     (\<forall>i\<in>set (map fst (g_pend g) @ map fst (g_sent g)). unat i \<le> unat (g_next g)) \<and>
     unat (g_next g) \<le> n"

definition gate_counts :: "gate \<Rightarrow> bool" where
  "gate_counts g \<longleftrightarrow>
     length (g_pend g) \<le> maxPending \<and>
     (\<forall>cg. g_perPar g cg = int (per_parent (g_pend g) cg) \<and> per_parent (g_pend g) cg \<le> nat maxPendingPar)"

definition gate_inv :: "nat \<Rightarrow> gate \<Rightarrow> bool" where
  "gate_inv n g \<longleftrightarrow> gate_ids n g \<and> gate_counts g"

lemma per_parent_update:
  "map_of ps i = None \<Longrightarrow>
   per_parent (AList.update i p ps) cg = per_parent ps cg + (if pd_cgid p = cg then 1 else 0)"
  by (induction ps) (auto simp: per_parent_def)

lemma per_parent_delete:
  "distinct (map fst ps) \<Longrightarrow> map_of ps i = Some p \<Longrightarrow>
   per_parent ps cg = per_parent (AList.delete i ps) cg + (if pd_cgid p = cg then 1 else 0)"
proof (induction ps)
  case (Cons q ps)
  show ?case
  proof (cases "fst q = i")
    case True
    then have "AList.delete i (q # ps) = ps"
      using Cons.prems by (auto simp: AList.delete_eq filter_id_conv image_iff)
    then show ?thesis using True Cons.prems by (cases q) (auto simp: per_parent_def)
  next
    case False
    then show ?thesis using Cons by (cases q) (auto simp: per_parent_def AList.delete_eq)
  qed
qed simp

lemma gate_inv0: "gate_inv 0 gate0"
  by (simp add: gate_inv_def gate_ids_def gate_counts_def gate0_def per_parent_def)

lemma gate_inv_Suc: "gate_inv n g \<Longrightarrow> gate_inv (Suc n) g"
  by (simp add: gate_inv_def gate_ids_def)

lemma AList_update_new: "map_of ps i = None \<Longrightarrow> AList.update i p ps = ps @ [(i, p)]"
  by (induction ps) (auto split: if_splits)

lemma gate_ids_fresh:
  assumes "gate_ids n g" "n < 2 ^ 64 - 1"
  shows "unat (g_next g + 1) = Suc (unat (g_next g))"
    "g_next g + 1 \<notin> set (map fst (g_pend g) @ map fst (g_sent g))"
proof -
  have "unat (g_next g) < 2 ^ 64 - 1" using assms by (simp add: gate_ids_def)
  then show 1: "unat (g_next g + 1) = Suc (unat (g_next g))"
    by (simp add: unat_word_ariths)
  show "g_next g + 1 \<notin> set (map fst (g_pend g) @ map fst (g_sent g))"
    using assms(1) 1 Suc_n_not_le_n unfolding gate_ids_def by metis
qed

lemma register_new:
  assumes "map_of (g_pend g) (g_next g + 1) = None" "register p g = (Some i, g')"
  shows "i = g_next g + 1"
    "g' = g\<lparr>g_next := i, g_pend := g_pend g @ [(i, p\<lparr>pd_id := i\<rparr>)],
            g_perPar := (g_perPar g)(pd_cgid p := g_perPar g (pd_cgid p) + 1)\<rparr>"
    "length (g_pend g) < maxPending" "g_perPar g (pd_cgid p) < maxPendingPar"
  using assms by (auto simp: register_def AList_update_new Let_def split: if_splits)

lemma register_busy: "register p g = (None, g') \<Longrightarrow> g' = g"
  by (auto simp: register_def Let_def split: if_splits)

lemma register_inv:
  assumes inv: "gate_inv n g" and n: "n < 2 ^ 64 - 1"
  shows "gate_inv (Suc n) (snd (register p g))"
proof (cases "register p g")
  case (Pair r g')
  show ?thesis
  proof (cases r)
    case None
    then show ?thesis using inv Pair register_busy [of p g g'] by (simp add: gate_inv_Suc)
  next
    case (Some i)
    from inv have ids: "gate_ids n g" and counts: "gate_counts g" by (simp_all add: gate_inv_def)
    note fresh = gate_ids_fresh [OF ids n]
    have none: "map_of (g_pend g) (g_next g + 1) = None" using fresh(2) by (auto simp: map_of_eq_None_iff)
    note new = register_new [OF none, of p i g']
    have g': "register p g = (Some i, g')" using Pair Some by simp
    have "gate_ids (Suc n) g'"
      using ids fresh unfolding new(2) [OF g'] new(1) [OF g'] gate_ids_def by (auto simp: le_Suc_eq)
    moreover have "gate_counts g'"
      using counts new(3,4) [OF g'] unfolding new(2) [OF g'] gate_counts_def
      by (auto simp: per_parent_def)
    ultimately show ?thesis using Pair by (simp add: gate_inv_def)
  qed
qed

lemma resolve_known:
  assumes "map_of (g_pend g) i = Some p"
  shows "resolve i ok v oper g =
    (True, g\<lparr>g_pend := AList.delete i (g_pend g),
             g_perPar := (g_perPar g)(pd_cgid p := g_perPar g (pd_cgid p) - 1),
             g_sent := (i, ok, v, oper) # g_sent g\<rparr>)"
  using assms by (simp add: resolve_def)

lemma resolve_inv:
  assumes inv: "gate_inv n g"
  shows "gate_inv (Suc n) (snd (resolve i ok v oper g))"
proof (cases "map_of (g_pend g) i")
  case None
  then show ?thesis using inv by (simp add: resolve_def gate_inv_Suc)
next
  case (Some p)
  from inv have ids: "gate_ids n g" and counts: "gate_counts g" by (simp_all add: gate_inv_def)
  then have d: "distinct (map fst (g_pend g))" by (simp add: gate_ids_def)
  have i: "i \<in> set (map fst (g_pend g))" using Some by (metis domI dom_map_of_conv_image_fst set_map)
  have keys: "set (map fst (AList.delete i (g_pend g))) = set (map fst (g_pend g)) - {i}"
    by (auto simp: AList.delete_eq)
  have "gate_ids (Suc n) (snd (resolve i ok v oper g))"
    using ids i keys unfolding resolve_known [OF Some] gate_ids_def
    by (auto simp: distinct_delete)
  moreover have "per_parent (AList.delete i (g_pend g)) cg =
      per_parent (g_pend g) cg - (if pd_cgid p = cg then 1 else 0)" for cg
    using per_parent_delete [OF d Some, of cg] by simp
  then have "gate_counts (snd (resolve i ok v oper g))"
    using counts per_parent_delete [OF d Some, of "pd_cgid p"] length_AList_delete [of i "g_pend g"]
    unfolding resolve_known [OF Some] gate_counts_def
    by (auto intro: le_trans [OF diff_le_self] le_trans [of _ "length (g_pend g)"])
  ultimately show ?thesis by (simp add: gate_inv_def)
qed

lemma gate_exec_inv: "gate_inv n g \<Longrightarrow> n < 2 ^ 64 - 1 \<Longrightarrow> gate_inv (Suc n) (gate_exec op g)"
  by (cases op) (simp_all add: register_inv resolve_inv)

lemma gate_trace_inv: "gate_trace ops g \<Longrightarrow> length ops < 2 ^ 64 \<Longrightarrow> gate_inv (length ops) g"
  by (induction rule: gate_trace.induct) (simp_all add: gate_inv0 gate_exec_inv)

section \<open>Verdicts\<close>

text \<open>The registrations of a trace that were accepted, and what was sent for them.\<close>

lemma sent_by:
  "gate_trace ops g \<Longrightarrow> (i, ok, v, oper) \<in> set (g_sent g) \<Longrightarrow>
   Decide i ok oper \<in> set ops \<and> v = (if ok then ''approve'' else ''deny'') \<or>
   Timeout i \<in> set ops \<and> \<not> ok \<and> v = ''timeout''"
proof (induction rule: gate_trace.induct)
  case (step ops g op)
  then show ?case
    by (cases op) (auto simp: register_def resolve_def Let_def split: option.splits if_splits)
qed (simp add: gate0_def)

lemma sent_stays: "set (g_sent g) \<subseteq> set (g_sent (gate_exec op g))"
  by (cases op) (auto simp: register_def resolve_def Let_def split: option.splits)

lemma sent_stays_fold: "set (g_sent g) \<subseteq> set (g_sent (fold gate_exec ops g))"
  using sent_stays by (induction ops arbitrary: g) fastforce+

lemma pending_or_sent:
  assumes "map_of (g_pend g) i = Some p"
  shows "map_of (g_pend (gate_exec op g)) i = Some p \<or> (\<exists>r. (i, r) \<in> set (g_sent (gate_exec op g)))
    \<or> (\<exists>q. op = Register q \<and> i = g_next g + 1)"
  using assms
  by (cases op) (auto simp: register_def resolve_def Let_def update_conv' delete_conv' split: option.splits)

section \<open>Properties\<close>

text \<open>
  C22: the gate delivers each verdict exactly once and stays within its flood caps. In any
  interleaving of requests, operator decisions and timeouts (of fewer than 2 to the 64
  operations, so that the request counter does not wrap), no request has two verdicts, no
  request with a verdict is still pending, at most 64 requests wait and at most 4 of any
  one cgroup, and the per-cgroup counters are the true counts.
\<close>

theorem verdicts_exactly_once:
  assumes "gate_trace ops g" "length ops < 2 ^ 64"
  shows "distinct (map fst (g_pend g) @ map fst (g_sent g)) \<and> length (g_pend g) \<le> maxPending
    \<and> (\<forall>cg. g_perPar g cg = int (per_parent (g_pend g) cg) \<and> per_parent (g_pend g) cg \<le> nat maxPendingPar)"
  using gate_trace_inv [OF assms] by (simp add: gate_inv_def gate_ids_def gate_counts_def)

theorem verdicts_exactly_once_witness:
  "distinct (map fst (g_pend (gate_exec (Timeout 1) gate0)) @ map fst (g_sent (gate_exec (Timeout 1) gate0)))
    \<and> length (g_pend (gate_exec (Timeout 1) gate0)) \<le> maxPending
    \<and> (\<forall>cg. g_perPar (gate_exec (Timeout 1) gate0) cg = int (per_parent (g_pend (gate_exec (Timeout 1) gate0)) cg)
          \<and> per_parent (g_pend (gate_exec (Timeout 1) gate0)) cg \<le> nat maxPendingPar)"
proof (rule verdicts_exactly_once)
  show "gate_trace [Timeout 1] (gate_exec (Timeout 1) gate0)"
    using gate_trace.step [OF gate_trace.start, of "Timeout 1"] by simp
qed simp

text \<open>
  Only the operator approves. A positive verdict in any trace was sent because the
  operator allowed exactly that request; a timeout sends a denial.
\<close>

theorem approvals_come_from_operator:
  assumes "gate_trace ops g" "(i, True, v, oper) \<in> set (g_sent g)"
  shows "Decide i True oper \<in> set ops \<and> v = ''approve''"
  using sent_by [OF assms] by simp

theorem approvals_come_from_operator_witness:
  "Decide 1 True ''uid0:pid7'' \<in> set [Register pending0, Decide 1 True ''uid0:pid7'']
    \<and> ''approve'' = ''approve''"
proof (rule approvals_come_from_operator)
  show "gate_trace [Register pending0, Decide 1 True ''uid0:pid7'']
      (gate_exec (Decide 1 True ''uid0:pid7'') (gate_exec (Register pending0) gate0))"
    using gate_trace.step [OF gate_trace.step [OF gate_trace.start, of "Register pending0"],
        of "Decide 1 True ''uid0:pid7''"] by simp
qed (simp add: register_def resolve_def gate0_def maxPending_def maxPendingPar_def)

text \<open>
  C23: a pending request is always decided. From every reachable state with request
  \<open>i\<close> waiting, and whatever else happens before or after, once the timer of \<open>i\<close> fires the
  request has a verdict: its connection is not left blocked.
\<close>

theorem pending_is_decided:
  assumes "gate_trace pre g" "length (pre @ ops) < 2 ^ 64" "map_of (g_pend g) i = Some p"
    and "Timeout i \<in> set ops"
  shows "\<exists>r. (i, r) \<in> set (g_sent (fold gate_exec ops g))"
  using assms
proof (induction ops arbitrary: pre g)
  case (Cons op ops)
  note tr = gate_trace.step [OF Cons.prems(1), of op]
  have "gate_inv (length pre) g" using gate_trace_inv [OF Cons.prems(1)] Cons.prems(2) by simp
  moreover have "i \<in> set (map fst (g_pend g))"
    using Cons.prems(3) by (metis domI dom_map_of_conv_image_fst set_map)
  ultimately have "g_next g + 1 \<noteq> i"
    using gate_ids_fresh(2) [of "length pre" g] Cons.prems(2) by (auto simp: gate_inv_def)
  then consider "map_of (g_pend (gate_exec op g)) i = Some p" | r where "(i, r) \<in> set (g_sent (gate_exec op g))"
    using pending_or_sent [OF Cons.prems(3), of op] by auto
  then show ?case
  proof cases
    case 1
    then have "op \<noteq> Timeout i" using Cons.prems(3) by (auto simp: resolve_def delete_conv')
    then show ?thesis using Cons.IH [OF tr _ 1] Cons.prems(2,4) by auto
  next
    case 2
    then show ?thesis using sent_stays_fold [of "gate_exec op g" ops] by (auto simp del: split_paired_Ex)
  qed
qed simp

theorem pending_is_decided_witness:
  "\<exists>r. (1, r) \<in> set (g_sent (fold gate_exec [Decide 2 True ''uid0:pid7'', Timeout 1]
      (gate_exec (Register pending0) gate0)))"
proof (rule pending_is_decided [where pre = "[Register pending0]"])
  show "gate_trace [Register pending0] (gate_exec (Register pending0) gate0)"
    using gate_trace.step [OF gate_trace.start, of "Register pending0"] by simp
qed (simp_all add: register_def gate0_def maxPending_def maxPendingPar_def)

end
