(* ===== verification/Broker.thy ===== *)
theory Broker
  imports Approval_Gate Event_Wire
begin

unbundle bit_operations_syntax

text \<open>
  The broker's request handlers (\<^verbatim>\<open>src/collector/broker.go\<close>, \<^verbatim>\<open>grant.go\<close>, \<^verbatim>\<open>narrow.go\<close>): what
  a request is turned into before the gate, what an approved request does after it, and
  the operator's socket. The pinned maps are those of the object (\<open>bpf_state\<close>). A request
  and its execution see different environments and map states, since the operator may
  take minutes to decide; the executors run under a lock and are one step each.
\<close>

section \<open>Environment\<close>

datatype exec_error = CgroupGone | MapOpen | ManifestVanished | UpdateFailed | LaunchFailed

text \<open>
  What the handlers read from outside: the cgroup file system, whether a pinned map can be
  opened, whether the child unit starts, the clock (0 if it cannot be read), random digits,
  the settings taken from the environment, the texts of errors, and SHA-256.
\<close>

record broker_env =
  be_stat :: "string \<Rightarrow> u64 option"
  be_glob :: "string \<Rightarrow> string list"
  be_pinned :: "string \<Rightarrow> bool"
  be_starts :: "string \<Rightarrow> bool"
  be_now :: u64
  be_rand :: string
  be_expandCeiling :: u32
  be_maxDelegateDepth :: nat
  be_grantTTL :: nat
  be_childRouterURL :: string
  be_errtext :: "exec_error \<Rightarrow> string"
  be_sha256 :: "u8 list \<Rightarrow> u8 list"

definition kind_name :: "actionKind \<Rightarrow> string" where
  "kind_name k =
     (case k of actDelegate \<Rightarrow> ''delegate'' | actExpandEgress \<Rightarrow> ''expand-egress''
      | actNarrowEgress \<Rightarrow> ''narrow-egress'' | actGrantOnce \<Rightarrow> ''grant-once'')"

definition lookupEgressMask :: "broker_env \<Rightarrow> u64 \<Rightarrow> bpf_state \<Rightarrow> u32 option" where
  "lookupEgressMask env cg s =
     (if be_pinned env ''egress_policy'' then hash_lookup (egress_policy s) cg else None)"

section \<open>Requests\<close>

text \<open>A handler either replies at once or hands a pending request to the gate.\<close>

type_synonym handled = "string + pending"

definition handleDelegateTail :: "broker_env \<Rightarrow> u64 \<Rightarrow> string \<Rightarrow> string list \<Rightarrow> bpf_state \<Rightarrow> handled" where
  "handleDelegateTail env cg path f s =
     (case parseDelegateTail f of
        None \<Rightarrow> Inl ''ERR protocol''
      | Some (sfx, reqStr, task) \<Rightarrow>
          if \<not> validSuffix sfx then Inl ''ERR bad-suffix''
          else case parseClasses reqStr of
            Inl _ \<Rightarrow> Inl ''ERR bad-classes''
          | Inr reqMask \<Rightarrow>
              if \<not> validTask task then Inl ''ERR bad-task''
              else case delegGen path of
                None \<Rightarrow> Inl ''ERR bad-parent''
              | Some gen \<Rightarrow>
                  if gen + 1 > be_maxDelegateDepth env then Inl ''ERR too-deep''
                  else case lookupEgressMask env cg s of
                    None \<Rightarrow> Inl ''ERR no-parent-manifest''
                  | Some parentMask \<Rightarrow>
                      Inr (pending0\<lparr>pd_kind := actDelegate, pd_cgid := cg, pd_path := path,
                        pd_suffix := sfx, pd_instance := mint_instance (gen + 1) (be_rand env) sfx,
                        pd_reqMask := reqMask, pd_childMask := parentMask AND reqMask,
                        pd_task := task, pd_gen := gen + 1\<rparr>))"

definition handleExpandTail :: "broker_env \<Rightarrow> u64 \<Rightarrow> string \<Rightarrow> string list \<Rightarrow> bpf_state \<Rightarrow> handled" where
  "handleExpandTail env cg path f s =
     (if (case delegGen path of Some gen \<Rightarrow> gen > 0 | None \<Rightarrow> False) then Inl ''ERR no-expand-for-delegated''
      else if length f \<noteq> 2 then Inl ''ERR protocol''
      else case parseClasses (f ! 1) of
        Inl _ \<Rightarrow> Inl ''ERR bad-classes''
      | Inr reqMask \<Rightarrow>
          (case lookupEgressMask env cg s of
             None \<Rightarrow> Inl ''ERR no-manifest''
           | Some curMask \<Rightarrow>
               if expandMask curMask reqMask (be_expandCeiling env) = curMask then
                 (if reqMask AND NOT curMask \<noteq> 0 then Inl ''ERR above-ceiling''
                  else Inl (''OK '' @ classNames curMask @ '' (no-op)''))
               else Inr (pending0\<lparr>pd_kind := actExpandEgress, pd_cgid := cg, pd_path := path,
                      pd_reqMask := reqMask, pd_curMask := curMask\<rparr>)))"

definition grantableHook :: "string \<Rightarrow> u32 option" where
  "grantableHook name =
     (case hookID name of
        None \<Rightarrow> None
      | Some hid \<Rightarrow> if hid \<noteq> HOOK_PTRACE \<and> hid \<noteq> HOOK_SETUID \<and> hid \<noteq> HOOK_CAPSET then None else Some hid)"

definition hookArmed :: "broker_env \<Rightarrow> u32 \<Rightarrow> bpf_state \<Rightarrow> bool option" where
  "hookArmed env hid s =
     (if \<not> be_pinned env ''enforce_flags'' then None
      else Some (case array_lookup (enforce_flags s) hid of None \<Rightarrow> False | Some v \<Rightarrow> v = 1))"

definition handleGrantOnceTail :: "broker_env \<Rightarrow> u64 \<Rightarrow> string \<Rightarrow> string list \<Rightarrow> bpf_state \<Rightarrow> handled" where
  "handleGrantOnceTail env cg path f s =
     (if length f \<noteq> 2 then Inl ''ERR protocol''
      else case grantableHook (f ! 1) of
        None \<Rightarrow> Inl ''ERR bad-hook''
      | Some hid \<Rightarrow>
          if hookArmed env hid s = Some False then Inl (''OK '' @ f ! 1 @ '' (not-armed, no-op)'')
          else Inr (pending0\<lparr>pd_kind := actGrantOnce, pd_cgid := cg, pd_path := path, pd_grantHook := hid\<rparr>))"

text \<open>
  \<open>handleBrokerConn\<close>: \<open>peer\<close> is the cgroup the kernel attested for the connection, \<open>line\<close>
  the line it sent, each \<open>None\<close> when it could not be read.
\<close>

definition handleBrokerConn :: "broker_env \<Rightarrow> (u64 \<times> string) option \<Rightarrow> string option \<Rightarrow> bpf_state \<Rightarrow> handled" where
  "handleBrokerConn env peer line s =
     (case peer of
        None \<Rightarrow> Inl ''ERR peer-auth''
      | Some (cg, path) \<Rightarrow>
          if \<not> isAgentCgroup path then Inl ''ERR not-an-agent''
          else case line of
            None \<Rightarrow> Inl ''ERR read''
          | Some l \<Rightarrow>
              (let f = Fields (trimSpace l)
               in if f = [] then Inl ''ERR protocol''
                  else if f ! 0 = ''DELEGATE'' then handleDelegateTail env cg path f s
                  else if f ! 0 = ''EXPAND'' then handleExpandTail env cg path f s
                  else if f ! 0 = ''GRANT-ONCE'' then handleGrantOnceTail env cg path f s
                  else Inl ''ERR protocol''))"

section \<open>Execution of an approved request\<close>

text \<open>What \<open>launchChild\<close> hands to systemd: the unit's instance, its drop-in and its task file.\<close>

record launch =
  la_instance :: string
  la_classes :: string
  la_dropin :: string
  la_task :: string

definition launchChild :: "broker_env \<Rightarrow> string \<Rightarrow> string \<Rightarrow> string \<Rightarrow> bool \<times> launch" where
  "launchChild env inst classes task =
     (be_starts env inst,
      \<lparr>la_instance = inst, la_classes = classes,
       la_dropin = delegatedDropIn classes inst (be_childRouterURL env) (task \<noteq> ''''), la_task = task\<rparr>)"

definition grantExpiry :: "broker_env \<Rightarrow> u64" where
  "grantExpiry env =
     (if be_now env = 0 then 0 else be_now env + of_nat (be_grantTTL env * 1000000000))"

text \<open>The result of an executor: an error or the text of what was applied, the maps, and a launch.\<close>

type_synonym executed = "(exec_error + string) \<times> bpf_state \<times> launch option"

definition exec_delegate :: "broker_env \<Rightarrow> pending \<Rightarrow> bpf_state \<Rightarrow> executed" where
  "exec_delegate env p s =
     (if \<not> reverifyCgroup (be_stat env) (pd_path p) (pd_cgid p) then (Inl CgroupGone, s, None)
      else case lookupEgressMask env (pd_cgid p) s of
        None \<Rightarrow> (Inl ManifestVanished, s, None)
      | Some liveParent \<Rightarrow>
          (let liveChild = liveParent AND pd_reqMask p;
               (ok, l) = launchChild env (pd_instance p) (classNames liveChild) (pd_task p)
           in (if ok then Inr (pd_instance p @ '' '' @ classNames liveChild) else Inl LaunchFailed, s, Some l)))"

definition exec_expand :: "broker_env \<Rightarrow> pending \<Rightarrow> bpf_state \<Rightarrow> executed" where
  "exec_expand env p s =
     (if \<not> reverifyCgroup (be_stat env) (pd_path p) (pd_cgid p) then (Inl CgroupGone, s, None)
      else if \<not> be_pinned env ''egress_policy'' then (Inl MapOpen, s, None)
      else case hash_lookup (egress_policy s) (pd_cgid p) of
        None \<Rightarrow> (Inl ManifestVanished, s, None)
      | Some live \<Rightarrow>
          (let fin = expandMask live (pd_reqMask p) (be_expandCeiling env)
           in case hash_update (egress_policy s) (pd_cgid p) fin BPF_EXIST of
                Inl _ \<Rightarrow> (Inl UpdateFailed, s, None)
              | Inr m \<Rightarrow> (Inr (classNames fin), s\<lparr>egress_policy := m\<rparr>, None)))"

definition exec_grant :: "broker_env \<Rightarrow> pending \<Rightarrow> bpf_state \<Rightarrow> executed" where
  "exec_grant env p s =
     (if \<not> reverifyCgroup (be_stat env) (pd_path p) (pd_cgid p) then (Inl CgroupGone, s, None)
      else if \<not> be_pinned env ''grant_once'' then (Inl MapOpen, s, None)
      else case hash_update (grant_once s) (the_grant_key (pd_cgid p) (pd_grantHook p))
                  \<lparr>gv_count = 1, gv_expire_ns = grantExpiry env\<rparr> BPF_ANY of
        Inl _ \<Rightarrow> (Inl UpdateFailed, s, None)
      | Inr m \<Rightarrow>
          (Inr (hook_name (pd_grantHook p) @ '' count=1 ttl='' @ itoa (be_grantTTL env) @ ''s''),
           s\<lparr>grant_once := m\<rparr>, None))"

text \<open>A narrowing is never pending: the operator's socket applies it directly.\<close>

definition execute :: "broker_env \<Rightarrow> pending \<Rightarrow> bpf_state \<Rightarrow> executed" where
  "execute env p s =
     (case pd_kind p of
        actDelegate \<Rightarrow> exec_delegate env p s
      | actExpandEgress \<Rightarrow> exec_expand env p s
      | actGrantOnce \<Rightarrow> exec_grant env p s
      | actNarrowEgress \<Rightarrow> (Inl MapOpen, s, None))"

section \<open>Records and replies\<close>

definition taskSHA8 :: "broker_env \<Rightarrow> string \<Rightarrow> string" where
  "taskSHA8 env task =
     (if task = '''' then ''(default)'' else take 8 (hex_encode (be_sha256 env (bytes_of task))))"

definition recordDecision :: "broker_env \<Rightarrow> pending \<Rightarrow> string \<Rightarrow> string \<Rightarrow> string \<Rightarrow> prov_event" where
  "recordDecision env p verdict operator applied =
     (let comm = (if pd_kind p = actExpandEgress \<or> pd_kind p = actGrantOnce then ''self'' else pd_instance p);
          mode =
            (case pd_kind p of
               actGrantOnce \<Rightarrow> operator @ '' op='' @ hook_name (pd_grantHook p) @ '' applied='' @ applied
             | actDelegate \<Rightarrow>
                 operator @ '' req='' @ classNames (pd_reqMask p) @ '' applied='' @ applied @
                 '' gen='' @ itoa (pd_gen p) @ '' task_sha='' @ taskSHA8 env (pd_task p)
             | _ \<Rightarrow> operator @ '' req='' @ classNames (pd_reqMask p) @ '' applied='' @ applied)
      in \<lparr>pe_cgroup_id = pd_cgid p, pe_pid = 0, pe_comm = bytes_of (take 16 comm),
          pe_hook = kind_name (pd_kind p), pe_decision = verdict, pe_mode = mode\<rparr>)"

record outcome =
  oc_reply :: string
  oc_state :: bpf_state
  oc_launch :: "launch option"
  oc_records :: "prov_event list"

text \<open>
  \<open>finishGated\<close>, given what the gate sent. \<open>appended\<close> tells whether the signed chain took
  a record; \<open>oc_records\<close> are the records it took.
\<close>

definition finishGated ::
  "broker_env \<Rightarrow> (prov_event \<Rightarrow> bool) \<Rightarrow> pending \<Rightarrow> bool \<times> string \<times> string \<Rightarrow> bpf_state \<Rightarrow> outcome"
where
  "finishGated env appended p gated s =
     (case gated of (ok, verdict, operator) \<Rightarrow>
       (if \<not> ok then
          (let r = recordDecision env p verdict operator ''(not applied)''
           in \<lparr>oc_reply = ''ERR '' @ verdict, oc_state = s, oc_launch = None, oc_records = filter appended [r]\<rparr>)
        else
          (case execute env p s of
            (Inl e, s', l) \<Rightarrow>
              (let r = recordDecision env p ''error'' operator (''(execute failed: '' @ be_errtext env e @ '')'')
               in \<lparr>oc_reply = ''ERR exec'', oc_state = s', oc_launch = l, oc_records = filter appended [r]\<rparr>)
          | (Inr detail, s', l) \<Rightarrow>
              (let r = recordDecision env p verdict operator detail
               in if appended r
                  then \<lparr>oc_reply = ''OK '' @ detail, oc_state = s', oc_launch = l, oc_records = [r]\<rparr>
                  else \<lparr>oc_reply = ''ERR audit'', oc_state = s', oc_launch = l, oc_records = []\<rparr>))))"

end
