(* ===== verification/Operator_Socket.thy ===== *)
theory Operator_Socket
  imports Broker
begin

unbundle bit_operations_syntax

text \<open>
  The operator's socket: \<open>handleApprove\<close> (\<^verbatim>\<open>src/collector/broker.go\<close>) and the direct
  narrowing of an agent's manifest, \<open>handleNarrow\<close> and \<open>recordNarrow\<close>
  (\<^verbatim>\<open>src/collector/narrow.go\<close>).
\<close>

section \<open>Narrowing\<close>

definition recordNarrow :: "u64 \<Rightarrow> string \<Rightarrow> u32 \<Rightarrow> string \<Rightarrow> string \<Rightarrow> string \<Rightarrow> prov_event" where
  "recordNarrow cg target reqMask verdict operator applied =
     \<lparr>pe_cgroup_id = cg, pe_pid = 0, pe_comm = bytes_of (take 16 target),
      pe_hook = kind_name actNarrowEgress, pe_decision = verdict,
      pe_mode = operator @ '' req='' @ classNames reqMask @ '' applied='' @ applied\<rparr>"

definition target_reply :: "target_error \<Rightarrow> string" where
  "target_reply e =
     (case e of NarrowID \<Rightarrow> ''ERR id-not-allowed'' | NarrowBadInst \<Rightarrow> ''ERR bad-target''
      | NarrowNotAgent \<Rightarrow> ''ERR not-an-agent'' | NarrowGone \<Rightarrow> ''ERR target-gone'')"

definition refuse :: "string \<Rightarrow> bpf_state \<Rightarrow> outcome" where
  "refuse r s = \<lparr>oc_reply = r, oc_state = s, oc_launch = None, oc_records = []\<rparr>"

definition recorded :: "(prov_event \<Rightarrow> bool) \<Rightarrow> prov_event \<Rightarrow> string \<Rightarrow> bpf_state \<Rightarrow> outcome" where
  "recorded appended r rep s = \<lparr>oc_reply = rep, oc_state = s, oc_launch = None, oc_records = filter appended [r]\<rparr>"

text \<open>
  The part of \<open>handleNarrow\<close> that runs under \<open>egressMu\<close>, on a resolved target.
\<close>

definition narrow_locked ::
  "broker_env \<Rightarrow> (prov_event \<Rightarrow> bool) \<Rightarrow> string \<Rightarrow> string \<Rightarrow> u32 \<Rightarrow> u64 \<Rightarrow> string \<Rightarrow> bpf_state \<Rightarrow> outcome"
where
  "narrow_locked env appended operator target reqMask cg path s =
     (let rec = recordNarrow cg target reqMask
      in if \<not> reverifyCgroup (be_stat env) path cg
         then recorded appended (rec ''error'' operator ''(target recycled/gone)'') ''ERR target-gone'' s
         else if \<not> be_pinned env ''egress_policy''
         then recorded appended (rec ''error'' operator ''(map open failed)'') ''ERR internal'' s
         else (case hash_lookup (egress_policy s) cg of
           None \<Rightarrow> recorded appended (rec ''error'' operator ''(no-manifest)'') ''ERR no-manifest'' s
         | Some live \<Rightarrow>
            (let fin = narrowMask live reqMask
             in if fin = live then
                  (let r = rec ''narrow-noop'' operator (classNames live)
                   in recorded appended r
                        (if appended r then ''OK '' @ target @ '' '' @ classNames live @ '' (no-op)''
                         else ''ERR audit'') s)
                else (case hash_update (egress_policy s) cg fin BPF_EXIST of
                  Inl _ \<Rightarrow> recorded appended (rec ''error'' operator ''(update failed)'') ''ERR target-gone'' s
                | Inr m \<Rightarrow>
                    (let r = rec ''narrow'' operator (classNames fin)
                     in recorded appended r
                          (if appended r then ''OK '' @ target @ '' '' @ classNames fin else ''ERR audit'')
                          (s\<lparr>egress_policy := m\<rparr>))))))"

text \<open>
  \<open>env\<close> is read when the target is resolved, \<open>env'\<close> once the lock is held.
\<close>

definition handleNarrow ::
  "broker_env \<Rightarrow> broker_env \<Rightarrow> (prov_event \<Rightarrow> bool) \<Rightarrow> string \<Rightarrow> string list \<Rightarrow> bpf_state \<Rightarrow> outcome"
where
  "handleNarrow env env' appended operator f s =
     (if length f \<noteq> 3 then refuse ''ERR protocol'' s
      else case parseClasses (f ! 2) of
        Inl _ \<Rightarrow> refuse ''ERR bad-classes'' s
      | Inr reqMask \<Rightarrow>
         (case resolveAgentTarget (be_stat env) (be_glob env) (f ! 1) of
            Inl e \<Rightarrow> refuse (target_reply e) s
          | Inr (cg, path) \<Rightarrow> narrow_locked env' appended operator (f ! 1) reqMask cg path s))"

section \<open>The socket\<close>

text \<open>
  \<open>handleApprove\<close>. \<open>cred\<close> is the peer's uid and pid, \<open>None\<close> when the kernel did not give
  them; \<open>listing\<close> is the text of \<open>listPending\<close>. Its result is the reply, the gate, the maps
  and the records appended.
\<close>

definition operator_name :: "nat \<Rightarrow> nat \<Rightarrow> string" where
  "operator_name uid pid = ''uid'' @ itoa uid @ '':pid'' @ itoa pid"

definition handleApprove ::
  "broker_env \<Rightarrow> broker_env \<Rightarrow> (prov_event \<Rightarrow> bool) \<Rightarrow> (nat \<times> nat) option \<Rightarrow> string option \<Rightarrow> string \<Rightarrow>
   gate \<Rightarrow> bpf_state \<Rightarrow> string \<times> gate \<times> bpf_state \<times> prov_event list"
where
  "handleApprove env env' appended cred line listing g s =
     (case cred of
        None \<Rightarrow> (''ERR not-operator'', g, s, [])
      | Some (uid, pid) \<Rightarrow>
         (if uid \<noteq> 0 then (''ERR not-operator'', g, s, [])
          else case line of
            None \<Rightarrow> (''ERR read'', g, s, [])
          | Some l \<Rightarrow>
             (let f = Fields (trimSpace l); operator = operator_name uid pid
              in if f = [] then (''ERR protocol'', g, s, [])
                 else if f ! 0 = ''LIST'' then (listing, g, s, [])
                 else if f ! 0 = ''ALLOW'' \<or> f ! 0 = ''DENY'' then
                   (if length f \<noteq> 2 then (''ERR protocol'', g, s, [])
                    else case ParseUint64 (f ! 1) of
                      None \<Rightarrow> (''ERR bad-id'', g, s, [])
                    | Some i \<Rightarrow>
                       (let allow = (f ! 0 = ''ALLOW'');
                            (found, g') = resolve i allow (if allow then ''approve'' else ''deny'') operator g
                        in (if found
                            then (if allow then ''OK allow '' else ''OK deny '') @ itoa (unat i)
                            else ''ERR no-such-pending'', g', s, [])))
                 else if f ! 0 = ''NARROW'' then
                   (let oc = handleNarrow env env' appended operator f s
                    in (oc_reply oc, g, oc_state oc, oc_records oc))
                 else (''ERR protocol'', g, s, []))))"

section \<open>Lemmas\<close>

lemmas outcome_defs = refuse_def recorded_def

lemma narrow_locked_state:
  "oc_state (narrow_locked env appended operator target reqMask cg path s) = s \<or>
   (\<exists>live m. reverifyCgroup (be_stat env) path cg \<and> hash_lookup (egress_policy s) cg = Some live
      \<and> hash_update (egress_policy s) cg (narrowMask live reqMask) BPF_EXIST = Inr m
      \<and> oc_state (narrow_locked env appended operator target reqMask cg path s) = s\<lparr>egress_policy := m\<rparr>)"
  unfolding narrow_locked_def Let_def outcome_defs
  by (simp split: option.splits sum.splits)

lemma narrow_locked_replied:
  assumes "hasPrefix (oc_reply (narrow_locked env appended operator target reqMask cg path s)) ''OK''"
  shows "\<exists>live. reverifyCgroup (be_stat env) path cg \<and> hash_lookup (egress_policy s) cg = Some live
    \<and> (oc_state (narrow_locked env appended operator target reqMask cg path s) = s \<and> narrowMask live reqMask = live
       \<or> (\<exists>m. hash_update (egress_policy s) cg (narrowMask live reqMask) BPF_EXIST = Inr m
            \<and> oc_state (narrow_locked env appended operator target reqMask cg path s) = s\<lparr>egress_policy := m\<rparr>))"
proof (cases "hash_lookup (egress_policy s) cg")
  case None
  then show ?thesis
    using assms unfolding narrow_locked_def Let_def outcome_defs by (simp add: hasPrefix_simps split: if_splits)
next
  case (Some live)
  then show ?thesis
    using assms unfolding narrow_locked_def Let_def outcome_defs
    by (intro exI [of _ live]) (simp add: hasPrefix_simps split: if_splits sum.splits)
qed

lemma handleNarrow_state:
  assumes "oc_state (handleNarrow env env' appended operator f s) \<noteq> s"
  obtains reqMask cg path where "parseClasses (f ! 2) = Inr reqMask"
    "resolveAgentTarget (be_stat env) (be_glob env) (f ! 1) = Inr (cg, path)"
    "oc_state (handleNarrow env env' appended operator f s) =
       oc_state (narrow_locked env' appended operator (f ! 1) reqMask cg path s)"
  using assms unfolding handleNarrow_def refuse_def
  by (simp split: if_splits sum.splits prod.splits)

lemma handleNarrow_replied:
  assumes "hasPrefix (oc_reply (handleNarrow env env' appended operator f s)) ''OK''"
    and "parseClasses (f ! 2) = Inr reqMask"
    and "resolveAgentTarget (be_stat env) (be_glob env) (f ! 1) = Inr (cg, path)"
  shows "handleNarrow env env' appended operator f s = narrow_locked env' appended operator (f ! 1) reqMask cg path s"
  using assms unfolding handleNarrow_def refuse_def by (simp add: hasPrefix_simps split: if_splits)

lemma resolve_target_agent:
  "resolveAgentTarget stat glob target = Inr (cg, path) \<Longrightarrow> isAgentCgroup path"
  by (auto simp: resolveAgentTarget_def Let_def split: sum.splits if_splits option.splits)

end
