(* ===== verification/Control_Socket.thy ===== *)
theory Control_Socket
  imports Operator_Socket
begin

text \<open>
  The collector's control socket (\<^verbatim>\<open>src/collector/control.go\<close>): the verbs that write the
  pinned maps on behalf of callers the kernel attested. Every write verb holds
  \<open>controlMu\<close>, so each is one step. The attestation verbs only read; their reply is the
  parameter \<open>attest\<close>.
\<close>

section \<open>Verbs\<close>

record control_result =
  cr_reply :: string
  cr_state :: bpf_state
  cr_records :: "prov_event list"

definition recordControl :: "string \<Rightarrow> string \<Rightarrow> string \<Rightarrow> string \<Rightarrow> u64 \<Rightarrow> prov_event" where
  "recordControl hook comm decision mode cg =
     \<lparr>pe_cgroup_id = cg, pe_pid = 0, pe_comm = bytes_of (take 16 comm), pe_hook = hook,
      pe_decision = decision, pe_mode = mode\<rparr>"

definition ctl_reply :: "string \<Rightarrow> bpf_state \<Rightarrow> control_result" where
  "ctl_reply r s = \<lparr>cr_reply = r, cr_state = s, cr_records = []\<rparr>"

definition ctlEgressSetSelf :: "broker_env \<Rightarrow> u64 \<Rightarrow> string \<Rightarrow> string list \<Rightarrow> bpf_state \<Rightarrow> control_result" where
  "ctlEgressSetSelf env cg path f s =
     (if \<not> isAgentCgroup path then ctl_reply ''ERR not-an-agent'' s
      else if length f \<noteq> 2 then ctl_reply ''ERR protocol'' s
      else case parseClasses (f ! 1) of
        Inl _ \<Rightarrow> ctl_reply ''ERR bad-classes'' s
      | Inr classes \<Rightarrow>
         (if \<not> be_pinned env ''egress_policy'' then ctl_reply ''ERR map'' s
          else case hash_update (egress_policy s) cg classes BPF_ANY of
            Inl _ \<Rightarrow>
              \<lparr>cr_reply = ''ERR update'', cr_state = s,
               cr_records = [recordControl ''control:egress-set'' '''' ''err'' ''update-failed'' cg]\<rparr>
          | Inr m \<Rightarrow>
              \<lparr>cr_reply = ''OK '' @ classNames classes, cr_state = s\<lparr>egress_policy := m\<rparr>,
               cr_records = [recordControl ''control:egress-set'' '''' ''ok'' (classNames classes) cg]\<rparr>))"

definition ctlEgressClearSelf :: "broker_env \<Rightarrow> u64 \<Rightarrow> string \<Rightarrow> bpf_state \<Rightarrow> control_result" where
  "ctlEgressClearSelf env cg path s =
     (if \<not> isAgentCgroup path then ctl_reply ''ERR not-an-agent'' s
      else if \<not> be_pinned env ''egress_policy'' then ctl_reply ''ERR map'' s
      else case hash_delete (egress_policy s) cg of
        Inl e \<Rightarrow>
         (if e \<noteq> ENOENT then
            \<lparr>cr_reply = ''ERR delete'', cr_state = s,
             cr_records = [recordControl ''control:egress-clear'' '''' ''err'' ''delete-failed'' cg]\<rparr>
          else
            \<lparr>cr_reply = ''OK cleared'', cr_state = s,
             cr_records = [recordControl ''control:egress-clear'' '''' ''ok'' ''cleared'' cg]\<rparr>)
      | Inr m \<Rightarrow>
          \<lparr>cr_reply = ''OK cleared'', cr_state = s\<lparr>egress_policy := m\<rparr>,
           cr_records = [recordControl ''control:egress-clear'' '''' ''ok'' ''cleared'' cg]\<rparr>)"

text \<open>The loop that deletes a cgroup's grants, also of \<open>grantClearSelf\<close> (\<^verbatim>\<open>grant.go\<close>).\<close>

definition delete_or_keep :: "('k, 'v) hash_map \<Rightarrow> 'k \<Rightarrow> ('k, 'v) hash_map" where
  "delete_or_keep m k = (case hash_delete m k of Inr m' \<Rightarrow> m' | Inl _ \<Rightarrow> m)"

definition clear_grants :: "u64 \<Rightarrow> (grant_key, grant_val) hash_map \<Rightarrow> (grant_key, grant_val) hash_map" where
  "clear_grants cg m =
     fold (\<lambda>h m. delete_or_keep m (the_grant_key cg h)) [HOOK_PTRACE, HOOK_SETUID, HOOK_CAPSET] m"

definition ctlGrantClearSelf :: "broker_env \<Rightarrow> u64 \<Rightarrow> string \<Rightarrow> bpf_state \<Rightarrow> control_result" where
  "ctlGrantClearSelf env cg path s =
     (if \<not> isAgentCgroup path then ctl_reply ''ERR not-an-agent'' s
      else if \<not> be_pinned env ''grant_once'' then ctl_reply ''ERR map'' s
      else
        \<lparr>cr_reply = ''OK cleared'', cr_state = s\<lparr>grant_once := clear_grants cg (grant_once s)\<rparr>,
         cr_records = [recordControl ''control:grant-clear'' '''' ''ok'' ''cleared'' cg]\<rparr>)"

definition ctlTcbRegisterBroker :: "broker_env \<Rightarrow> string \<Rightarrow> bpf_state \<Rightarrow> control_result" where
  "ctlTcbRegisterBroker env path s =
     (if \<not> isBrokerCaller path then ctl_reply ''ERR not-broker'' s
      else case be_stat env brokerCgroupPath of
        None \<Rightarrow> ctl_reply ''ERR broker-cgroup'' s
      | Some bid \<Rightarrow>
         (if \<not> be_pinned env ''tcb_cgroups'' then ctl_reply ''ERR map'' s
          else case hash_update (tcb_cgroups s) bid 1 BPF_ANY of
            Inl _ \<Rightarrow>
              \<lparr>cr_reply = ''ERR update'', cr_state = s,
               cr_records = [recordControl ''control:tcb-register-broker'' ''broker'' ''err'' ''update-failed'' bid]\<rparr>
          | Inr m \<Rightarrow>
              \<lparr>cr_reply = ''OK registered'', cr_state = s\<lparr>tcb_cgroups := m\<rparr>,
               cr_records = [recordControl ''control:tcb-register-broker'' ''broker'' ''ok'' ''registered'' bid]\<rparr>))"

definition ctlWaitBrokerTCB :: "broker_env \<Rightarrow> bpf_state \<Rightarrow> string" where
  "ctlWaitBrokerTCB env s =
     (case be_stat env brokerCgroupPath of
        None \<Rightarrow> ''ERR broker-cgroup''
      | Some bid \<Rightarrow>
          if \<not> be_pinned env ''tcb_cgroups'' then ''ERR map''
          else if hash_lookup (tcb_cgroups s) bid = None then ''ERR not-registered'' else ''OK registered'')"

definition ctlEnforceSet :: "broker_env \<Rightarrow> string \<Rightarrow> string list \<Rightarrow> bpf_state \<Rightarrow> control_result" where
  "ctlEnforceSet env path f s =
     (if isAgentCgroup path then ctl_reply ''ERR not-operator'' s
      else if length f \<noteq> 3 \<or> f ! 2 \<noteq> ''0'' \<and> f ! 2 \<noteq> ''1'' then ctl_reply ''ERR protocol'' s
      else case hookID (f ! 1) of
        None \<Rightarrow> ctl_reply ''ERR bad-hook'' s
      | Some hid \<Rightarrow>
         (if \<not> be_pinned env ''enforce_flags'' then ctl_reply ''ERR map'' s
          else case array_update (enforce_flags s) hid (if f ! 2 = ''1'' then 1 else 0) BPF_ANY of
            Inl _ \<Rightarrow>
              \<lparr>cr_reply = ''ERR update'', cr_state = s,
               cr_records = [recordControl ''control:enforce-set'' (f ! 1) ''err'' ''update-failed'' 0]\<rparr>
          | Inr m \<Rightarrow>
              \<lparr>cr_reply = ''OK '' @ f ! 1 @ ''='' @ f ! 2, cr_state = s\<lparr>enforce_flags := m\<rparr>,
               cr_records = [recordControl ''control:enforce-set'' (f ! 1) ''ok'' (f ! 1 @ ''='' @ f ! 2) 0]\<rparr>))"

section \<open>Dispatch\<close>

definition attest_verbs :: "string list" where
  "attest_verbs =
     [''ATTEST-EXTEND'', ''ATTEST-QUOTE'', ''ATTEST-EK'', ''ATTEST-ACTIVATE'', ''ATTEST-GATE'', ''ATTEST-SELFCHECK'']"

definition ctl_dispatch ::
  "broker_env \<Rightarrow> (string \<Rightarrow> string list \<Rightarrow> string) \<Rightarrow> u64 \<Rightarrow> string \<Rightarrow> string list \<Rightarrow> bpf_state \<Rightarrow> control_result"
where
  "ctl_dispatch env attest cg path f s =
     (if f ! 0 = ''EGRESS-SET-SELF'' then ctlEgressSetSelf env cg path f s
      else if f ! 0 = ''EGRESS-CLEAR-SELF'' then ctlEgressClearSelf env cg path s
      else if f ! 0 = ''GRANT-CLEAR-SELF'' then ctlGrantClearSelf env cg path s
      else if f ! 0 = ''TCB-REGISTER-BROKER'' then ctlTcbRegisterBroker env path s
      else if f ! 0 = ''WAIT-BROKER-TCB'' then ctl_reply (ctlWaitBrokerTCB env s) s
      else if f ! 0 = ''ENFORCE-SET'' then ctlEnforceSet env path f s
      else if f ! 0 \<in> set attest_verbs then ctl_reply (attest path f) s
      else ctl_reply ''ERR protocol'' s)"

definition handleControlConn ::
  "broker_env \<Rightarrow> (string \<Rightarrow> string list \<Rightarrow> string) \<Rightarrow> u32 option \<Rightarrow> (u64 \<times> string) option \<Rightarrow> string option \<Rightarrow>
   bpf_state \<Rightarrow> control_result"
where
  "handleControlConn env attest uid peer line s =
     (if uid \<noteq> Some 0 then ctl_reply ''ERR not-root'' s
      else case peer of
        None \<Rightarrow> ctl_reply ''ERR peer-auth'' s
      | Some (cg, path) \<Rightarrow>
         (case line of
            None \<Rightarrow> ctl_reply ''ERR read'' s
          | Some l \<Rightarrow>
             (let f = Fields (trimSpace l)
              in if f = [] then ctl_reply ''ERR protocol'' s else ctl_dispatch env attest cg path f s)))"

text \<open>\<open>shouldRetryControl\<close>: transport failures are retried, replies of the server are final.\<close>

definition shouldRetryControl :: "string \<Rightarrow> string \<Rightarrow> bool" where
  "shouldRetryControl verb resp \<longleftrightarrow> verb = ''wait-broker-tcb'' \<or> hasPrefix resp ''control ''"

section \<open>Effects of the verbs\<close>

lemma lookup_delete_or_keep [simp]:
  "hash_lookup (delete_or_keep m k) k' = (if k' = k then None else hash_lookup m k')"
proof (cases "hash_delete m k")
  case (Inl e)
  then have "hash_lookup m k = None" by (auto simp: hash_delete_def split: if_splits)
  then show ?thesis by (simp add: delete_or_keep_def Inl)
next
  case (Inr m')
  then show ?thesis by (simp add: delete_or_keep_def hash_lookup_delete [OF Inr])
qed

lemma hash_inv_delete_or_keep: "hash_inv m \<Longrightarrow> hash_inv (delete_or_keep m k) \<and> hm_max (delete_or_keep m k) = hm_max m"
  unfolding delete_or_keep_def
  by (cases "hash_delete m k") (auto dest: hash_delete_inv hm_max_delete)

lemma lookup_clear_grants:
  "hash_lookup (clear_grants cg m) k =
     (if k \<in> the_grant_key cg ` {HOOK_PTRACE, HOOK_SETUID, HOOK_CAPSET} then None else hash_lookup m k)"
  by (auto simp: clear_grants_def)

lemma ctlEgressSetSelf_state:
  "cr_state (ctlEgressSetSelf env cg path f s) = s \<or>
   (\<exists>classes m. isAgentCgroup path \<and> parseClasses (f ! 1) = Inr classes
      \<and> hash_update (egress_policy s) cg classes BPF_ANY = Inr m
      \<and> cr_state (ctlEgressSetSelf env cg path f s) = s\<lparr>egress_policy := m\<rparr>)"
  by (auto simp: ctlEgressSetSelf_def ctl_reply_def split: sum.splits)

lemma ctlEgressClearSelf_state:
  "cr_state (ctlEgressClearSelf env cg path s) = s \<or>
   isAgentCgroup path \<and> (\<exists>m. hash_delete (egress_policy s) cg = Inr m
      \<and> cr_state (ctlEgressClearSelf env cg path s) = s\<lparr>egress_policy := m\<rparr>)"
  by (auto simp: ctlEgressClearSelf_def ctl_reply_def split: sum.splits)

lemma ctlGrantClearSelf_state:
  "cr_state (ctlGrantClearSelf env cg path s) = s \<or>
   isAgentCgroup path \<and> cr_state (ctlGrantClearSelf env cg path s) = s\<lparr>grant_once := clear_grants cg (grant_once s)\<rparr>"
  by (auto simp: ctlGrantClearSelf_def ctl_reply_def)

lemma ctlTcbRegisterBroker_state:
  "cr_state (ctlTcbRegisterBroker env path s) = s \<or>
   (\<exists>bid m. isBrokerCaller path \<and> be_stat env brokerCgroupPath = Some bid
      \<and> hash_update (tcb_cgroups s) bid 1 BPF_ANY = Inr m
      \<and> cr_state (ctlTcbRegisterBroker env path s) = s\<lparr>tcb_cgroups := m\<rparr>)"
  by (auto simp: ctlTcbRegisterBroker_def ctl_reply_def split: sum.splits option.splits)

lemma ctlEnforceSet_state:
  "cr_state (ctlEnforceSet env path f s) = s \<or>
   (\<exists>m. \<not> isAgentCgroup path \<and> cr_state (ctlEnforceSet env path f s) = s\<lparr>enforce_flags := m\<rparr>)"
  by (auto simp: ctlEnforceSet_def ctl_reply_def split: sum.splits option.splits)

lemma ctl_frames [frame_simps]:
  "tcb_cgroups (cr_state (ctlEgressSetSelf env cg path f s)) = tcb_cgroups s"
  "enforce_flags (cr_state (ctlEgressSetSelf env cg path f s)) = enforce_flags s"
  "tcb_cgroups (cr_state (ctlEgressClearSelf env cg path s)) = tcb_cgroups s"
  "enforce_flags (cr_state (ctlEgressClearSelf env cg path s)) = enforce_flags s"
  "tcb_cgroups (cr_state (ctlGrantClearSelf env cg path s)) = tcb_cgroups s"
  "enforce_flags (cr_state (ctlGrantClearSelf env cg path s)) = enforce_flags s"
  "egress_policy (cr_state (ctlGrantClearSelf env cg path s)) = egress_policy s"
  "egress_policy (cr_state (ctlTcbRegisterBroker env path s)) = egress_policy s"
  "enforce_flags (cr_state (ctlTcbRegisterBroker env path s)) = enforce_flags s"
  "egress_policy (cr_state (ctlEnforceSet env path f s)) = egress_policy s"
  "tcb_cgroups (cr_state (ctlEnforceSet env path f s)) = tcb_cgroups s"
  "grant_once (cr_state (ctlEgressSetSelf env cg path f s)) = grant_once s"
  "grant_once (cr_state (ctlEgressClearSelf env cg path s)) = grant_once s"
  "grant_once (cr_state (ctlTcbRegisterBroker env path s)) = grant_once s"
  "grant_once (cr_state (ctlEnforceSet env path f s)) = grant_once s"
  using ctlEgressSetSelf_state [of env cg path f s] ctlEgressClearSelf_state [of env cg path s]
    ctlGrantClearSelf_state [of env cg path s] ctlTcbRegisterBroker_state [of env path s]
    ctlEnforceSet_state [of env path f s]
  by auto

text \<open>The five ways a connection can change the maps.\<close>

lemma ctl_dispatch_state:
  "cr_state (ctl_dispatch env attest cg path f s) \<in>
     {s, cr_state (ctlEgressSetSelf env cg path f s), cr_state (ctlEgressClearSelf env cg path s),
      cr_state (ctlGrantClearSelf env cg path s), cr_state (ctlTcbRegisterBroker env path s),
      cr_state (ctlEnforceSet env path f s)}"
  unfolding ctl_dispatch_def ctl_reply_def
  by (simp only: control_result.select_convs insert_iff simp_thms split: if_split)

lemma handleControlConn_dispatch:
  assumes "cr_state (handleControlConn env attest uid peer line s) \<noteq> s"
  obtains cg path f where "uid = Some 0" "peer = Some (cg, path)"
    "cr_state (handleControlConn env attest uid peer line s) = cr_state (ctl_dispatch env attest cg path f s)"
proof (cases "uid = Some 0")
  case uid: True
  show ?thesis
  proof (cases peer)
    case None
    then show ?thesis using assms by (simp add: handleControlConn_def ctl_reply_def)
  next
    case (Some q)
    obtain cg path where q: "q = (cg, path)" by (cases q)
    show ?thesis
    proof (cases line)
      case None
      then show ?thesis using assms Some q by (simp add: handleControlConn_def ctl_reply_def)
    next
      case (Some l)
      then show ?thesis
        using assms uid \<open>peer = Some q\<close> q that [of cg path "Fields (trimSpace l)"]
        by (simp add: handleControlConn_def ctl_reply_def Let_def split: if_splits)
    qed
  qed
qed (use assms in \<open>simp add: handleControlConn_def ctl_reply_def\<close>)

lemma handleControlConn_state:
  assumes "cr_state (handleControlConn env attest uid peer line s) = s'" "s' \<noteq> s"
  obtains (set_self) cg path f where "uid = Some 0" "peer = Some (cg, path)"
      "s' = cr_state (ctlEgressSetSelf env cg path f s)"
  | (clear_self) cg path where "uid = Some 0" "peer = Some (cg, path)"
      "s' = cr_state (ctlEgressClearSelf env cg path s)"
  | (clear_grants) cg path where "uid = Some 0" "peer = Some (cg, path)"
      "s' = cr_state (ctlGrantClearSelf env cg path s)"
  | (register_broker) cg path where "uid = Some 0" "peer = Some (cg, path)"
      "s' = cr_state (ctlTcbRegisterBroker env path s)"
  | (enforce) cg path f where "uid = Some 0" "peer = Some (cg, path)"
      "s' = cr_state (ctlEnforceSet env path f s)"
proof -
  from assms obtain cg path f where d: "uid = Some 0" "peer = Some (cg, path)"
    "s' = cr_state (ctl_dispatch env attest cg path f s)"
    using handleControlConn_dispatch [of env attest uid peer line s] by metis
  have "s' \<in> {s, cr_state (ctlEgressSetSelf env cg path f s), cr_state (ctlEgressClearSelf env cg path s),
      cr_state (ctlGrantClearSelf env cg path s), cr_state (ctlTcbRegisterBroker env path s),
      cr_state (ctlEnforceSet env path f s)}"
    unfolding d(3) by (rule ctl_dispatch_state)
  then consider "s' = cr_state (ctlEgressSetSelf env cg path f s)" | "s' = cr_state (ctlEgressClearSelf env cg path s)"
    | "s' = cr_state (ctlGrantClearSelf env cg path s)" | "s' = cr_state (ctlTcbRegisterBroker env path s)"
    | "s' = cr_state (ctlEnforceSet env path f s)"
    using assms(2) by blast
  then show thesis
    by cases (rule set_self [OF d(1,2)], assumption, rule clear_self [OF d(1,2)], assumption,
      rule clear_grants [OF d(1,2)], assumption, rule register_broker [OF d(1,2)], assumption,
      rule enforce [OF d(1,2)], assumption)
qed

end
