(* ===== verification/Gc.thy ===== *)
theory Gc
  imports Control_Socket
begin

text \<open>
  Garbage collection of the pinned maps (\<^verbatim>\<open>src/collector/gc.go\<close>) with \<open>tcbCgroupIDs\<close> of
  \<^verbatim>\<open>main.go\<close>: entries of agents whose cgroup is gone are deleted, and the trusted set is
  reduced to the root cgroup, the collector and the live broker. \<open>gc_tick\<close> is one turn of
  \<open>gcLoop\<close>, which holds \<open>controlMu\<close> from the scan of live agents to the last delete. A Go set
  is a HOL set; the set \<open>nil\<close> of the one-shot command is \<open>None\<close>.
\<close>

section \<open>Live agents\<close>

definition agentSliceGlobs :: "string list" where
  "agentSliceGlobs =
     [''/sys/fs/cgroup/bulkhead.slice/bulkhead-agent.slice/bulkhead-agent@*.service'',
      ''/sys/fs/cgroup/*/bulkhead-agent.slice/bulkhead-agent@*.service'',
      ''/sys/fs/cgroup/bulkhead-agent.slice/bulkhead-agent@*.service'']"

definition liveAgentCgids :: "(string \<Rightarrow> u64 option) \<Rightarrow> (string \<Rightarrow> string list) \<Rightarrow> u64 set" where
  "liveAgentCgids stat glob = set (List.map_filter stat (concat (map glob agentSliceGlobs)))"

section \<open>What to prune\<close>

fun selectGrantPrunes :: "grant_key list \<Rightarrow> u64 set \<Rightarrow> u64 set option \<Rightarrow> grant_key list \<times> u64 set option" where
  "selectGrantPrunes [] live seen = ([], seen)"
| "selectGrantPrunes (k # ks) live seen =
     (if gk_cgid k \<in> live then selectGrantPrunes ks live (map_option (insert (gk_cgid k)) seen)
      else
        (let (del, seen') = selectGrantPrunes ks live seen
         in case seen of
              None \<Rightarrow> (k # del, seen')
            | Some ws \<Rightarrow> (if gk_cgid k \<in> ws then k # del else del, seen')))"

fun selectEgressPrunes :: "u64 list \<Rightarrow> u64 set \<Rightarrow> u64 set \<Rightarrow> u64 list \<times> u64 set" where
  "selectEgressPrunes [] live seen = ([], seen)"
| "selectEgressPrunes (cg # cgs) live seen =
     (if cg \<in> live then selectEgressPrunes cgs live (insert cg seen)
      else
        (let (del, seen') = selectEgressPrunes cgs live seen
         in (if cg \<in> seen then cg # del else del, seen')))"

definition delete_all :: "'k list \<Rightarrow> ('k, 'v) hash_map \<Rightarrow> ('k, 'v) hash_map" where
  "delete_all ks m = fold (\<lambda>k m. delete_or_keep m k) ks m"

definition map_keys :: "('k, 'v) hash_map \<Rightarrow> 'k list" where
  "map_keys m = map fst (hm_entries m)"

definition runGCPass ::
  "u64 set \<Rightarrow> u64 set \<Rightarrow> u64 set option \<Rightarrow> bpf_state \<Rightarrow> bpf_state \<times> u64 set \<times> u64 set option"
where
  "runGCPass live seen grantSeen s =
     (let (grantDel, grantSeen') = selectGrantPrunes (map_keys (grant_once s)) live grantSeen;
          s1 = s\<lparr>grant_once := delete_all grantDel (grant_once s)\<rparr>;
          (egressDel, seen') = selectEgressPrunes (map_keys (egress_policy s1)) live seen
      in (s1\<lparr>egress_policy := delete_all egressDel (egress_policy s1)\<rparr>, seen', grantSeen'))"

section \<open>The trusted set\<close>

definition tcbCgroupIDs :: "(string \<Rightarrow> u64 option) \<Rightarrow> string \<Rightarrow> u64 list" where
  "tcbCgroupIDs stat self =
     (case stat cgroup_root of Some i \<Rightarrow> [i] | None \<Rightarrow> []) @
     (if self = '''' then []
      else case stat (Join2 cgroup_root self) of Some i \<Rightarrow> [i] | None \<Rightarrow> [])"

definition ensure_present :: "u64 \<Rightarrow> (u64, u32) hash_map \<Rightarrow> (u64, u32) hash_map" where
  "ensure_present bid m =
     (if hash_lookup m bid = None
      then (case hash_update m bid 1 BPF_ANY of Inr m' \<Rightarrow> m' | Inl _ \<Rightarrow> m) else m)"

definition reconcileTCB :: "(string \<Rightarrow> u64 option) \<Rightarrow> string \<Rightarrow> (u64, u32) hash_map \<Rightarrow> (u64, u32) hash_map" where
  "reconcileTCB stat self tcb =
     (let keep = set (tcbCgroupIDs stat self)
      in if card keep < 2 then tcb
         else
           (let (keep', tcb') =
                  (case stat brokerCgroupPath of
                     Some bid \<Rightarrow> (insert bid keep, ensure_present bid tcb)
                   | None \<Rightarrow> (keep, tcb))
            in delete_all (filter (\<lambda>k. k \<notin> keep') (map_keys tcb')) tcb'))"

section \<open>Passes\<close>

record gc_state =
  gc_seen :: "u64 set"
  gc_grantSeen :: "u64 set"

definition gc_tick :: "broker_env \<Rightarrow> string \<Rightarrow> gc_state \<Rightarrow> bpf_state \<Rightarrow> gc_state \<times> bpf_state" where
  "gc_tick env self gs s =
     (if \<not> be_pinned env ''grant_once'' \<or> \<not> be_pinned env ''egress_policy'' then (gs, s)
      else
        (let live = liveAgentCgids (be_stat env) (be_glob env);
             (s1, seen', grantSeen') = runGCPass live (gc_seen gs) (Some (gc_grantSeen gs)) s;
             s2 = (if be_pinned env ''tcb_cgroups''
                   then s1\<lparr>tcb_cgroups := reconcileTCB (be_stat env) self (tcb_cgroups s1)\<rparr> else s1)
         in (\<lparr>gc_seen = seen', gc_grantSeen = (case grantSeen' of Some w \<Rightarrow> w | None \<Rightarrow> {})\<rparr>, s2)))"

definition cmdGC :: "broker_env \<Rightarrow> bpf_state \<Rightarrow> bpf_state option" where
  "cmdGC env s =
     (if \<not> be_pinned env ''grant_once'' \<or> \<not> be_pinned env ''egress_policy'' then None
      else Some (fst (runGCPass (liveAgentCgids (be_stat env) (be_glob env)) {} None s)))"

section \<open>Lemmas\<close>

lemma selectGrantPrunes_None: "selectGrantPrunes ks live None = (filter (\<lambda>k. gk_cgid k \<notin> live) ks, None)"
  by (induction ks) auto

lemma selectGrantPrunes_Some:
  "snd (selectGrantPrunes ks live (Some ws)) = Some (ws \<union> (gk_cgid ` set ks \<inter> live))"
  "set (fst (selectGrantPrunes ks live (Some ws))) = {k \<in> set ks. gk_cgid k \<notin> live \<and> gk_cgid k \<in> ws}"
proof (induction ks arbitrary: ws)
  case (Cons k ks)
  { case 1 show ?case using Cons by (auto simp: case_prod_beta Let_def) }
  { case 2 show ?case using Cons by (auto simp: case_prod_beta Let_def) }
qed auto

lemma selectEgressPrunes_eq:
  "snd (selectEgressPrunes cgs live ws) = ws \<union> (set cgs \<inter> live)"
  "set (fst (selectEgressPrunes cgs live ws)) = {cg \<in> set cgs. cg \<notin> live \<and> cg \<in> ws}"
proof (induction cgs arbitrary: ws)
  case (Cons cg cgs)
  { case 1 show ?case using Cons by (auto simp: case_prod_beta Let_def) }
  { case 2 show ?case using Cons by (auto simp: case_prod_beta Let_def) }
qed auto

lemma lookup_delete_all [simp]:
  "hash_lookup (delete_all ks m) k = (if k \<in> set ks then None else hash_lookup m k)"
  unfolding delete_all_def by (induction ks arbitrary: m) auto

lemma delete_all_inv:
  "hash_inv m \<Longrightarrow> hash_inv (delete_all ks m) \<and> hm_max (delete_all ks m) = hm_max m"
  unfolding delete_all_def
proof (induction ks arbitrary: m)
  case (Cons k ks)
  then show ?case using hash_inv_delete_or_keep [of m k] by simp
qed simp

lemma map_keys_lookup: "k \<in> set (map_keys m) \<longleftrightarrow> hash_lookup m k \<noteq> None"
  by (simp add: map_keys_def hash_lookup_def map_of_eq_None_iff)

lemma lookup_ensure_present:
  "hash_lookup (ensure_present bid m) k = hash_lookup m k \<or> k = bid \<and> hash_lookup (ensure_present bid m) k = Some 1"
  by (auto simp: ensure_present_def hash_lookup_update split: sum.splits)

lemma ensure_present_exact:
  "hash_lookup (ensure_present bid m) bid =
     (if hash_lookup m bid = None \<and> length (hm_entries m) < hm_max m then Some 1 else hash_lookup m bid)"
proof (cases "hash_lookup m bid = None \<and> length (hm_entries m) < hm_max m")
  case True
  then have upd: "hash_update m bid 1 BPF_ANY = Inr (m\<lparr>hm_entries := AList.update bid 1 (hm_entries m)\<rparr>)"
    by (simp add: hash_update_def update_flag_defs)
  show ?thesis using True upd hash_lookup_update [OF upd, of bid] by (simp add: ensure_present_def)
next
  case False
  then show ?thesis by (auto simp: ensure_present_def hash_update_def update_flag_defs)
qed

lemma gc_tick_maps:
  assumes "be_pinned env ''grant_once''" "be_pinned env ''egress_policy''"
    and "gc_tick env self gs s = (gs', s')" "live = liveAgentCgids (be_stat env) (be_glob env)"
  obtains gd ed where
    "egress_policy s' = delete_all ed (egress_policy s)" "grant_once s' = delete_all gd (grant_once s)"
    "set gd = {k \<in> set (map_keys (grant_once s)). gk_cgid k \<notin> live \<and> gk_cgid k \<in> gc_grantSeen gs}"
    "set ed = {cg \<in> set (map_keys (egress_policy s)). cg \<notin> live \<and> cg \<in> gc_seen gs}"
    "gc_seen gs' = gc_seen gs \<union> (set (map_keys (egress_policy s)) \<inter> live)"
    "enforce_flags s' = enforce_flags s" "events s' = events s"
    "tcb_cgroups s' \<in> {tcb_cgroups s, reconcileTCB (be_stat env) self (tcb_cgroups s)}"
proof -
  obtain gd where g: "selectGrantPrunes (map_keys (grant_once s)) live (Some (gc_grantSeen gs)) =
      (gd, Some (gc_grantSeen gs \<union> (gk_cgid ` set (map_keys (grant_once s)) \<inter> live)))"
    and gd: "set gd = {k \<in> set (map_keys (grant_once s)). gk_cgid k \<notin> live \<and> gk_cgid k \<in> gc_grantSeen gs}"
    using selectGrantPrunes_Some [of "map_keys (grant_once s)" live "gc_grantSeen gs"]
    by (cases "selectGrantPrunes (map_keys (grant_once s)) live (Some (gc_grantSeen gs))") simp
  obtain ed where e: "selectEgressPrunes (map_keys (egress_policy s)) live (gc_seen gs) =
      (ed, gc_seen gs \<union> (set (map_keys (egress_policy s)) \<inter> live))"
    and ed: "set ed = {cg \<in> set (map_keys (egress_policy s)). cg \<notin> live \<and> cg \<in> gc_seen gs}"
    using selectEgressPrunes_eq [of "map_keys (egress_policy s)" live "gc_seen gs"]
    by (cases "selectEgressPrunes (map_keys (egress_policy s)) live (gc_seen gs)") simp
  define s1 where "s1 = s\<lparr>grant_once := delete_all gd (grant_once s), egress_policy := delete_all ed (egress_policy s)\<rparr>"
  have pass: "runGCPass live (gc_seen gs) (Some (gc_grantSeen gs)) s =
      (s1, gc_seen gs \<union> (set (map_keys (egress_policy s)) \<inter> live),
       Some (gc_grantSeen gs \<union> (gk_cgid ` set (map_keys (grant_once s)) \<inter> live)))"
    by (simp add: runGCPass_def g e s1_def)
  have "gc_tick env self gs s = (gs', s')" by (rule assms(3))
  then have tick: "gc_seen gs' = gc_seen gs \<union> (set (map_keys (egress_policy s)) \<inter> live)"
    "s' = (if be_pinned env ''tcb_cgroups''
           then s1\<lparr>tcb_cgroups := reconcileTCB (be_stat env) self (tcb_cgroups s1)\<rparr> else s1)"
    unfolding gc_tick_def Let_def assms(4) [symmetric] pass using assms(1,2) by auto
  then have "egress_policy s' = delete_all ed (egress_policy s)" "grant_once s' = delete_all gd (grant_once s)"
    "enforce_flags s' = enforce_flags s" "events s' = events s"
    "tcb_cgroups s' \<in> {tcb_cgroups s, reconcileTCB (be_stat env) self (tcb_cgroups s)}"
    by (simp_all add: s1_def)
  with gd ed tick(1) show thesis using that by blast
qed

lemma gc_tick_unpinned:
  "\<not> (be_pinned env ''grant_once'' \<and> be_pinned env ''egress_policy'') \<Longrightarrow> gc_tick env self gs s = (gs, s)"
  by (auto simp: gc_tick_def)

lemma gc_tick_keeps_live:
  assumes "gc_tick env self gs s = (gs', s')" "cg \<in> liveAgentCgids (be_stat env) (be_glob env)"
  shows "hash_lookup (egress_policy s') cg = hash_lookup (egress_policy s) cg"
proof (cases "be_pinned env ''grant_once'' \<and> be_pinned env ''egress_policy''")
  case True
  then have pinned: "be_pinned env ''grant_once''" "be_pinned env ''egress_policy''" by simp_all
  show ?thesis
    by (rule gc_tick_maps [OF pinned assms(1) refl]) (simp add: assms(2))
next
  case False
  then show ?thesis using assms(1) gc_tick_unpinned [of env self gs s] by simp
qed

section \<open>Properties\<close>

text \<open>
  A garbage collection pass deletes exactly the entries of dead agents it has seen
  alive. An egress manifest or grant disappears if and only if its cgroup is not live now
  and was witnessed live by an earlier pass; every other entry keeps its value, nothing is
  created, and the enforcement flags are untouched. Entries for cgroups that were never
  agents, and those of agents live now, therefore survive.
\<close>

theorem gc_tick_exact:
  assumes "be_pinned env ''grant_once''" "be_pinned env ''egress_policy''"
    and "gc_tick env self gs s = (gs', s')" "live = liveAgentCgids (be_stat env) (be_glob env)"
  shows "hash_lookup (egress_policy s') cg =
      (if cg \<notin> live \<and> cg \<in> gc_seen gs then None else hash_lookup (egress_policy s) cg)
    \<and> hash_lookup (grant_once s') k =
      (if gk_cgid k \<notin> live \<and> gk_cgid k \<in> gc_grantSeen gs then None else hash_lookup (grant_once s) k)
    \<and> gc_seen gs' = gc_seen gs \<union> {c \<in> live. hash_lookup (egress_policy s) c \<noteq> None}
    \<and> enforce_flags s' = enforce_flags s"
  by (rule gc_tick_maps [OF assms]) (auto simp: map_keys_lookup)

theorem gc_tick_exact_witness:
  "\<exists>env gs s. hash_lookup (egress_policy s) 7 = Some 9
    \<and> hash_lookup (egress_policy (snd (gc_tick env '''' gs s))) 7 = None"
proof -
  define env :: broker_env where
    "env = \<lparr>be_stat = (\<lambda>_. None), be_glob = (\<lambda>_. []), be_pinned = (\<lambda>_. True), be_starts = (\<lambda>_. True), be_now = 0,
      be_rand = '''', be_expandCeiling = 31, be_maxDelegateDepth = 3, be_grantTTL = 300, be_childRouterURL = '''',
      be_errtext = (\<lambda>_. ''''), be_sha256 = (\<lambda>b. b)\<rparr>"
  define s where "s = init_state\<lparr>egress_policy := \<lparr>hm_max = 1024, hm_entries = [(7, 9)]\<rparr>\<rparr>"
  define gs :: gc_state where "gs = \<lparr>gc_seen = {7}, gc_grantSeen = {}\<rparr>"
  have live: "liveAgentCgids (be_stat env) (be_glob env) = {}"
    by (simp add: liveAgentCgids_def env_def agentSliceGlobs_def map_filter_def)
  have "hash_lookup (egress_policy (snd (gc_tick env '''' gs s))) 7 = None"
    using gc_tick_exact [of env "''''" gs s "fst (gc_tick env '''' gs s)" "snd (gc_tick env '''' gs s)" "{}" 7]
    by (simp add: live) (simp add: env_def gs_def)
  moreover have "hash_lookup (egress_policy s) 7 = Some 9" by (simp add: s_def hash_lookup_def)
  ultimately show ?thesis by blast
qed

text \<open>
  What reconciliation makes of every entry of the trusted set. If the root cgroup and
  the collector do not resolve to two ids, nothing changes; otherwise these keep what they
  had, the broker's cgroup is added when it is missing and the map has room, and every
  other cgroup is dropped.
\<close>

theorem reconcile_trusted_set:
  "hash_lookup (reconcileTCB stat self tcb) k =
     (if card (set (tcbCgroupIDs stat self)) < 2 then hash_lookup tcb k
      else if stat brokerCgroupPath = Some k then
        (if hash_lookup tcb k = None \<and> length (hm_entries tcb) < hm_max tcb then Some 1 else hash_lookup tcb k)
      else if k \<in> set (tcbCgroupIDs stat self) then hash_lookup tcb k else None)"
proof (cases "card (set (tcbCgroupIDs stat self)) < 2")
  case True
  then show ?thesis by (simp add: reconcileTCB_def)
next
  case False
  show ?thesis
  proof (cases "stat brokerCgroupPath")
    case None
    then show ?thesis using False by (simp add: reconcileTCB_def map_keys_lookup)
  next
    case (Some bid)
    have "hash_lookup (ensure_present bid tcb) bid =
        (if hash_lookup tcb bid = None \<and> length (hm_entries tcb) < hm_max tcb then Some 1 else hash_lookup tcb bid)"
      by (rule ensure_present_exact)
    moreover have "k \<noteq> bid \<Longrightarrow> hash_lookup (ensure_present bid tcb) k = hash_lookup tcb k"
      using lookup_ensure_present [of bid tcb k] by blast
    ultimately show ?thesis
      using False Some by (cases "k = bid") (simp_all add: reconcileTCB_def map_keys_lookup)
  qed
qed

end
