(* ===== verification/Authority.thy ===== *)
theory Authority
  imports Gc
begin

unbundle bit_operations_syntax

text \<open>
  What the user-space side can do to the policy the hooks enforce. Each operation of the
  broker, the operator and the control socket is described by its effect on the abstract
  policy of \<^verbatim>\<open>Hook_Policy\<close>, so that its consequences for the hooks follow from the
  refinement proved there.
\<close>

section \<open>Requests that reach the gate\<close>

lemma delegate_request:
  assumes "handleDelegateTail env cg path f s = Inr p"
  shows "pd_cgid p = cg \<and> pd_path p = path \<and> pd_kind p = actDelegate \<and> validTask (pd_task p)
    \<and> (\<exists>gen sfx. delegGen path = Some gen \<and> Suc gen \<le> be_maxDelegateDepth env \<and> validSuffix sfx
        \<and> pd_gen p = Suc gen \<and> pd_instance p = mint_instance (Suc gen) (be_rand env) sfx)"
  using assms unfolding handleDelegateTail_def
  by (auto simp: pending0_def split: option.splits sum.splits if_splits prod.splits)

lemma expand_request:
  assumes "handleExpandTail env cg path f s = Inr p"
  shows "pd_cgid p = cg \<and> pd_path p = path \<and> pd_kind p = actExpandEgress
    \<and> (\<forall>gen. delegGen path = Some gen \<longrightarrow> gen = 0)"
  using assms unfolding handleExpandTail_def
  by (auto simp: pending0_def split: option.splits sum.splits if_splits)

lemma grant_request:
  assumes "handleGrantOnceTail env cg path f s = Inr p"
  shows "pd_cgid p = cg \<and> pd_path p = path \<and> pd_kind p = actGrantOnce
    \<and> pd_grantHook p \<in> {HOOK_PTRACE, HOOK_SETUID, HOOK_CAPSET}"
  using assms unfolding handleGrantOnceTail_def grantableHook_def
  by (auto simp: pending0_def split: option.splits if_splits)

lemma broker_request:
  assumes "handleBrokerConn env peer line s = Inr p"
  obtains cg path f where "peer = Some (cg, path)" "isAgentCgroup path"
    "handleDelegateTail env cg path f s = Inr p \<or> handleExpandTail env cg path f s = Inr p
     \<or> handleGrantOnceTail env cg path f s = Inr p"
proof -
  obtain cg path where peer: "peer = Some (cg, path)" and agent: "isAgentCgroup path"
    using assms by (auto simp: handleBrokerConn_def split: option.splits if_splits)
  then obtain l where "line = Some l"
    using assms by (auto simp: handleBrokerConn_def split: option.splits)
  with assms peer agent show thesis
    using that [OF peer agent, of "Fields (trimSpace l)"]
    unfolding handleBrokerConn_def Let_def
    by (simp only: option.case prod.case if_True if_False simp_thms split: if_splits) blast+
qed

lemma broker_request_identity:
  assumes "handleBrokerConn env peer line s = Inr p"
  shows "peer = Some (pd_cgid p, pd_path p)" "isAgentCgroup (pd_path p)"
proof -
  from assms show "peer = Some (pd_cgid p, pd_path p)"
    by (rule broker_request) (auto dest: delegate_request expand_request grant_request)
  from assms show "isAgentCgroup (pd_path p)"
    by (rule broker_request) (auto dest: delegate_request expand_request grant_request)
qed

lemma broker_request_kind:
  assumes "handleBrokerConn env peer line s = Inr p"
  shows "pd_kind p = actExpandEgress \<Longrightarrow> delegGen (pd_path p) = Some gen \<Longrightarrow> gen = 0"
    "pd_kind p = actGrantOnce \<Longrightarrow> pd_grantHook p \<in> {HOOK_PTRACE, HOOK_SETUID, HOOK_CAPSET}"
    "pd_kind p = actDelegate \<Longrightarrow>
       \<exists>gen sfx. delegGen (pd_path p) = Some gen \<and> Suc gen \<le> be_maxDelegateDepth env \<and> validSuffix sfx
         \<and> pd_instance p = mint_instance (Suc gen) (be_rand env) sfx \<and> validTask (pd_task p)"
proof -
  obtain cg path f where
    "handleDelegateTail env cg path f s = Inr p \<or> handleExpandTail env cg path f s = Inr p
      \<or> handleGrantOnceTail env cg path f s = Inr p"
    using assms by (rule broker_request)
  note reqs = this delegate_request [of env cg path f s p] expand_request [of env cg path f s p]
    grant_request [of env cg path f s p]
  show "pd_kind p = actExpandEgress \<Longrightarrow> delegGen (pd_path p) = Some gen \<Longrightarrow> gen = 0"
    using reqs by auto
  show "pd_kind p = actGrantOnce \<Longrightarrow> pd_grantHook p \<in> {HOOK_PTRACE, HOOK_SETUID, HOOK_CAPSET}"
    using reqs by auto
  show "pd_kind p = actDelegate \<Longrightarrow>
       \<exists>gen sfx. delegGen (pd_path p) = Some gen \<and> Suc gen \<le> be_maxDelegateDepth env \<and> validSuffix sfx
         \<and> pd_instance p = mint_instance (Suc gen) (be_rand env) sfx \<and> validTask (pd_task p)"
    using reqs by auto
qed

section \<open>Effects on the policy\<close>

lemma policy_set_manifest:
  "hash_update (egress_policy s) cg m f = Inr h \<Longrightarrow>
   policy_of (s\<lparr>egress_policy := h\<rparr>) = (policy_of s)\<lparr>p_manifest := (p_manifest (policy_of s))(cg \<mapsto> m)\<rparr>"
  by (simp add: policy_of_def unused_grant_def is_tcb_def is_armed_def fun_eq_iff hash_lookup_update)

lemma policy_set_grant:
  "hash_update (grant_once s) (the_grant_key cg hook) \<lparr>gv_count = 1, gv_expire_ns = t\<rparr> f = Inr h \<Longrightarrow>
   policy_of (s\<lparr>grant_once := h\<rparr>) = (policy_of s)\<lparr>p_grants := (p_grants (policy_of s))((cg, hook) \<mapsto> t)\<rparr>"
  by (auto simp: policy_of_def unused_grant_def is_tcb_def is_armed_def fun_eq_iff hash_lookup_update)

lemma exec_expand_effect:
  assumes "exec_expand env p s = (Inr detail, s', l)"
  obtains live where "reverifyCgroup (be_stat env) (pd_path p) (pd_cgid p)"
    "hash_lookup (egress_policy s) (pd_cgid p) = Some live" "l = None"
    "policy_of s' = (policy_of s)\<lparr>p_manifest := (p_manifest (policy_of s))
        (pd_cgid p \<mapsto> expandMask live (pd_reqMask p) (be_expandCeiling env))\<rparr>"
  using assms unfolding exec_expand_def Let_def
  by (auto simp: policy_set_manifest split: if_splits option.splits sum.splits)

lemma exec_grant_effect:
  assumes "exec_grant env p s = (Inr detail, s', l)"
  shows "reverifyCgroup (be_stat env) (pd_path p) (pd_cgid p) \<and> l = None
    \<and> policy_of s' = (policy_of s)\<lparr>p_grants := (p_grants (policy_of s))
        ((pd_cgid p, pd_grantHook p) \<mapsto> grantExpiry env)\<rparr>"
  using assms unfolding exec_grant_def
  by (auto simp: policy_set_grant split: if_splits sum.splits)

lemma exec_delegate_effect:
  assumes "exec_delegate env p s = (r, s', Some l)"
  obtains live where "s' = s" "reverifyCgroup (be_stat env) (pd_path p) (pd_cgid p)"
    "hash_lookup (egress_policy s) (pd_cgid p) = Some live" "la_classes l = classNames (live AND pd_reqMask p)"
    "la_instance l = pd_instance p"
  using assms unfolding exec_delegate_def launchChild_def lookupEgressMask_def Let_def
  by (auto split: if_splits option.splits)

lemma execute_error_keeps: "execute env p s = (Inl e, s', l) \<Longrightarrow> s' = s"
  unfolding execute_def exec_delegate_def exec_expand_def exec_grant_def launchChild_def Let_def
  by (auto split: actionKind.splits if_splits option.splits sum.splits)

definition replied_ok :: "string \<Rightarrow> bool" where
  "replied_ok r \<longleftrightarrow> hasPrefix r ''OK''"

lemma set_self_effect:
  assumes "replied_ok (cr_reply (ctlEgressSetSelf env cg path [verb, classNames m] s))"
  shows "policy_of (cr_state (ctlEgressSetSelf env cg path [verb, classNames m] s)) =
    (policy_of s)\<lparr>p_manifest := (p_manifest (policy_of s))(cg \<mapsto> m AND all_classes)\<rparr>"
proof -
  have "parseClasses (classNames m) = Inr (m AND all_classes)" by (rule parse_names)
  then show ?thesis
    using assms unfolding ctlEgressSetSelf_def ctl_reply_def replied_ok_def
    by (auto simp: policy_set_manifest hasPrefix_def split: if_splits sum.splits)
qed

section \<open>Gains\<close>

text \<open>A request that a hook restricts for every cgroup outside the trusted set.\<close>

fun gains :: "request \<Rightarrow> bool" where
  "gains (GainRoot b) = b"
| "gains (GainCaps b) = b"
| "gains (Connect _) = False"
| "gains _ = True"

lemma restricted_gain: "gains r \<Longrightarrow> restricted P cg r = (\<not> p_tcb P cg)"
  by (cases r) auto

lemma grantable_hook: "h \<in> {HOOK_PTRACE, HOOK_SETUID, HOOK_CAPSET} \<Longrightarrow> request_hook r = h \<Longrightarrow> grantable r"
  by (cases r) (auto simp: HOOK_defs)

section \<open>Properties\<close>

text \<open>
  A concrete environment for the examples: one agent, \<open>worker\<close>, in cgroup 7, a clock at
  1000, and the default settings.
\<close>

definition worker_path :: string where
  "worker_path = ''/bulkhead-agent.slice/bulkhead-agent@worker.service''"

definition sample_env :: broker_env where
  "sample_env =
     \<lparr>be_stat = (\<lambda>p. if p = cgroup_root @ worker_path then Some 7 else None), be_glob = (\<lambda>_. []),
      be_pinned = (\<lambda>_. True), be_starts = (\<lambda>_. True), be_now = 1000, be_rand = ''0badcafe'',
      be_expandCeiling = all_classes, be_maxDelegateDepth = 3, be_grantTTL = 300, be_childRouterURL = '''',
      be_errtext = (\<lambda>_. ''error''), be_sha256 = (\<lambda>b. b)\<rparr>"

lemma sample_env_simps [simp]:
  "be_pinned sample_env n" "be_starts sample_env n" "be_now sample_env = 1000" "be_rand sample_env = ''0badcafe''"
  "be_expandCeiling sample_env = all_classes" "be_maxDelegateDepth sample_env = 3" "be_grantTTL sample_env = 300"
  by (simp_all add: sample_env_def)

lemma worker_agent: "isAgentCgroup worker_path" "delegGen worker_path = Some 0"
  by code_simp+

lemma worker_reverified: "reverifyCgroup (be_stat sample_env) worker_path 7"
  by (simp add: reverifyCgroup_def sample_env_def Join2_def Clean_def cgroup_root_def worker_path_def)

lemma sample_lookup: "lookupEgressMask sample_env 7 armed_state = Some 9"
  by (simp add: lookupEgressMask_def sample_env_def armed_state_def hash_lookup_def DST_defs)


lemma sample_delegate:
  "handleBrokerConn sample_env (Some (7, worker_path)) (Some ''DELEGATE helper public'') armed_state =
     Inr (pending0\<lparr>pd_cgid := 7, pd_path := worker_path, pd_suffix := ''helper'',
       pd_instance := ''d1-0badcafe-helper'', pd_reqMask := 8, pd_childMask := 8, pd_gen := 1\<rparr>)"
proof -
  have f: "Fields (trimSpace ''DELEGATE helper public'') = [''DELEGATE'', ''helper'', ''public'']" by code_simp
  have "parseClasses ''public'' = Inr 8" "validSuffix ''helper''" "itoa (Suc 0) = ''1''" by code_simp+
  moreover have "mint_instance (Suc 0) ''0badcafe'' ''helper'' = ''d1-0badcafe-helper''"
    by (simp add: mint_instance_def \<open>itoa (Suc 0) = ''1''\<close>)
  ultimately show ?thesis
    unfolding handleBrokerConn_def handleDelegateTail_def
    by (simp add: f worker_agent parseDelegateTail_def validTask_def sample_lookup pending0_def)
qed


text \<open>
  C29: a grant buys exactly one operation. After an approved request for a grant has been
  executed, the next restricted operation of that cgroup on that hook within the grant's
  lifetime is allowed, and the one after it is denied.
\<close>

theorem grant_allows_exactly_one:
  assumes "handleBrokerConn env0 peer line s0 = Inr p" "pd_kind p = actGrantOnce"
    and "execute env p s = (Inr detail, s1, l)" "is_armed s1 (pd_grantHook p)" "\<not> is_tcb s1 (pd_cgid p)"
    and "hook_id i1 = pd_grantHook p" "current_cgroup_id k1 = pd_cgid p"
      "grantExpiry env = 0 \<or> ktime_ns k1 \<le> grantExpiry env" "gains (request_of k1 i1)"
    and "hook_id i2 = pd_grantHook p" "current_cgroup_id k2 = pd_cgid p" "gains (request_of k2 i2)"
  shows "fst (run_hook k1 i1 0 s1) = 0 \<and> fst (run_hook k2 i2 0 (snd (run_hook k1 i1 0 s1))) = - EPERM"
proof -
  have "exec_grant env p s = (Inr detail, s1, l)" using assms(2,3) by (simp add: execute_def)
  from exec_grant_effect [OF this]
  have grants: "p_grants (policy_of s1) (pd_cgid p, pd_grantHook p) = Some (grantExpiry env)" by simp
  have hook: "pd_grantHook p \<in> {HOOK_PTRACE, HOOK_SETUID, HOOK_CAPSET}"
    by (rule broker_request_kind(2) [OF assms(1,2)])
  have 1: "request_hook (request_of k1 i1) = pd_grantHook p" "request_hook (request_of k2 i2) = pd_grantHook p"
    using assms(6,10) by (simp_all add: request_hook_of)
  have restr: "restricted P (pd_cgid p) (request_of k1 i1)" "restricted P (pd_cgid p) (request_of k2 i2)"
    if "\<not> p_tcb P (pd_cgid p)" for P
    using that assms(9,12) hook 1 by (auto simp: restricted_gain)
  have g: "grantable (request_of k1 i1)" using hook 1(1) by (rule grantable_hook)
  let ?P = "policy_of s1"
  have auth1: "authorize ?P (ktime_ns k1) (pd_cgid p) (request_of k1 i1) =
      (True, ?P\<lparr>p_grants := (p_grants ?P)((pd_cgid p, pd_grantHook p) := None)\<rparr>)"
    using assms(4,5,8) g restr(1) [of ?P] grants by (simp add: authorize_def has_grant_def 1)
  have P2: "policy_of (snd (run_hook k1 i1 0 s1)) = ?P\<lparr>p_grants := (p_grants ?P)((pd_cgid p, pd_grantHook p) := None)\<rparr>"
    using run_hook_policy [of k1 i1 s1] auth1 assms(7) by simp
  have "fst (run_hook k1 i1 0 s1) = 0"
    using run_hook_authorize [of k1 i1 s1] auth1 assms(7) by (simp add: verdict_code_def)
  moreover have "fst (run_hook k2 i2 0 (snd (run_hook k1 i1 0 s1))) = - EPERM"
    unfolding run_hook_authorize P2 assms(11)
    using assms(4,5) restr(2) [of "?P\<lparr>p_grants := (p_grants ?P)((pd_cgid p, pd_grantHook p) := None)\<rparr>"]
    by (simp add: authorize_def has_grant_def 1 verdict_code_def)
  ultimately show ?thesis ..
qed

lemma sample_grant:
  "handleBrokerConn sample_env (Some (7, worker_path)) (Some ''GRANT-ONCE ptrace'') armed_state =
     Inr (pending0\<lparr>pd_kind := actGrantOnce, pd_cgid := 7, pd_path := worker_path, pd_grantHook := HOOK_PTRACE\<rparr>)"
proof -
  have f: "Fields (trimSpace ''GRANT-ONCE ptrace'') = [''GRANT-ONCE'', ''ptrace'']" by code_simp
  have "hookID ''ptrace'' = Some HOOK_PTRACE" by (simp add: hookID_def hookNames_def HOOK_defs)
  moreover have "hookArmed sample_env HOOK_PTRACE armed_state = Some True"
    by (simp add: hookArmed_def armed_state_def array_lookup_def HOOK_defs)
  ultimately show ?thesis
    unfolding handleBrokerConn_def handleGrantOnceTail_def grantableHook_def
    by (simp add: f worker_agent pending0_def)
qed

theorem grant_allows_exactly_one_witness:
  "\<exists>s1. fst (run_hook (region_env Little 0 []) (PtraceAccessCheck 0 0) 0 s1) = 0
    \<and> fst (run_hook (region_env Little 0 []) (PtraceAccessCheck 0 0) 0
        (snd (run_hook (region_env Little 0 []) (PtraceAccessCheck 0 0) 0 s1))) = - EPERM"
proof -
  let ?p = "pending0\<lparr>pd_kind := actGrantOnce, pd_cgid := 7, pd_path := worker_path, pd_grantHook := HOOK_PTRACE\<rparr>"
  have "hash_inv (grant_once armed_state)" "hash_lookup (grant_once armed_state) (the_grant_key 7 HOOK_PTRACE) \<noteq> None"
    by (simp_all add: armed_state_def hash_lookup_def hash_inv_def hash_empty_def HOOK_defs)
  then obtain m where "hash_update (grant_once armed_state) (the_grant_key 7 HOOK_PTRACE)
      \<lparr>gv_count = 1, gv_expire_ns = grantExpiry sample_env\<rparr> BPF_ANY = Inr m"
    by (metis hm.update_present)
  then obtain detail s1 where ex: "execute sample_env ?p armed_state = (Inr detail, s1, None)"
    and s1: "enforce_flags s1 = enforce_flags armed_state" "tcb_cgroups s1 = tcb_cgroups armed_state"
    by (simp add: execute_def exec_grant_def worker_reverified)
  have "is_armed armed_state HOOK_PTRACE" "\<not> is_tcb armed_state 7"
    by (simp_all add: armed_state_simps)
  then have "is_armed s1 HOOK_PTRACE" "\<not> is_tcb s1 7"
    by (simp_all add: is_armed_def is_tcb_def s1)
  then have "fst (run_hook (region_env Little 0 []) (PtraceAccessCheck 0 0) 0 s1) = 0
    \<and> fst (run_hook (region_env Little 0 []) (PtraceAccessCheck 0 0) 0
        (snd (run_hook (region_env Little 0 []) (PtraceAccessCheck 0 0) 0 s1))) = - EPERM"
    by (intro grant_allows_exactly_one [OF sample_grant _ ex]) simp_all
  then show ?thesis ..
qed

text \<open>
  C30: narrowing takes effect at the hook. When the operator's \<open>NARROW\<close> of an agent is
  answered \<open>OK\<close>, every later connection of that agent to a destination in the revoked
  classes is denied while the connect hook is armed, and the agent's other classes, and
  every other cgroup, are as before.
\<close>

theorem narrow_denies:
  assumes "oc = handleNarrow env env' appended operator f s" "replied_ok (oc_reply oc)"
    and "parseClasses (f ! 2) = Inr req" "resolveAgentTarget (be_stat env) (be_glob env) (f ! 1) = Inr (cg, path)"
    and "is_armed s HOOK_CONNECT" "\<not> is_tcb s cg" "current_cgroup_id k = cg"
    and "submask (classify_dest k address addrlen) req"
  shows "fst (run_hook k (SocketConnect sock address addrlen) 0 (oc_state oc)) = - EPERM
    \<and> (\<exists>live. p_manifest (policy_of s) cg = Some live
        \<and> policy_of (oc_state oc) = (policy_of s)\<lparr>p_manifest := (p_manifest (policy_of s))(cg \<mapsto> narrowMask live req)\<rparr>)"
proof -
  obtain live where live: "hash_lookup (egress_policy s) cg = Some live"
    and oc: "oc_state oc = s \<and> narrowMask live req = live \<or>
      (\<exists>m. hash_update (egress_policy s) cg (narrowMask live req) BPF_EXIST = Inr m \<and> oc_state oc = s\<lparr>egress_policy := m\<rparr>)"
    using narrow_locked_replied handleNarrow_replied [OF _ assms(3,4)] assms(1,2)
    unfolding replied_ok_def by metis
  have "policy_of (oc_state oc) = (policy_of s)\<lparr>p_manifest := (p_manifest (policy_of s))(cg \<mapsto> narrowMask live req)\<rparr>"
    using oc
  proof
    assume "oc_state oc = s \<and> narrowMask live req = live"
    then show ?thesis using live by (simp add: policy_of_def fun_upd_idem)
  qed (auto simp: policy_set_manifest)
  moreover have "narrowMask live req AND classify_dest k address addrlen = 0"
    using assms(8) by (auto simp: narrowMask_def submask_bits bit_eq_iff bit_simps)
  ultimately show ?thesis
    using live assms(5-7) unfolding run_hook_authorize
    by (simp add: authorize_def verdict_code_def)
qed

lemma sample_target: "resolveAgentTarget (be_stat sample_env) (be_glob sample_env) worker_path = Inr (7, worker_path)"
proof -
  have "target_path (be_glob sample_env) worker_path = Inr worker_path"
    "Clean (Join2 cgroup_root worker_path) = cgroup_root @ worker_path"
    by (simp_all add: target_path_def hasPrefix_def Join2_def Clean_def cgroup_root_def worker_path_def)
  then show ?thesis by (simp add: resolveAgentTarget_def worker_agent) (simp add: sample_env_def)
qed

theorem narrow_denies_witness:
  "fst (run_hook (region_env Little 0 []) (SocketConnect 0 0 0) 0
      (oc_state (handleNarrow sample_env sample_env (\<lambda>_. True) ''uid0:pid1'' [''NARROW'', worker_path, ''any''] armed_state)))
    = - EPERM"
proof -
  let ?oc = "handleNarrow sample_env sample_env (\<lambda>_. True) ''uid0:pid1'' [''NARROW'', worker_path, ''any''] armed_state"
  have any: "parseClasses ''any'' = Inr 31" by code_simp
  have look: "hash_lookup (egress_policy armed_state) 7 = Some 9" "hash_inv (egress_policy armed_state)"
    by (simp_all add: armed_state_def hash_lookup_def hash_inv_def hash_empty_def DST_defs)
  obtain m where "hash_update (egress_policy armed_state) 7 0 BPF_EXIST = Inr m"
    using look by (simp add: hash_update_def update_flag_defs)
  then have "replied_ok (oc_reply ?oc)"
    by (simp add: handleNarrow_def any sample_target narrow_locked_def worker_reverified look
        narrowMask_def recorded_def replied_ok_def hasPrefix_simps)
  from narrow_denies [OF refl this, of 31 7 worker_path "region_env Little 0 []" 0 0 0] show ?thesis
    by (simp add: any sample_target armed_state_simps) (simp add: classify_dest_def submask_def DST_defs)
qed

end
