(* ===== verification/Lineage.thy ===== *)
theory Lineage
  imports Authority
begin

text \<open>
  Everything that changes the maps at run time, as one step relation: hook invocations,
  approved broker requests, the operator's narrowing, control-socket connections and
  garbage collection, in any order and with any environment. \<open>path_of\<close> is the path the
  kernel reports for a cgroup id; \<open>running\<close> holds the cgroups that have started and not yet
  stopped, whose own start and stop commands therefore do not run.
\<close>

section \<open>Steps\<close>

inductive admin_step :: "(u64 \<Rightarrow> string) \<Rightarrow> (broker_env \<Rightarrow> bool) \<Rightarrow> u64 set \<Rightarrow> bpf_state \<Rightarrow> bpf_state \<Rightarrow> bool"
  for path_of :: "u64 \<Rightarrow> string" and env_ok :: "broker_env \<Rightarrow> bool" and running :: "u64 set"
where
  hook: "admin_step path_of env_ok running s (snd (run_hook k i ret s))"
| broker: "handleBrokerConn env0 (Some (cg, path_of cg)) line s0 = Inr p \<Longrightarrow>
    execute env p s = (r, s', l) \<Longrightarrow> env_ok env0 \<Longrightarrow> env_ok env \<Longrightarrow> admin_step path_of env_ok running s s'"
| narrow: "env_ok env \<Longrightarrow> env_ok env' \<Longrightarrow>
    admin_step path_of env_ok running s (oc_state (handleNarrow env env' appended operator f s))"
| control: "cg \<notin> running \<Longrightarrow> env_ok env \<Longrightarrow>
    admin_step path_of env_ok running s (cr_state (handleControlConn env attest uid (Some (cg, path_of cg)) line s))"
| collect: "gc_tick env self gs s = (gs', s') \<Longrightarrow> env_ok env \<Longrightarrow>
    running \<subseteq> liveAgentCgids (be_stat env) (be_glob env) \<Longrightarrow> admin_step path_of env_ok running s s'"

abbreviation admin_steps :: "(u64 \<Rightarrow> string) \<Rightarrow> (broker_env \<Rightarrow> bool) \<Rightarrow> u64 set \<Rightarrow> bpf_state \<Rightarrow> bpf_state \<Rightarrow> bool" where
  "admin_steps path_of env_ok running \<equiv> (admin_step path_of env_ok running)\<^sup>*\<^sup>*"

section \<open>Manifests along a step\<close>

lemma run_hook_egress [simp]: "egress_policy (snd (run_hook k i ret s)) = egress_policy s"
  by (cases k i ret s rule: run_hook_state) simp_all

lemma run_hook_tcb [simp]: "tcb_cgroups (snd (run_hook k i ret s)) = tcb_cgroups s"
  by (cases k i ret s rule: run_hook_state) simp_all

lemma execute_state:
  assumes "execute env p s = (r, s', l)"
  shows "s' = s
    \<or> (\<exists>live m. pd_kind p = actExpandEgress \<and> hash_lookup (egress_policy s) (pd_cgid p) = Some live
        \<and> hash_update (egress_policy s) (pd_cgid p) (expandMask live (pd_reqMask p) (be_expandCeiling env)) BPF_EXIST = Inr m
        \<and> s' = s\<lparr>egress_policy := m\<rparr>)
    \<or> (\<exists>m. pd_kind p = actGrantOnce \<and> s' = s\<lparr>grant_once := m\<rparr>)"
  using assms unfolding execute_def exec_delegate_def exec_expand_def exec_grant_def launchChild_def Let_def
  by (auto split: actionKind.splits if_splits option.splits sum.splits)

lemma broker_step_manifest:
  assumes "handleBrokerConn env0 (Some (cg, path_of cg)) line s0 = Inr p" "execute env p s = (r, s', l)"
    and "delegGen (path_of c) = Some (Suc g)"
  shows "hash_lookup (egress_policy s') c = hash_lookup (egress_policy s) c"
proof -
  have cg: "pd_cgid p = cg" "pd_path p = path_of cg" using broker_request_identity(1) [OF assms(1)] by auto
  have "c \<noteq> pd_cgid p" if "pd_kind p = actExpandEgress"
    using broker_request_kind(1) [OF assms(1) that] assms(3) cg by auto
  then show ?thesis
    using execute_state [OF assms(2)] by (auto simp: hash_lookup_update)
qed

lemma narrow_step_manifest:
  assumes "hash_lookup (egress_policy s) c = Some m"
  shows "\<exists>m'. hash_lookup (egress_policy (oc_state (handleNarrow env env' appended operator f s))) c = Some m'
    \<and> submask m' m"
proof (cases "oc_state (handleNarrow env env' appended operator f s) = s")
  case True
  then show ?thesis using assms by auto
next
  case False
  then obtain reqMask cg path where
    "oc_state (handleNarrow env env' appended operator f s) =
       oc_state (narrow_locked env' appended operator (f ! 1) reqMask cg path s)"
    by (rule handleNarrow_state)
  then show ?thesis
    using narrow_locked_state [of env' appended operator "f ! 1" reqMask cg path s] assms
    by (auto simp: hash_lookup_update)
qed

lemma control_step_manifest:
  assumes "cg \<noteq> c"
  shows "hash_lookup (egress_policy (cr_state (handleControlConn env attest uid (Some (cg, path)) line s))) c =
    hash_lookup (egress_policy s) c"
proof (cases "cr_state (handleControlConn env attest uid (Some (cg, path)) line s) = s")
  case False
  with refl show ?thesis
  proof (cases rule: handleControlConn_state)
    case (set_self cg' path' f)
    then show ?thesis
      using assms ctlEgressSetSelf_state [of env cg' path' f s] by (auto simp: hash_lookup_update)
  next
    case (clear_self cg' path')
    then show ?thesis
      using assms ctlEgressClearSelf_state [of env cg' path' s] by (auto simp: hash_lookup_delete)
  qed (simp_all add: frame_simps)
qed simp

lemma step_manifest:
  assumes "admin_step path_of env_ok running s s'" "c \<in> running" "delegGen (path_of c) = Some (Suc g)"
    and "hash_lookup (egress_policy s) c = Some m"
  shows "\<exists>m'. hash_lookup (egress_policy s') c = Some m' \<and> submask m' m"
  using assms(1)
proof (cases rule: admin_step.cases)
  case (hook k i ret)
  then show ?thesis using assms(4) by auto
next
  case (broker env0 cg line s0 p env r l)
  then show ?thesis using broker_step_manifest [OF broker(1,2) assms(3)] assms(4) by auto
next
  case (narrow env env' appended operator f)
  then show ?thesis using narrow_step_manifest [OF assms(4)] by simp
next
  case (control cg env attest uid line)
  then have "cg \<noteq> c" using assms(2) by auto
  then show ?thesis using control control_step_manifest assms(4) by auto
next
  case (collect env self gs gs')
  then show ?thesis using gc_tick_keeps_live [OF collect(1)] assms(2,4) by auto
qed

section \<open>The trusted set along a step\<close>

text \<open>
  \<open>trusted T env\<close>: the ids the collector resolves for itself, the root cgroup and the
  broker lie in \<open>T\<close>.
\<close>

definition broker_in :: "u64 set \<Rightarrow> broker_env \<Rightarrow> bool" where
  "broker_in T env \<longleftrightarrow> (case be_stat env brokerCgroupPath of None \<Rightarrow> True | Some b \<Rightarrow> b \<in> T)"

definition tcb_within :: "u64 set \<Rightarrow> bpf_state \<Rightarrow> bool" where
  "tcb_within T s \<longleftrightarrow> (\<forall>k. hash_lookup (tcb_cgroups s) k \<noteq> None \<longrightarrow> k \<in> T)"

lemma reconcile_adds_broker_only:
  "hash_lookup (reconcileTCB stat self tcb) k \<noteq> None \<Longrightarrow>
   hash_lookup tcb k \<noteq> None \<or> stat brokerCgroupPath = Some k"
  using lookup_ensure_present [of "the (stat brokerCgroupPath)" tcb k]
  by (auto simp: reconcileTCB_def Let_def split: if_splits option.splits)

lemma step_tcb_within:
  assumes "admin_step path_of (broker_in T) running s s'" "tcb_within T s"
  shows "tcb_within T s'"
  using assms(1)
proof (cases rule: admin_step.cases)
  case (hook k i ret)
  then show ?thesis using assms(2) by (simp add: tcb_within_def)
next
  case (broker env0 cg line s0 p env r l)
  then have "tcb_cgroups s' = tcb_cgroups s" using execute_state [OF broker(2)] by auto
  then show ?thesis using assms(2) by (simp add: tcb_within_def)
next
  case (narrow env env' appended operator f)
  have "tcb_cgroups s' = tcb_cgroups s"
  proof (cases "s' = s")
    case False
    then obtain reqMask cg path where
      "s' = oc_state (narrow_locked env' appended operator (f ! 1) reqMask cg path s)"
      unfolding narrow(1) by (rule handleNarrow_state)
    then show ?thesis using narrow_locked_state [of env' appended operator "f ! 1" reqMask cg path s] by auto
  qed simp
  then show ?thesis using assms(2) by (simp add: tcb_within_def)
next
  case (control cg env attest uid line)
  show ?thesis
  proof (cases "s' = s")
    case False
    with control(1) [symmetric] show ?thesis
    proof (cases rule: handleControlConn_state)
      case (register_broker cg' path')
      then consider "s' = s" | bid m where "be_stat env brokerCgroupPath = Some bid"
          "hash_update (tcb_cgroups s) bid 1 BPF_ANY = Inr m" "s' = s\<lparr>tcb_cgroups := m\<rparr>"
        using ctlTcbRegisterBroker_state [of env path' s] by auto
      then show ?thesis
        using assms(2) control(3) by cases (auto simp: tcb_within_def broker_in_def hash_lookup_update)
    qed (use assms(2) in \<open>simp_all add: tcb_within_def frame_simps\<close>)
  qed (use assms(2) in simp)
next
  case (collect env self gs gs')
  have "tcb_cgroups s' \<in> {tcb_cgroups s, reconcileTCB (be_stat env) self (tcb_cgroups s)}"
  proof (cases "be_pinned env ''grant_once'' \<and> be_pinned env ''egress_policy''")
    case True
    then have pinned: "be_pinned env ''grant_once''" "be_pinned env ''egress_policy''" by simp_all
    show ?thesis by (rule gc_tick_maps [OF pinned collect(1) refl]) simp
  next
    case False
    then show ?thesis using collect(1) gc_tick_unpinned [of env self gs s] by simp
  qed
  then have "hash_lookup (tcb_cgroups s) k \<noteq> None \<or> be_stat env brokerCgroupPath = Some k"
    if "hash_lookup (tcb_cgroups s') k \<noteq> None" for k
    using that reconcile_adds_broker_only [of "be_stat env" self "tcb_cgroups s" k] by auto
  then show ?thesis
    using assms(2) collect(2) unfolding tcb_within_def broker_in_def by (metis option.simps(5))
qed

section \<open>Properties\<close>


definition child_path :: string where
  "child_path = agent_prefix @ mint_instance 1 ''0badcafe'' ''helper'' @ ''.service''"

text \<open>Two running agents: \<open>worker\<close> in cgroup 7 and a child it delegated to, in cgroup 8.\<close>

definition family_state :: bpf_state where
  "family_state = init_state\<lparr>egress_policy := \<lparr>hm_max = 1024, hm_entries = [(7, 9), (8, 8)]\<rparr>\<rparr>"

definition family_path :: "u64 \<Rightarrow> string" where
  "family_path cg = (if cg = 8 then child_path else worker_path)"

lemma child_generation: "delegGen child_path = Some (Suc 0)"
proof -
  have "child_path = ''/bulkhead-agent.slice/'' @ marker @ mint_instance 1 ''0badcafe'' ''helper'' @ ''.service''"
    by (simp add: child_path_def agent_prefix_def marker_def)
  moreover have "delegGen (''/bulkhead-agent.slice/'' @ marker @ mint_instance 1 ''0badcafe'' ''helper'' @ ''.service'') = Some 1"
    by (rule delegGen_minted) (simp_all add: name_char_def validSuffix_def)
  ultimately show ?thesis by (simp only: One_nat_def)
qed

definition narrowed_family :: bpf_state where
  "narrowed_family =
     oc_state (handleNarrow sample_env sample_env (\<lambda>_. True) ''uid0:pid1'' [''NARROW'', worker_path, ''public''] family_state)"

lemma family_lookup:
  "hash_lookup (egress_policy family_state) 7 = Some 9" "hash_lookup (egress_policy family_state) 8 = Some 8"
  by (simp_all add: family_state_def hash_lookup_def)

lemma narrowed_family_lookup:
  "hash_lookup (egress_policy narrowed_family) 7 = Some 1" "hash_lookup (egress_policy narrowed_family) 8 = Some 8"
proof -
  have public: "parseClasses ''public'' = Inr 8" by code_simp
  obtain m where m: "hash_update (egress_policy family_state) 7 1 BPF_EXIST = Inr m"
    by (simp add: hash_update_def update_flag_defs family_lookup)
  then have "egress_policy narrowed_family = m"
    by (simp add: narrowed_family_def handleNarrow_def public sample_target narrow_locked_def worker_reverified
        family_lookup narrowMask_def recorded_def)
  with hash_lookup_update [OF m] have "hash_lookup (egress_policy narrowed_family) cg = (if cg = 7 then Some 1 else hash_lookup (egress_policy family_state) cg)" for cg
    by (simp only:)
  then show "hash_lookup (egress_policy narrowed_family) 7 = Some 1"
    "hash_lookup (egress_policy narrowed_family) 8 = Some 8"
    by (simp_all add: family_lookup)
qed


text \<open>
  Narrowing a parent does not reach its children. A child that was delegated a class
  keeps it when the operator takes the class from the parent, so \<open>child \<subseteq> parent\<close> holds
  at the launch and need not hold later: here a child within its parent's manifest is
  outside it after a successful \<open>NARROW\<close> of the parent.
\<close>

theorem narrow_spares_children:
  "\<exists>parent child parent'. hash_lookup (egress_policy family_state) 7 = Some parent
    \<and> hash_lookup (egress_policy family_state) 8 = Some child \<and> submask child parent
    \<and> delegGen (family_path 8) = Some 1
    \<and> hash_lookup (egress_policy narrowed_family) 7 = Some parent'
    \<and> hash_lookup (egress_policy narrowed_family) 8 = Some child \<and> \<not> submask child parent'"
  by (simp add: family_lookup narrowed_family_lookup family_path_def child_generation submask_def)

text \<open>
  C13: nothing at run time widens the trusted set. If at the start only cgroups in \<open>T\<close> are
  trusted, and the broker's fixed path never resolves to a cgroup outside \<open>T\<close>, then after any
  sequence of steps only cgroups in \<open>T\<close> are trusted: no agent request, grant, manifest
  write or garbage collection exempts a cgroup from the hooks.
\<close>

theorem trusted_set_never_grows:
  assumes "admin_steps path_of (broker_in T) running s s'" "tcb_within T s" "cg \<notin> T"
  shows "\<not> is_tcb s' cg"
proof -
  from assms(1) have "tcb_within T s'"
  proof (induction rule: rtranclp_induct)
    case (step y z)
    then show ?case by (blast intro: step_tcb_within)
  qed (rule assms(2))
  with assms(3) show ?thesis
    unfolding tcb_within_def is_tcb_def is_one_def by (auto split: option.splits)
qed

theorem trusted_set_never_grows_witness: "\<not> is_tcb narrowed_family 8"
proof (rule trusted_set_never_grows)
  show "admin_steps family_path (broker_in {}) {8} family_state narrowed_family"
    unfolding narrowed_family_def
    by (intro r_into_rtranclp admin_step.narrow)
      (simp_all add: broker_in_def sample_env_def brokerCgroupPath_def cgroup_root_def worker_path_def)
  show "tcb_within {} family_state" by (simp add: tcb_within_def family_state_def init_state_def)
qed simp

text \<open>
  C11: an agent's request has no effect without the operator. Whatever the gate has been
  through, if finishing request \<open>i\<close> changed a map, launched a child or was answered \<open>OK\<close>,
  the operator had allowed exactly that request; and an \<open>OK\<close> means that the decision is in
  the signed chain, as an approval by that operator for the requesting cgroup.
\<close>

theorem effects_need_operator:
  assumes "gate_trace ops g" "map_of (g_sent g) i = Some gated" "oc = finishGated env appended p gated s"
    and "oc_state oc \<noteq> s \<or> oc_launch oc \<noteq> None \<or> replied_ok (oc_reply oc)"
  shows "\<exists>oper. Decide i True oper \<in> set ops \<and> gated = (True, ''approve'', oper)
    \<and> (\<not> replied_ok (oc_reply oc) \<or>
       (\<exists>applied. oc_records oc = [recordDecision env p ''approve'' oper applied]
          \<and> appended (recordDecision env p ''approve'' oper applied)))"
proof -
  obtain ok v oper where gated: "gated = (ok, v, oper)" by (cases gated)
  have ok: "ok"
  proof (rule ccontr)
    assume "\<not> ok"
    then show False using assms(3,4) by (simp add: finishGated_def gated replied_ok_def hasPrefix_simps Let_def)
  qed
  have sent: "(i, True, v, oper) \<in> set (g_sent g)" using map_of_SomeD [OF assms(2)] ok by (simp add: gated)
  from sent_by [OF assms(1) sent] have "Decide i True oper \<in> set ops" and v: "v = ''approve''" by simp_all
  moreover have "\<exists>applied. oc_records oc = [recordDecision env p v oper applied]
      \<and> appended (recordDecision env p v oper applied)" if "replied_ok (oc_reply oc)"
    using that assms(3)
    by (auto simp: finishGated_def gated ok replied_ok_def hasPrefix_simps Let_def
        split: prod.splits sum.splits if_splits)
  ultimately show ?thesis using ok by (auto simp: gated v)
qed

theorem effects_need_operator_witness:
  "\<exists>oper. Decide 1 True oper \<in> set [Register pending0, Decide 1 True ''uid0:pid1'']
    \<and> (True, ''approve'', ''uid0:pid1'') = (True, ''approve'', oper)"
proof -
  let ?p = "pending0\<lparr>pd_kind := actExpandEgress, pd_cgid := 7, pd_path := worker_path, pd_reqMask := 2\<rparr>"
  let ?g = "gate_exec (Decide 1 True ''uid0:pid1'') (gate_exec (Register pending0) gate0)"
  let ?oc = "finishGated sample_env (\<lambda>_. True) ?p (True, ''approve'', ''uid0:pid1'') family_state"
  have g: "gate_trace [Register pending0, Decide 1 True ''uid0:pid1''] ?g"
    using gate_trace.step [OF gate_trace.step [OF gate_trace.start, of "Register pending0"],
        of "Decide 1 True ''uid0:pid1''"] by simp
  have s: "map_of (g_sent ?g) 1 = Some (True, ''approve'', ''uid0:pid1'')"
    by (simp add: register_def resolve_def gate0_def maxPending_def maxPendingPar_def)
  have "replied_ok (oc_reply ?oc)"
    by (simp add: finishGated_def execute_def exec_expand_def worker_reverified family_lookup hash_update_def
        update_flag_defs replied_ok_def hasPrefix_simps Let_def)
  from effects_need_operator [OF g s refl, of sample_env "\<lambda>_. True" ?p family_state] this show ?thesis by blast
qed

text \<open>
  C31: a connection from an agent's cgroup is confined to that agent. Whatever verb it sends
  to the control socket, and even as root, the trusted set and the enforcement flags are
  unchanged, and so are the manifests and grants of every other cgroup.
\<close>

theorem agent_connection_confined:
  assumes "isAgentCgroup path" "s' = cr_state (handleControlConn env attest uid (Some (cg, path)) line s)"
  shows "tcb_cgroups s' = tcb_cgroups s \<and> enforce_flags s' = enforce_flags s
    \<and> (c = cg \<or> hash_lookup (egress_policy s') c = hash_lookup (egress_policy s) c)
    \<and> (gk_cgid k = cg \<or> hash_lookup (grant_once s') k = hash_lookup (grant_once s) k)"
proof (cases "s' = s")
  case False
  have [simp]: "gk_cgid (the_grant_key cg' h) = cg'" for cg' h by (simp add: the_grant_key_def)
  have nb: "\<not> isBrokerCaller path" by (rule agent_not_broker [OF assms(1)])
  have man: "c = cg \<or> hash_lookup (egress_policy s') c = hash_lookup (egress_policy s) c"
    using control_step_manifest [of cg c env attest uid path line s] assms(2) by auto
  from assms(2) [symmetric] False show ?thesis
  proof (cases rule: handleControlConn_state)
    case (clear_grants cg' path')
    then show ?thesis
      using man ctlGrantClearSelf_state [of env cg' path' s]
      by (auto simp: frame_simps lookup_clear_grants split: if_splits)
  next
    case (register_broker cg' path')
    then show ?thesis using ctlTcbRegisterBroker_state [of env path' s] nb by auto
  next
    case (enforce cg' path' f)
    then show ?thesis using ctlEnforceSet_state [of env path' f s] assms(1) by auto
  qed (use man in \<open>simp_all add: frame_simps\<close>)
qed simp

theorem agent_connection_confined_witness:
  "tcb_cgroups (cr_state (handleControlConn sample_env (\<lambda>_ _. '''') (Some 0) (Some (7, worker_path))
      (Some ''ENFORCE-SET bpf 0'') armed_state)) = tcb_cgroups armed_state"
  using agent_connection_confined [OF worker_agent(1) refl] by blast

end
