(* ===== verification/Audit_Record.thy ===== *)
theory Audit_Record
  imports Event_Wire Go_Strings
begin

text \<open>
  The records of the signed audit chains (\<^verbatim>\<open>src/collector/main.go\<close>): \<open>auditRecord\<close>, the
  encoding \<open>canonical\<close> that is hashed and signed, and the coercion of strings to valid UTF-8.
  The hash and signature functions and the JSON codec are parameters, collected in
  \<open>audit_env\<close>.
\<close>

section \<open>Records\<close>

record audit_record =
  ar_seq :: u64
  ar_ts :: u64
  ar_cgroup_id :: u64
  ar_pid :: u32
  ar_comm :: string
  ar_hook :: string
  ar_decision :: string
  ar_mode :: string
  ar_prev_hash :: string
  ar_hash :: string
  ar_sig :: string

text \<open>
  SHA-256, Ed25519 signing with the log's key and verification with its public key, and
  \<open>json.Marshal\<close> and \<open>json.Unmarshal\<close> of a record (\<open>None\<close> is an error).
\<close>

record audit_env =
  ae_sha256 :: "u8 list \<Rightarrow> u8 list"
  ae_sign :: "u8 list \<Rightarrow> u8 list"
  ae_verify :: "u8 list \<Rightarrow> u8 list \<Rightarrow> bool"
  ae_marshal :: "audit_record \<Rightarrow> string"
  ae_unmarshal :: "string \<Rightarrow> audit_record option"

section \<open>The canonical encoding\<close>

definition put64 :: "u64 \<Rightarrow> u8 list" where
  "put64 v = be_bytes 8 (unat v)"

definition put_str :: "string \<Rightarrow> u8 list" where
  "put_str s = put64 (of_nat (length s)) @ bytes_of s"

definition canonical :: "audit_record \<Rightarrow> u8 list \<Rightarrow> string \<Rightarrow> u8 list" where
  "canonical r prev domain =
     put_str domain @ put64 (ar_seq r) @ put64 (ar_ts r) @ put64 (ar_cgroup_id r) @ put64 (ucast (ar_pid r)) @
     put_str (ar_comm r) @ put_str (ar_hook r) @ put_str (ar_decision r) @ put_str (ar_mode r) @
     put64 (of_nat (length prev)) @ prev"

definition digest :: "audit_env \<Rightarrow> string \<Rightarrow> u8 list \<Rightarrow> audit_record \<Rightarrow> u8 list" where
  "digest A domain prev r = ae_sha256 A (canonical r prev domain)"

text \<open>The chained fields, which the encoding must determine.\<close>

definition chained :: "audit_record \<Rightarrow> u64 \<times> u64 \<times> u64 \<times> u32 \<times> string \<times> string \<times> string \<times> string" where
  "chained r =
     (ar_seq r, ar_ts r, ar_cgroup_id r, ar_pid r, ar_comm r, ar_hook r, ar_decision r, ar_mode r)"

text \<open>Every Go string and slice is shorter than 2 to the 63.\<close>

definition sized :: "audit_record \<Rightarrow> bool" where
  "sized r \<longleftrightarrow>
     length (ar_comm r) < 2 ^ 63 \<and> length (ar_hook r) < 2 ^ 63 \<and>
     length (ar_decision r) < 2 ^ 63 \<and> length (ar_mode r) < 2 ^ 63"

section \<open>Valid UTF-8\<close>

text \<open>
  The length of the code point at the head of a string, 0 if its bytes are ill-formed
  (overlong forms, surrogates and values above U+10FFFF included), and
  \<open>strings.ToValidUTF8\<close>, which replaces each run of ill-formed bytes by U+FFFD.
\<close>

definition byte_in :: "nat \<Rightarrow> nat \<Rightarrow> string \<Rightarrow> nat \<Rightarrow> bool" where
  "byte_in lo hi s i \<longleftrightarrow> i < length s \<and> lo \<le> of_char (s ! i) \<and> of_char (s ! i) \<le> hi"

definition cont_byte :: "string \<Rightarrow> nat \<Rightarrow> bool" where
  "cont_byte s i \<longleftrightarrow> byte_in 0x80 0xBF s i"

definition rune2 :: "string \<Rightarrow> bool" where
  "rune2 s \<longleftrightarrow> byte_in 0xC2 0xDF s 0 \<and> cont_byte s 1"

definition rune3 :: "string \<Rightarrow> bool" where
  "rune3 s \<longleftrightarrow>
     (byte_in 0xE0 0xE0 s 0 \<and> byte_in 0xA0 0xBF s 1 \<or> byte_in 0xE1 0xEC s 0 \<and> cont_byte s 1 \<or>
      byte_in 0xED 0xED s 0 \<and> byte_in 0x80 0x9F s 1 \<or> byte_in 0xEE 0xEF s 0 \<and> cont_byte s 1) \<and> cont_byte s 2"

definition rune4 :: "string \<Rightarrow> bool" where
  "rune4 s \<longleftrightarrow>
     (byte_in 0xF0 0xF0 s 0 \<and> byte_in 0x90 0xBF s 1 \<or> byte_in 0xF1 0xF3 s 0 \<and> cont_byte s 1 \<or>
      byte_in 0xF4 0xF4 s 0 \<and> byte_in 0x80 0x8F s 1) \<and> cont_byte s 2 \<and> cont_byte s 3"

definition rune_len :: "string \<Rightarrow> nat" where
  "rune_len s =
     (if byte_in 0x00 0x7F s 0 then 1 else if rune2 s then 2 else if rune3 s then 3 else if rune4 s then 4 else 0)"

lemmas rune_defs = byte_in_def cont_byte_def rune2_def rune3_def rune4_def

definition replacement :: string where
  "replacement = [CHR 0xEF, CHR 0xBF, CHR 0xBD]"

function to_valid_from :: "bool \<Rightarrow> string \<Rightarrow> string" where
  "to_valid_from bad [] = []"
| "to_valid_from bad (c # cs) =
     (let n = rune_len (c # cs)
      in if n = 0 then (if bad then [] else replacement) @ to_valid_from True cs
         else take n (c # cs) @ to_valid_from False (drop n (c # cs)))"
  by pat_completeness auto
termination
  by (relation "measure (\<lambda>(bad, s). length s)") auto

definition toValidUTF8 :: "string \<Rightarrow> string" where
  "toValidUTF8 s = to_valid_from False s"

section \<open>Injectivity\<close>

lemma length_put64 [simp]: "length (put64 v) = 8"
  by (simp add: put64_def)

lemma put64_inject [simp]: "put64 v = put64 w \<longleftrightarrow> v = w"
proof -
  have "unat v < 256 ^ 8" "unat w < 256 ^ 8" by simp_all
  then show ?thesis by (simp add: put64_def be_bytes_inject word_unat_eq_iff)
qed

lemma put64_append [simp]: "put64 v @ x = put64 w @ y \<longleftrightarrow> v = w \<and> x = y"
  by (auto simp: append_eq_append_conv)

lemma put_str_append:
  assumes "length s < 2 ^ 63" "length t < 2 ^ 63"
  shows "put_str s @ x = put_str t @ y \<longleftrightarrow> s = t \<and> x = y"
proof
  assume eq: "put_str s @ x = put_str t @ y"
  then have "(of_nat (length s) :: u64) = of_nat (length t)" by (simp add: put_str_def)
  moreover have "unat (of_nat (length s) :: u64) = length s" "unat (of_nat (length t) :: u64) = length t"
    using assms by (simp_all add: unat_of_nat_small)
  ultimately have len: "length s = length t" by metis
  with eq show "s = t \<and> x = y" by (simp add: put_str_def append_eq_append_conv)
qed simp

lemma ucast_pid_inject: "(ucast (p :: u32) :: u64) = ucast q \<longleftrightarrow> p = q"
  by transfer simp

lemma canonical_inject:
  assumes "sized r" "sized r'" "length domain < 2 ^ 63" "length domain' < 2 ^ 63"
    and "canonical r prev domain = canonical r' prev' domain'"
  shows "chained r = chained r' \<and> prev = prev' \<and> domain = domain'"
  using assms(5) assms(1-4) unfolding canonical_def sized_def chained_def
  by (simp add: put_str_append ucast_pid_inject)

section \<open>Idempotence\<close>

text \<open>What was made valid is valid, and so is ASCII.\<close>

lemma rune_len_le: "rune_len s \<le> length s"
proof -
  have "rune2 s \<Longrightarrow> 2 \<le> length s" "rune3 s \<Longrightarrow> 3 \<le> length s" "rune4 s \<Longrightarrow> 4 \<le> length s"
    by (simp_all add: rune2_def rune3_def rune4_def cont_byte_def byte_in_def [of _ _ _ "Suc 0"]
        byte_in_def [of _ _ _ 2] byte_in_def [of _ _ _ 3])
  then show ?thesis by (auto simp: rune_len_def byte_in_def Suc_le_eq)
qed

lemma rune_len_local:
  assumes "rune_len s = n" "n \<noteq> 0"
  shows "rune_len (take n s @ t) = n"
proof -
  have len: "n \<le> length s" using rune_len_le [of s] assms(1) by simp
  have b: "byte_in lo hi (take n s @ t) i = byte_in lo hi s i" if "i < n" for lo hi i
    using that len by (auto simp: byte_in_def nth_append)
  have "1 < n \<Longrightarrow> rune2 (take n s @ t) = rune2 s" by (simp add: rune2_def cont_byte_def b)
  moreover have "2 < n \<Longrightarrow> rune3 (take n s @ t) = rune3 s" by (simp add: rune3_def cont_byte_def b)
  moreover have "3 < n \<Longrightarrow> rune4 (take n s @ t) = rune4 s" by (simp add: rune4_def cont_byte_def b)
  ultimately show ?thesis using assms b [of 0] by (auto simp: rune_len_def split: if_splits)
qed

lemma to_valid_rune: "rune_len s \<noteq> 0 \<Longrightarrow> to_valid_from b s = take (rune_len s) s @ to_valid_from False (drop (rune_len s) s)"
  using rune_len_le [of s] by (cases s) (simp_all add: Let_def)

lemma to_valid_keep:
  assumes "rune_len s = n" "n \<noteq> 0"
  shows "to_valid_from b (take n s @ t) = take n s @ to_valid_from False t"
proof -
  have "length (take n s) = n" using rune_len_le [of s] assms(1) by simp
  then show ?thesis
    using to_valid_rune [of "take n s @ t" b] rune_len_local [OF assms] assms(2) by simp
qed

lemma to_valid_replacement: "to_valid_from b (replacement @ s) = replacement @ to_valid_from False s"
  using to_valid_keep [of replacement 3 b s] by (simp add: rune_len_def replacement_def rune_defs)

lemma to_valid_valid: "to_valid_from b (to_valid_from bad s) = to_valid_from bad s"
proof (induction bad s arbitrary: b rule: to_valid_from.induct)
  case (2 bad c cs)
  show ?case
  proof (cases "rune_len (c # cs) = 0")
    case True
    then show ?thesis using 2(1) [OF refl True] by (simp add: to_valid_replacement)
  next
    case False
    then show ?thesis
      using 2(2) [OF refl False] by (simp only: to_valid_rune [OF False] to_valid_keep [OF refl False])
  qed
qed simp

definition valid_utf8 :: "string \<Rightarrow> bool" where
  "valid_utf8 s \<longleftrightarrow> toValidUTF8 s = s"

lemma valid_utf8_toValid [simp]: "valid_utf8 (toValidUTF8 s)"
  by (simp add: valid_utf8_def toValidUTF8_def to_valid_valid)

lemma valid_utf8_ascii: "list_all (\<lambda>c. of_char c < (128 :: nat)) s \<Longrightarrow> valid_utf8 s"
  unfolding valid_utf8_def toValidUTF8_def
proof (induction s)
  case (Cons c s)
  then have "rune_len (c # s) = 1" by (simp add: rune_len_def byte_in_def)
  then show ?case using Cons by simp
qed simp

lemma hex_digit_ascii: "d < 16 \<Longrightarrow> of_char (hex_digit d) < (128 :: nat)"
  by (simp add: hex_digit_def)

lemma valid_utf8_hex [simp]: "valid_utf8 (hex_encode bs)"
proof (rule valid_utf8_ascii, induction bs)
  case (Cons b bs)
  have "unat b div 16 < 16" using unat_u8_less [of b] by (simp add: less_mult_imp_div_less)
  with Cons show ?case by (simp add: hex_encode_def hex_digit_ascii)
qed (simp add: hex_encode_def)

end
