(* ===== verification/Audit_Verify.thy ===== *)
theory Audit_Verify
  imports Audit_Record "HOL-Library.Sublist"
begin

text \<open>
  The verifier of the audit chains (\<^verbatim>\<open>src/collector/verify.go\<close>): \<open>verifyChainSegment\<close>,
  \<open>verifyChainState\<close> and \<open>verifySegmentedChain\<close>, and the parser of its command line. A file is
  its text; a file that does not exist is \<open>None\<close>.
\<close>

section \<open>Reading a file\<close>

text \<open>
  \<open>bufio.Scanner\<close> with a buffer of 8 MiB: the lines in order, without a final empty one; a
  line that does not fit ends the scan with an error.
\<close>

definition newline :: char where "newline = CHR 0x0A"

definition max_line :: nat where "max_line = 8 * 1024 * 1024"

definition scan_lines :: "string \<Rightarrow> string list" where
  "scan_lines s = (let ls = split_on newline s in if last ls = '''' then butlast ls else ls)"

definition scanned :: "string \<Rightarrow> string list \<times> bool" where
  "scanned s =
     (let ls = scan_lines s
      in (takeWhile (\<lambda>l. length l < max_line) ls, list_all (\<lambda>l. length l < max_line) ls))"

datatype line = Blank | Malformed | Rec audit_record

definition read_line :: "audit_env \<Rightarrow> string \<Rightarrow> line" where
  "read_line A l =
     (let t = trimSpace l
      in if t = '''' then Blank else case ae_unmarshal A t of None \<Rightarrow> Malformed | Some r \<Rightarrow> Rec r)"

section \<open>Verifying one file\<close>

definition zeroHash :: "u8 list" where "zeroHash = replicate 32 0"

definition hexEqual :: "string \<Rightarrow> u8 list \<Rightarrow> bool" where
  "hexEqual h raw \<longleftrightarrow> hex_decode h = Some raw"

datatype chain_error =
    MalformedJson | BadAnchor | BadSeq | BrokenLink | HashMismatch | BadSigHex | BadSignature | ReadError

record chainSeed =
  sd_prev :: "u8 list"
  sd_expectSeq :: u64
  sd_foundSince :: bool
  sd_sinceSeq :: u64
  sd_allowTornTail :: bool
  sd_anchorFirst :: bool

text \<open>The variables of the loop: the count of records, and whether a malformed line is pending.\<close>

record scan_state =
  sc_n :: nat
  sc_seed :: chainSeed
  sc_first :: bool
  sc_torn :: bool

definition anchor_record :: "audit_record \<Rightarrow> chainSeed \<Rightarrow> chain_error + chainSeed" where
  "anchor_record r sd =
     (case hex_decode (ar_prev_hash r) of
        None \<Rightarrow> Inl BadAnchor
      | Some pp \<Rightarrow>
          if length pp \<noteq> 32 then Inl BadAnchor
          else Inr (sd\<lparr>sd_prev := pp, sd_expectSeq := ar_seq r\<rparr>))"

definition link_record :: "audit_record \<Rightarrow> chainSeed \<Rightarrow> chain_error + chainSeed" where
  "link_record r sd =
     (let expect = (if ar_seq r = 1 then 1 else sd_expectSeq sd + 1)
      in if ar_seq r \<noteq> expect then Inl BadSeq
         else if \<not> hexEqual (ar_prev_hash r) (sd_prev sd) then Inl BrokenLink
         else Inr (sd\<lparr>sd_expectSeq := expect\<rparr>))"

definition check_body :: "audit_env \<Rightarrow> string \<Rightarrow> u8 list option \<Rightarrow> audit_record \<Rightarrow> chainSeed \<Rightarrow> chain_error + chainSeed" where
  "check_body A domain since r sd =
     (let sum = digest A domain (sd_prev sd) r
      in if \<not> hexEqual (ar_hash r) sum then Inl HashMismatch
         else case hex_decode (ar_sig r) of
           None \<Rightarrow> Inl BadSigHex
         | Some sig \<Rightarrow>
             if \<not> ae_verify A sum sig then Inl BadSignature
             else
               (let hit = (since = Some sum \<and> \<not> sd_foundSince sd)
                in Inr (sd\<lparr>sd_prev := sum, sd_foundSince := sd_foundSince sd \<or> hit,
                          sd_sinceSeq := (if hit then ar_seq r else sd_sinceSeq sd)\<rparr>)))"

definition verify_line ::
  "audit_env \<Rightarrow> string \<Rightarrow> u8 list option \<Rightarrow> line \<Rightarrow> scan_state \<Rightarrow> chain_error + scan_state"
where
  "verify_line A domain since l st =
     (case l of
        Blank \<Rightarrow> Inr st
      | Malformed \<Rightarrow> if sc_torn st then Inl MalformedJson else Inr (st\<lparr>sc_torn := True\<rparr>)
      | Rec r \<Rightarrow>
          if sc_torn st then Inl MalformedJson
          else
            case (if sc_first st \<and> sd_anchorFirst (sc_seed st) then anchor_record r (sc_seed st)
                  else link_record r (sc_seed st)) of
              Inl e \<Rightarrow> Inl e
            | Inr sd \<Rightarrow>
                (case check_body A domain since r sd of
                   Inl e \<Rightarrow> Inl e
                 | Inr sd' \<Rightarrow> Inr (st\<lparr>sc_n := sc_n st + 1, sc_seed := sd', sc_first := False\<rparr>)))"

text \<open>The loop returns with the number of records verified before an error.\<close>

fun verify_lines ::
  "audit_env \<Rightarrow> string \<Rightarrow> u8 list option \<Rightarrow> line list \<Rightarrow> scan_state \<Rightarrow> (nat \<times> chain_error) + scan_state"
where
  "verify_lines A domain since [] st = Inr st"
| "verify_lines A domain since (l # ls) st =
     (case verify_line A domain since l st of
        Inl e \<Rightarrow> Inl (sc_n st, e)
      | Inr st' \<Rightarrow> verify_lines A domain since ls st')"

definition verifyChainSegment ::
  "audit_env \<Rightarrow> string \<Rightarrow> u8 list option \<Rightarrow> string option \<Rightarrow> chainSeed \<Rightarrow> (nat \<times> chain_error) + (nat \<times> chainSeed)"
where
  "verifyChainSegment A domain since file seed =
     (case file of
        None \<Rightarrow> Inr (0, seed)
      | Some body \<Rightarrow>
          (case verify_lines A domain since (map (read_line A) (fst (scanned body)))
                  \<lparr>sc_n = 0, sc_seed = seed, sc_first = True, sc_torn = False\<rparr> of
             Inl e \<Rightarrow> Inl e
           | Inr st \<Rightarrow>
               if \<not> snd (scanned body) then Inl (sc_n st, ReadError)
               else if sc_torn st \<and> \<not> sd_allowTornTail seed then Inl (sc_n st, MalformedJson)
               else Inr (sc_n st, sc_seed st)))"

section \<open>Whole chains\<close>

record chain_verdict =
  cv_count :: nat
  cv_tip :: "u8 list option"
  cv_sinceSeq :: u64
  cv_foundSince :: bool

definition verdict_of :: "nat \<Rightarrow> chainSeed \<Rightarrow> chain_verdict" where
  "verdict_of n sd =
     (if n = 0 then \<lparr>cv_count = 0, cv_tip = None, cv_sinceSeq = 0, cv_foundSince = False\<rparr>
      else \<lparr>cv_count = n, cv_tip = Some (sd_prev sd), cv_sinceSeq = sd_sinceSeq sd, cv_foundSince = sd_foundSince sd\<rparr>)"

definition genesis_seed :: chainSeed where
  "genesis_seed =
     \<lparr>sd_prev = zeroHash, sd_expectSeq = 0, sd_foundSince = False, sd_sinceSeq = 0,
      sd_allowTornTail = False, sd_anchorFirst = False\<rparr>"

definition verifyChainState ::
  "audit_env \<Rightarrow> string \<Rightarrow> u8 list option \<Rightarrow> string option \<Rightarrow> (nat \<times> chain_error) + chain_verdict"
where
  "verifyChainState A domain since file =
     (case verifyChainSegment A domain since file (genesis_seed\<lparr>sd_allowTornTail := True\<rparr>) of
        Inl e \<Rightarrow> Inl e
      | Inr (n, sd) \<Rightarrow> Inr (verdict_of n sd))"

text \<open>The sealed segments with their numbers, ascending; the flag tells the first of them.\<close>

fun verify_segments ::
  "audit_env \<Rightarrow> string \<Rightarrow> u8 list option \<Rightarrow> bool \<Rightarrow> (nat \<times> string) list \<Rightarrow> nat \<Rightarrow> chainSeed \<Rightarrow>
   (nat \<times> chain_error) + (nat \<times> chainSeed)"
where
  "verify_segments A domain since oldest [] cnt sd = Inr (cnt, sd)"
| "verify_segments A domain since oldest ((num, body) # segs) cnt sd =
     (case verifyChainSegment A domain since (Some body)
             (sd\<lparr>sd_allowTornTail := False, sd_anchorFirst := oldest \<and> num \<noteq> 1\<rparr>) of
        Inl (n, e) \<Rightarrow> Inl (cnt + n, e)
      | Inr (n, sd') \<Rightarrow> verify_segments A domain since False segs (cnt + n) sd')"

definition verifySegmentedChain ::
  "audit_env \<Rightarrow> string \<Rightarrow> u8 list option \<Rightarrow> (nat \<times> string) list \<Rightarrow> string option \<Rightarrow> (nat \<times> chain_error) + chain_verdict"
where
  "verifySegmentedChain A domain since segs live =
     (case verify_segments A domain since True segs 0 genesis_seed of
        Inl e \<Rightarrow> Inl e
      | Inr (cnt, sd) \<Rightarrow>
          (case verifyChainSegment A domain since live (sd\<lparr>sd_allowTornTail := True, sd_anchorFirst := False\<rparr>) of
             Inl (n, e) \<Rightarrow> Inl (cnt + n, e)
           | Inr (n, sd') \<Rightarrow> Inr (verdict_of (cnt + n) sd')))"

section \<open>Arguments\<close>

text \<open>
  \<open>parseVerifyArgs\<close>. Only ASCII letters are lowered in a tip: no other letter can occur in one
  that is later found equal to a hexadecimal hash.
\<close>

record verify_args =
  va_since :: string
  va_expectTip :: string
  va_rest :: "string list"

definition to_lower :: "string \<Rightarrow> string" where
  "to_lower s = map (\<lambda>c. if (65 :: nat) \<le> of_char c \<and> of_char c \<le> (90 :: nat) then char_of (of_char c + 32 :: nat) else c) s"

fun parse_verify_from :: "verify_args \<Rightarrow> string list \<Rightarrow> string + verify_args" where
  "parse_verify_from va [] =
     (if length (va_rest va) > 1 then Inl ''unexpected extra argument(s)'' else Inr va)"
| "parse_verify_from va (a # as) =
     (if hasPrefix a ''--since='' then
        (if trimSpace (trimPrefix a ''--since='') = '''' then Inl ''--since= has an empty value''
         else parse_verify_from (va\<lparr>va_since := trimPrefix a ''--since=''\<rparr>) as)
      else if hasPrefix a ''--expect-tip='' then
        (if to_lower (trimSpace (trimPrefix a ''--expect-tip='')) = '''' then Inl ''--expect-tip= has an empty value''
         else parse_verify_from (va\<lparr>va_expectTip := to_lower (trimSpace (trimPrefix a ''--expect-tip=''))\<rparr>) as)
      else if hasPrefix a ''-'' then Inl ''unknown flag''
      else parse_verify_from (va\<lparr>va_rest := va_rest va @ [a]\<rparr>) as)"

definition parseVerifyArgs :: "string list \<Rightarrow> string + verify_args" where
  "parseVerifyArgs args = parse_verify_from \<lparr>va_since = '''', va_expectTip = '''', va_rest = []\<rparr> args"

definition strContains :: "string \<Rightarrow> string \<Rightarrow> bool" where
  "strContains s sub \<longleftrightarrow> Index s sub \<noteq> None"

text \<open>\<open>chainDomain\<close>: \<open>override\<close> is \<open>BULKHEAD_AUDIT_DOMAIN\<close>, \<open>base\<close> the last element of the path.\<close>

definition chainDomain :: "string \<Rightarrow> string \<Rightarrow> string \<Rightarrow> string" where
  "chainDomain override chain base =
     (if override \<noteq> '''' then override
      else if strContains chain ''audit-router'' then ''router''
      else if strContains chain ''audit-broker'' then ''broker''
      else if strContains chain ''audit-egress'' then ''egress-proxy''
      else if strContains base ''control'' then ''control''
      else ''collector'')"

text \<open>
  The verdict of \<open>cmdVerifyAudit\<close> once the arguments are decoded: \<open>since\<close> and \<open>expectTip\<close> are
  the checks that were asked for, and the result is whether the command exits with 0.
\<close>

definition cmd_verdict :: "u8 list option \<Rightarrow> string \<Rightarrow> (nat \<times> chain_error) + chain_verdict \<Rightarrow> bool" where
  "cmd_verdict since expectTip res =
     (case res of
        Inl _ \<Rightarrow> False
      | Inr v \<Rightarrow>
          (let tipHex = hex_encode (case cv_tip v of None \<Rightarrow> zeroHash | Some t \<Rightarrow> t)
           in (expectTip = '''' \<or> tipHex = expectTip) \<and>
              (case since of None \<Rightarrow> True | Some h \<Rightarrow> h = zeroHash \<or> cv_foundSince v)))"

section \<open>Chains of records\<close>

text \<open>
  What the verifier checks, without files: \<open>chain_from\<close> follows the records from a previous
  hash and sequence number and gives the last ones; \<open>tips\<close> are the hashes on the way.
\<close>

definition record_ok :: "audit_env \<Rightarrow> string \<Rightarrow> u8 list \<Rightarrow> audit_record \<Rightarrow> bool" where
  "record_ok A domain prev r \<longleftrightarrow>
     hexEqual (ar_hash r) (digest A domain prev r) \<and>
     (case hex_decode (ar_sig r) of None \<Rightarrow> False | Some sig \<Rightarrow> ae_verify A (digest A domain prev r) sig)"

fun chain_from :: "audit_env \<Rightarrow> string \<Rightarrow> u8 list \<times> u64 \<Rightarrow> audit_record list \<Rightarrow> (u8 list \<times> u64) option" where
  "chain_from A domain (prev, n) [] = Some (prev, n)"
| "chain_from A domain (prev, n) (r # rs) =
     (if (ar_seq r = 1 \<or> ar_seq r = n + 1) \<and> hexEqual (ar_prev_hash r) prev \<and> record_ok A domain prev r
      then chain_from A domain (digest A domain prev r, ar_seq r) rs else None)"

fun tips :: "audit_env \<Rightarrow> string \<Rightarrow> u8 list \<Rightarrow> audit_record list \<Rightarrow> u8 list list" where
  "tips A domain prev [] = []"
| "tips A domain prev (r # rs) = digest A domain prev r # tips A domain (digest A domain prev r) rs"

fun recs :: "line list \<Rightarrow> audit_record list" where
  "recs [] = []"
| "recs (Rec r # ls) = r # recs ls"
| "recs (_ # ls) = recs ls"

lemma recs_append [simp]: "recs (xs @ ys) = recs xs @ recs ys"
  by (induction xs rule: recs.induct) simp_all

lemma recs_map_Rec [simp]: "recs (map Rec rs) = rs"
  by (induction rs) simp_all

lemma chain_from_append:
  "chain_from A domain st (xs @ ys) =
     (case chain_from A domain st xs of None \<Rightarrow> None | Some st' \<Rightarrow> chain_from A domain st' ys)"
  by (induction A domain st xs rule: chain_from.induct) auto

lemma chain_tip: "chain_from A domain (p, n) xs = Some (t, m) \<Longrightarrow> t = last (p # tips A domain p xs)"
proof (induction xs arbitrary: p n)
  case (Cons r xs)
  then have "chain_from A domain (digest A domain p r, ar_seq r) xs = Some (t, m)" by (simp split: if_splits)
  from Cons.IH [OF this] show ?case by simp
qed simp

lemma check_body_sound:
  "check_body A domain since r sd = Inr sd' \<Longrightarrow>
   record_ok A domain (sd_prev sd) r \<and> sd_prev sd' = digest A domain (sd_prev sd) r
   \<and> sd_expectSeq sd' = sd_expectSeq sd \<and> sd_anchorFirst sd' = sd_anchorFirst sd
   \<and> sd_allowTornTail sd' = sd_allowTornTail sd
   \<and> (sd_foundSince sd' \<longleftrightarrow> sd_foundSince sd \<or> since = Some (digest A domain (sd_prev sd) r))"
  by (auto simp: check_body_def record_ok_def Let_def split: if_splits option.splits)

lemma check_body_complete:
  "record_ok A domain (sd_prev sd) r \<Longrightarrow> \<exists>sd'. check_body A domain since r sd = Inr sd'"
  by (auto simp: check_body_def record_ok_def Let_def split: option.splits)

lemma link_record_iff:
  "link_record r sd = Inr sd' \<longleftrightarrow>
   (ar_seq r = 1 \<or> ar_seq r = sd_expectSeq sd + 1) \<and> hexEqual (ar_prev_hash r) (sd_prev sd)
   \<and> sd' = sd\<lparr>sd_expectSeq := ar_seq r\<rparr>"
  by (auto simp: link_record_def Let_def)

text \<open>Accepting a list of lines means accepting the chain of its records.\<close>

definition unanchored :: "scan_state \<Rightarrow> bool" where
  "unanchored st \<longleftrightarrow> \<not> (sc_first st \<and> sd_anchorFirst (sc_seed st))"

lemma verify_lines_sound:
  assumes "verify_lines A domain since ls st = Inr st'" "unanchored st"
  shows "chain_from A domain (sd_prev (sc_seed st), sd_expectSeq (sc_seed st)) (recs ls) =
      Some (sd_prev (sc_seed st'), sd_expectSeq (sc_seed st'))
    \<and> sc_n st' = sc_n st + length (recs ls)
    \<and> (sd_foundSince (sc_seed st') \<longleftrightarrow>
         sd_foundSince (sc_seed st) \<or> since \<in> Some ` set (tips A domain (sd_prev (sc_seed st)) (recs ls)))"
  using assms
proof (induction ls arbitrary: st)
  case (Cons l ls)
  from Cons.prems(1) obtain st1 where st1: "verify_line A domain since l st = Inr st1"
    and rest: "verify_lines A domain since ls st1 = Inr st'" by (auto split: sum.splits)
  show ?case
  proof (cases l)
    case Blank
    then show ?thesis using st1 Cons.IH [OF rest] Cons.prems(2) by (simp add: verify_line_def)
  next
    case Malformed
    then have "st1 = st\<lparr>sc_torn := True\<rparr>" using st1 by (simp add: verify_line_def split: if_splits)
    then show ?thesis using Malformed Cons.IH [OF rest] Cons.prems(2) by (simp add: unanchored_def)
  next
    case (Rec r)
    with st1 Cons.prems(2) obtain sd sd' where
      link: "link_record r (sc_seed st) = Inr sd" and chk: "check_body A domain since r sd = Inr sd'"
      and st1': "st1 = st\<lparr>sc_n := sc_n st + 1, sc_seed := sd', sc_first := False\<rparr>"
      by (auto simp: verify_line_def unanchored_def split: if_splits sum.splits)
    have "unanchored st1" by (simp add: st1' unanchored_def)
    note IH = Cons.IH [OF rest this]
    show ?thesis
      using IH link check_body_sound [OF chk] by (auto simp: Rec st1' link_record_iff)
  qed
qed simp

text \<open>
  In an anchored file the first record gives the previous hash and sequence number itself.
\<close>

lemma verify_anchored_sound:
  assumes "verify_lines A domain since ls st = Inr st'" "\<not> unanchored st"
  shows "\<exists>p n. chain_from A domain (p, n) (recs ls) = Some (sd_prev (sc_seed st'), sd_expectSeq (sc_seed st'))
    \<and> sc_n st' = sc_n st + length (recs ls)"
  using assms
proof (induction ls arbitrary: st)
  case (Cons l ls)
  from Cons.prems(1) obtain st1 where st1: "verify_line A domain since l st = Inr st1"
    and rest: "verify_lines A domain since ls st1 = Inr st'" by (auto split: sum.splits)
  show ?case
  proof (cases l)
    case Blank
    then show ?thesis using st1 Cons.IH [OF rest] Cons.prems(2) by (simp add: verify_line_def)
  next
    case Malformed
    then have "st1 = st\<lparr>sc_torn := True\<rparr>" using st1 by (simp add: verify_line_def split: if_splits)
    then show ?thesis using Malformed Cons.IH [OF rest] Cons.prems(2) by (simp add: unanchored_def)
  next
    case (Rec r)
    with st1 Cons.prems(2) obtain sd sd' where
      anchor: "anchor_record r (sc_seed st) = Inr sd" and chk: "check_body A domain since r sd = Inr sd'"
      and st1': "st1 = st\<lparr>sc_n := sc_n st + 1, sc_seed := sd', sc_first := False\<rparr>"
      by (auto simp: verify_line_def unanchored_def split: if_splits sum.splits)
    have "unanchored st1" by (simp add: st1' unanchored_def)
    note tail = verify_lines_sound [OF rest this]
    have "hexEqual (ar_prev_hash r) (sd_prev sd)" "sd_expectSeq sd = ar_seq r"
      using anchor by (auto simp: anchor_record_def hexEqual_def split: option.splits if_splits)
    then have "chain_from A domain (sd_prev sd, ar_seq r - 1) (recs (l # ls)) =
        Some (sd_prev (sc_seed st'), sd_expectSeq (sc_seed st'))"
      using tail check_body_sound [OF chk] by (simp add: Rec st1')
    moreover have "sc_n st' = sc_n st + length (recs (l # ls))" using tail by (simp add: Rec st1')
    ultimately show ?thesis by blast
  qed
qed auto

text \<open>The records of a file as the verifier reads them.\<close>

definition file_records :: "audit_env \<Rightarrow> string option \<Rightarrow> audit_record list" where
  "file_records A file = (case file of None \<Rightarrow> [] | Some body \<Rightarrow> recs (map (read_line A) (fst (scanned body))))"

lemma segment_sound:
  assumes "verifyChainSegment A domain since file sd = Inr (n, sd')" "\<not> sd_anchorFirst sd"
  shows "chain_from A domain (sd_prev sd, sd_expectSeq sd) (file_records A file) = Some (sd_prev sd', sd_expectSeq sd')
    \<and> n = length (file_records A file)
    \<and> (sd_foundSince sd' \<longleftrightarrow> sd_foundSince sd \<or> since \<in> Some ` set (tips A domain (sd_prev sd) (file_records A file)))"
proof (cases "file")
  case None
  then show ?thesis using assms by (simp add: verifyChainSegment_def file_records_def)
next
  case (Some body)
  with assms(1) obtain st where st: "verify_lines A domain since (map (read_line A) (fst (scanned body)))
      \<lparr>sc_n = 0, sc_seed = sd, sc_first = True, sc_torn = False\<rparr> = Inr st" "sc_n st = n" "sc_seed st = sd'"
    by (auto simp: verifyChainSegment_def split: sum.splits if_splits)
  then show ?thesis
    using verify_lines_sound [OF st(1)] assms(2) by (simp add: Some file_records_def unanchored_def)
qed

lemma segment_anchored:
  assumes "verifyChainSegment A domain since (Some body) sd = Inr (n, sd')" "sd_anchorFirst sd"
  shows "\<exists>p m. chain_from A domain (p, m) (file_records A (Some body)) = Some (sd_prev sd', sd_expectSeq sd')
    \<and> n = length (file_records A (Some body))"
proof -
  from assms(1) obtain st where st: "verify_lines A domain since (map (read_line A) (fst (scanned body)))
      \<lparr>sc_n = 0, sc_seed = sd, sc_first = True, sc_torn = False\<rparr> = Inr st" "sc_n st = n" "sc_seed st = sd'"
    by (auto simp: verifyChainSegment_def split: sum.splits if_splits)
  then show ?thesis
    using verify_anchored_sound [OF st(1)] assms(2) by (simp add: file_records_def unanchored_def)
qed

definition all_records :: "audit_env \<Rightarrow> (nat \<times> string) list \<Rightarrow> string option \<Rightarrow> audit_record list" where
  "all_records A segs live = concat (map (\<lambda>(n, body). file_records A (Some body)) segs) @ file_records A live"

lemma tips_append:
  "chain_from A domain (p, n) xs = Some (q, m) \<Longrightarrow> tips A domain p (xs @ ys) = tips A domain p xs @ tips A domain q ys"
  by (induction xs arbitrary: p n) (auto split: if_splits)

text \<open>With no segment pruned, an accepted chain starts at genesis.\<close>

definition unpruned :: "(nat \<times> string) list \<Rightarrow> bool" where
  "unpruned segs \<longleftrightarrow> segs = [] \<or> fst (hd segs) = 1"

lemma segments_sound:
  assumes "verify_segments A domain since oldest segs cnt sd = Inr (n, sd')" "oldest \<longrightarrow> unpruned segs"
  defines "rs \<equiv> concat (map (\<lambda>(n, body). file_records A (Some body)) segs)"
  shows "chain_from A domain (sd_prev sd, sd_expectSeq sd) rs = Some (sd_prev sd', sd_expectSeq sd')
    \<and> n = cnt + length rs
    \<and> (sd_foundSince sd' \<longleftrightarrow> sd_foundSince sd \<or> since \<in> Some ` set (tips A domain (sd_prev sd) rs))"
  using assms(1,2) unfolding rs_def
proof (induction segs arbitrary: oldest cnt sd)
  case (Cons seg segs)
  obtain num body where seg: "seg = (num, body)" by (cases seg)
  let ?sd = "sd\<lparr>sd_allowTornTail := False, sd_anchorFirst := oldest \<and> num \<noteq> 1\<rparr>"
  from Cons.prems(1) obtain k sd1 where first: "verifyChainSegment A domain since (Some body) ?sd = Inr (k, sd1)"
    and rest: "verify_segments A domain since False segs (cnt + k) sd1 = Inr (n, sd')"
    by (auto simp: seg split: sum.splits prod.splits)
  have "\<not> sd_anchorFirst ?sd" using Cons.prems(2) by (auto simp: seg unpruned_def)
  note s1 = segment_sound [OF first this]
  have "False \<longrightarrow> unpruned segs" by simp
  note s2 = Cons.IH [OF rest this]
  have c: "chain_from A domain (sd_prev sd, sd_expectSeq sd) (file_records A (Some body)) =
      Some (sd_prev sd1, sd_expectSeq sd1)" using s1 by simp
  show ?case using s1 s2 by (auto simp: seg chain_from_append tips_append [OF c])
qed simp

lemma chain_sound:
  assumes "verifySegmentedChain A domain since segs live = Inr v" "unpruned segs"
  shows "\<exists>m tip. chain_from A domain (zeroHash, 0) (all_records A segs live) = Some (tip, m)
    \<and> cv_count v = length (all_records A segs live)
    \<and> cv_tip v = (if all_records A segs live = [] then None else Some tip)
    \<and> (cv_foundSince v \<longleftrightarrow> since \<in> Some ` set (tips A domain zeroHash (all_records A segs live)))"
proof -
  from assms(1) obtain cnt sd n sd' where
    segs: "verify_segments A domain since True segs 0 genesis_seed = Inr (cnt, sd)"
    and live: "verifyChainSegment A domain since live (sd\<lparr>sd_allowTornTail := True, sd_anchorFirst := False\<rparr>) = Inr (n, sd')"
    and v: "v = verdict_of (cnt + n) sd'"
    by (auto simp: verifySegmentedChain_def split: sum.splits prod.splits)
  have u: "True \<longrightarrow> unpruned segs" using assms(2) by simp
  note s1 = segments_sound [OF segs u]
  note s2 = segment_sound [OF live, simplified]
  let ?rs = "concat (map (\<lambda>(n, body). file_records A (Some body)) segs)"
  have c: "chain_from A domain (zeroHash, 0) ?rs = Some (sd_prev sd, sd_expectSeq sd)"
    using s1 by (simp add: genesis_seed_def)
  have n: "cnt + n = length (all_records A segs live)"
    and all: "chain_from A domain (zeroHash, 0) (all_records A segs live) = Some (sd_prev sd', sd_expectSeq sd')"
    and found: "sd_foundSince sd' \<longleftrightarrow> since \<in> Some ` set (tips A domain zeroHash (all_records A segs live))"
    using s1 s2 by (auto simp: all_records_def chain_from_append c tips_append [OF c] genesis_seed_def)
  show ?thesis
  proof (cases "all_records A segs live = []")
    case True
    then show ?thesis using n by (simp add: v verdict_of_def)
  next
    case False
    then have "cnt + n \<noteq> 0" using n by simp
    then have "v = \<lparr>cv_count = cnt + n, cv_tip = Some (sd_prev sd'), cv_sinceSeq = sd_sinceSeq sd',
        cv_foundSince = sd_foundSince sd'\<rparr>" by (simp only: v verdict_of_def if_False)
    then show ?thesis using all found n False by simp
  qed
qed

section \<open>Hashes commit to histories\<close>

text \<open>
  The messages that are hashed along a chain, and what a break of SHA-256 on some messages
  would be: two of them with one hash, or one with the hash zero.
\<close>

fun hashed :: "audit_env \<Rightarrow> string \<Rightarrow> u8 list \<Rightarrow> audit_record list \<Rightarrow> u8 list list" where
  "hashed A domain prev [] = []"
| "hashed A domain prev (r # rs) = canonical r prev domain # hashed A domain (digest A domain prev r) rs"

definition sha_broken :: "audit_env \<Rightarrow> u8 list set \<Rightarrow> bool" where
  "sha_broken A M \<longleftrightarrow>
     (\<exists>x\<in>M. \<exists>y\<in>M. x \<noteq> y \<and> ae_sha256 A x = ae_sha256 A y) \<or> (\<exists>x\<in>M. ae_sha256 A x = zeroHash)"

lemma digest_inject:
  assumes "digest A domain p r = digest A domain' p' r'" "\<not> sha_broken A M"
    and "canonical r p domain \<in> M" "canonical r' p' domain' \<in> M"
    and "sized r" "sized r'" "length domain < 2 ^ 63" "length domain' < 2 ^ 63"
  shows "chained r = chained r' \<and> p = p' \<and> domain = domain'"
proof -
  have "canonical r p domain = canonical r' p' domain'"
    using assms(1-4) by (auto simp: digest_def sha_broken_def)
  then show ?thesis by (rule canonical_inject [OF assms(5-8)])
qed

lemma chain_snoc:
  assumes "chain_from A domain (p0, n0) (xs @ [r]) = Some (t, m)"
  obtains p n where "chain_from A domain (p0, n0) xs = Some (p, n)" "t = digest A domain p r"
    "hashed A domain p0 (xs @ [r]) = hashed A domain p0 xs @ [canonical r p domain]"
proof -
  obtain p n where c: "chain_from A domain (p0, n0) xs = Some (p, n)" "t = digest A domain p r"
    using assms by (auto simp: chain_from_append split: option.splits if_splits)
  have "hashed A domain p0 (xs @ [r]) = hashed A domain p0 xs @ [canonical r p domain]"
    using c(1) by (induction xs arbitrary: p0 n0) (auto split: if_splits)
  then show ?thesis using that c by blast
qed

lemma hashed_append:
  "chain_from A domain (p, n) xs = Some (q, m) \<Longrightarrow>
   hashed A domain p (xs @ ys) = hashed A domain p xs @ hashed A domain q ys"
  by (induction xs arbitrary: p n) (auto split: if_splits)

lemma chain_tip_not_zero:
  assumes "chain_from A domain (p0, n0) xs = Some (t, m)" "xs \<noteq> []" "\<not> sha_broken A M" "set (hashed A domain p0 xs) \<subseteq> M"
  shows "t \<noteq> zeroHash"
proof (cases xs rule: rev_cases)
  case (snoc ys r)
  with assms(1) obtain p n where "t = digest A domain p r"
    "hashed A domain p0 (ys @ [r]) = hashed A domain p0 ys @ [canonical r p domain]" by (metis chain_snoc)
  then show ?thesis using assms(3,4) by (auto simp: snoc sha_broken_def digest_def)
qed (use assms(2) in simp)

text \<open>Two chains from genesis with the same tip have the same history.\<close>

lemma same_tip_same_history:
  assumes "\<not> sha_broken A M" "length domain < 2 ^ 63" "\<forall>r\<in>set xs \<union> set ys. sized r"
    and "chain_from A domain (zeroHash, n) xs = Some (t, a)" "chain_from A domain (zeroHash, m) ys = Some (t, b)"
    and "set (hashed A domain zeroHash xs) \<subseteq> M" "set (hashed A domain zeroHash ys) \<subseteq> M"
  shows "map chained xs = map chained ys"
  using assms(3-7)
proof (induction xs arbitrary: ys t a b rule: rev_induct)
  case Nil
  then have "t = zeroHash" by simp
  then show ?case using chain_tip_not_zero [OF Nil.prems(3) _ assms(1) Nil.prems(5)] by auto
next
  case (snoc r xs)
  from snoc.prems(2) obtain p k where p: "chain_from A domain (zeroHash, n) xs = Some (p, k)" "t = digest A domain p r"
    "hashed A domain zeroHash (xs @ [r]) = hashed A domain zeroHash xs @ [canonical r p domain]"
    by (rule chain_snoc)
  show ?case
  proof (cases ys rule: rev_cases)
    case Nil
    then show ?thesis using snoc.prems(3) chain_tip_not_zero [OF snoc.prems(2) _ assms(1) snoc.prems(4)] by simp
  next
    case (snoc ys' r')
    with snoc.prems(3) obtain p' k' where p': "chain_from A domain (zeroHash, m) ys' = Some (p', k')"
      "t = digest A domain p' r'"
      "hashed A domain zeroHash (ys' @ [r']) = hashed A domain zeroHash ys' @ [canonical r' p' domain]"
      by (auto elim: chain_snoc)
    have M: "canonical r p domain \<in> M" "canonical r' p' domain \<in> M"
      "set (hashed A domain zeroHash xs) \<subseteq> M" "set (hashed A domain zeroHash ys') \<subseteq> M"
      using snoc.prems(4,5) p(3) p'(3) by (simp_all add: snoc)
    have "chained r = chained r' \<and> p = p' \<and> domain = domain"
      using p(2) p'(2) snoc.prems(1)
      by (intro digest_inject [OF _ assms(1) M(1,2) _ _ assms(2) assms(2)]) (auto simp: snoc)
    moreover have "map chained xs = map chained ys'" if "p = p'"
      using snoc.prems(1) p(1) p'(1) M(3,4) that by (intro snoc.IH) (auto simp: snoc)
    ultimately show ?thesis by (simp add: snoc)
  qed
qed

lemma tip_prefix:
  assumes "chain_from A domain (p, n) xs = Some st" "h \<in> set (tips A domain p xs)"
  shows "\<exists>ys zs k. xs = ys @ zs \<and> ys \<noteq> [] \<and> chain_from A domain (p, n) ys = Some (h, k)"
  using assms
proof (induction xs arbitrary: p n)
  case (Cons r xs)
  then have ok: "chain_from A domain (p, n) [r] = Some (digest A domain p r, ar_seq r)"
    "chain_from A domain (digest A domain p r, ar_seq r) xs = Some st" by (auto split: if_splits)
  show ?case
  proof (cases "h = digest A domain p r")
    case True
    then have "r # xs = [r] @ xs \<and> [r] \<noteq> [] \<and> chain_from A domain (p, n) [r] = Some (h, ar_seq r)"
      using ok(1) by simp
    then show ?thesis by blast
  next
    case False
    then obtain ys zs k where ys: "xs = ys @ zs" "chain_from A domain (digest A domain p r, ar_seq r) ys = Some (h, k)"
      using Cons.IH [OF ok(2)] Cons.prems(2) by auto
    have "chain_from A domain (p, n) ([r] @ ys) = Some (h, k)" using ok(1) ys(2) by (simp only: chain_from_append option.case)
    then have "r # xs = (r # ys) @ zs \<and> r # ys \<noteq> [] \<and> chain_from A domain (p, n) (r # ys) = Some (h, k)"
      using ys(1) by simp
    then show ?thesis by blast
  qed
qed simp

section \<open>Properties\<close>


text \<open>
  A positive no-rewind verdict means what it says. If a relying party once saw a tip of
  a verified chain, and \<open>verify-audit --since\<close> with that tip now exits with success, then
  the history it saw is a prefix of the present one, or else SHA-256 is broken on the
  messages hashed for the two histories.
\<close>

theorem no_rewind_verdict:
  assumes "verifySegmentedChain A domain None segs live = Inr v" "unpruned segs" "cv_tip v = Some h"
    and "cmd_verdict (Some h) expectTip (verifySegmentedChain A domain (Some h) segs' live')" "unpruned segs'"
    and "rs = all_records A segs live" "rs' = all_records A segs' live'"
    and "length domain < 2 ^ 63" "\<forall>r\<in>set rs \<union> set rs'. sized r"
  shows "prefix (map chained rs) (map chained rs')
    \<or> sha_broken A (set (hashed A domain zeroHash rs) \<union> set (hashed A domain zeroHash rs'))"
proof (rule disjCI)
  assume nb: "\<not> sha_broken A (set (hashed A domain zeroHash rs) \<union> set (hashed A domain zeroHash rs'))"
  obtain m where c: "chain_from A domain (zeroHash, 0) rs = Some (h, m)" "rs \<noteq> []"
    using chain_sound [OF assms(1,2)] assms(3,6) by (auto split: if_splits)
  have "h \<noteq> zeroHash" using chain_tip_not_zero [OF c nb] by simp
  with assms(4) obtain v' where v': "verifySegmentedChain A domain (Some h) segs' live' = Inr v'" "cv_foundSince v'"
    by (auto simp: cmd_verdict_def Let_def split: sum.splits)
  from chain_sound [OF v'(1) assms(5)] v'(2) obtain t' m' where
    c': "chain_from A domain (zeroHash, 0) rs' = Some (t', m')" "h \<in> set (tips A domain zeroHash rs')"
    using assms(7) by auto
  from tip_prefix [OF c'] obtain ys zs k where ys: "rs' = ys @ zs"
    "chain_from A domain (zeroHash, 0) ys = Some (h, k)" by blast
  have "map chained rs = map chained ys"
    using assms(9) ys hashed_append [OF ys(2), of zs]
    by (intro same_tip_same_history [OF nb assms(8) _ c(1) ys(2)]) auto
  then show "prefix (map chained rs) (map chained rs')" by (simp add: ys(1))
qed

section \<open>A concrete chain\<close>

text \<open>A chain with one record, written as the line \<open>{}\<close>, and a hash without collisions.\<close>

definition demo_env0 :: audit_env where
  "demo_env0 =
     \<lparr>ae_sha256 = (\<lambda>m. 1 # m), ae_sign = (\<lambda>m. m), ae_verify = (\<lambda>m sig. sig = m),
      ae_marshal = (\<lambda>_. ''{}''), ae_unmarshal = (\<lambda>_. None)\<rparr>"

definition demo_body :: audit_record where
  "demo_body =
     \<lparr>ar_seq = 1, ar_ts = 5, ar_cgroup_id = 7, ar_pid = 9, ar_comm = ''sh'', ar_hook = ''bpf'', ar_decision = ''denied'',
      ar_mode = ''enforce'', ar_prev_hash = hex_encode zeroHash, ar_hash = '''', ar_sig = ''''\<rparr>"

definition demo_tip :: "u8 list" where
  "demo_tip = digest demo_env0 ''collector'' zeroHash demo_body"

definition demo_record :: audit_record where
  "demo_record = demo_body\<lparr>ar_hash := hex_encode demo_tip, ar_sig := hex_encode demo_tip\<rparr>"

definition demo_env :: audit_env where
  "demo_env = demo_env0\<lparr>ae_unmarshal := (\<lambda>s. if s = ''{}'' then Some demo_record else None)\<rparr>"

definition demo_file :: string where
  "demo_file = ''{}'' @ [newline]"

lemma demo_digest: "digest demo_env ''collector'' zeroHash demo_record = demo_tip"
  by (simp add: demo_tip_def digest_def demo_env_def demo_env0_def demo_record_def canonical_def)

lemma demo_lines: "map (read_line demo_env) (fst (scanned demo_file)) = [Rec demo_record]" "snd (scanned demo_file)"
proof -
  have s: "scan_lines demo_file = [''{}'']" by (simp add: scan_lines_def demo_file_def newline_def)
  have "trimSpace ''{}'' = ''{}''" by (rule trimSpace_graphic) (simp_all add: graphic_def)
  then have "read_line demo_env ''{}'' = Rec demo_record" by (simp add: read_line_def demo_env_def)
  then show "map (read_line demo_env) (fst (scanned demo_file)) = [Rec demo_record]" "snd (scanned demo_file)"
    by (simp_all add: scanned_def s max_line_def)
qed

lemma demo_line_verified:
  assumes "sd_prev sd = zeroHash" "\<not> sd_anchorFirst sd"
  shows "\<exists>sd'. verifyChainSegment demo_env ''collector'' since (Some demo_file) sd = Inr (1, sd')
    \<and> sd_prev sd' = demo_tip \<and> (sd_foundSince sd' \<longleftrightarrow> sd_foundSince sd \<or> since = Some demo_tip)"
proof -
  let ?sd = "sd\<lparr>sd_expectSeq := 1\<rparr>"
  have link: "link_record demo_record sd = Inr ?sd"
    using assms(1) by (simp add: link_record_iff demo_record_def demo_body_def hexEqual_def)
  have d: "digest demo_env ''collector'' (sd_prev ?sd) demo_record = demo_tip" using assms(1) by (simp add: demo_digest)
  have "record_ok demo_env ''collector'' (sd_prev ?sd) demo_record"
    by (simp only: record_ok_def d) (simp add: hexEqual_def demo_record_def demo_env_def demo_env0_def)
  then obtain sd' where sd': "check_body demo_env ''collector'' since demo_record ?sd = Inr sd'"
    using check_body_complete by blast
  from check_body_sound [OF this] have "sd_prev sd' = demo_tip" "sd_foundSince sd' \<longleftrightarrow> sd_foundSince sd \<or> since = Some demo_tip"
    using assms(1) by (simp_all add: demo_digest)
  then show ?thesis
    using assms(2) by (simp add: verifyChainSegment_def demo_lines verify_line_def link sd')
qed

lemma demo_live:
  "\<exists>v. verifySegmentedChain demo_env ''collector'' since [] (Some demo_file) = Inr v \<and> cv_tip v = Some demo_tip
     \<and> (cv_foundSince v \<longleftrightarrow> since = Some demo_tip)"
proof -
  obtain sd' where "verifyChainSegment demo_env ''collector'' since (Some demo_file)
      (genesis_seed\<lparr>sd_allowTornTail := True, sd_anchorFirst := False\<rparr>) = Inr (1, sd')"
    "sd_prev sd' = demo_tip" "sd_foundSince sd' \<longleftrightarrow> since = Some demo_tip"
    using demo_line_verified [of "genesis_seed\<lparr>sd_allowTornTail := True, sd_anchorFirst := False\<rparr>" since]
    by (auto simp: genesis_seed_def)
  then show ?thesis by (simp add: verifySegmentedChain_def verdict_of_def)
qed

lemma demo_sealed:
  "\<exists>v. verifySegmentedChain demo_env ''collector'' since [(1, demo_file)] None = Inr v \<and> cv_tip v = Some demo_tip"
proof -
  obtain sd' where "verifyChainSegment demo_env ''collector'' since (Some demo_file)
      (genesis_seed\<lparr>sd_allowTornTail := False, sd_anchorFirst := False\<rparr>) = Inr (1, sd')" "sd_prev sd' = demo_tip"
    using demo_line_verified [of "genesis_seed\<lparr>sd_allowTornTail := False, sd_anchorFirst := False\<rparr>" since]
    by (auto simp: genesis_seed_def)
  then show ?thesis by (simp add: verifySegmentedChain_def verifyChainSegment_def verdict_of_def)
qed

lemma demo_records: "all_records demo_env [] (Some demo_file) = [demo_record]"
  "all_records demo_env [(1, demo_file)] None = [demo_record]" "sized demo_record"
  by (simp_all add: all_records_def file_records_def demo_lines sized_def demo_record_def demo_body_def)


theorem no_rewind_verdict_witness:
  "cmd_verdict (Some demo_tip) '''' (verifySegmentedChain demo_env ''collector'' (Some demo_tip) [] (Some demo_file))
    \<and> (prefix (map chained [demo_record]) (map chained [demo_record]) \<or>
       sha_broken demo_env (set (hashed demo_env ''collector'' zeroHash [demo_record]) \<union>
                            set (hashed demo_env ''collector'' zeroHash [demo_record])))"
proof -
  obtain v where v: "verifySegmentedChain demo_env ''collector'' None [] (Some demo_file) = Inr v" "cv_tip v = Some demo_tip"
    using demo_live by blast
  obtain v' where v': "verifySegmentedChain demo_env ''collector'' (Some demo_tip) [] (Some demo_file) = Inr v'" "cv_foundSince v'"
    using demo_live by blast
  have ok: "cmd_verdict (Some demo_tip) '''' (verifySegmentedChain demo_env ''collector'' (Some demo_tip) [] (Some demo_file))"
    by (simp add: v' cmd_verdict_def)
  have "prefix (map chained [demo_record]) (map chained [demo_record]) \<or>
     sha_broken demo_env (set (hashed demo_env ''collector'' zeroHash [demo_record]) \<union>
                          set (hashed demo_env ''collector'' zeroHash [demo_record]))"
    by (rule no_rewind_verdict [OF v(1) _ v(2) ok]) (simp_all add: unpruned_def demo_records)
  with ok show ?thesis by simp
qed

end
