(* ===== verification/Audit_Log.thy ===== *)
theory Audit_Log
  imports Audit_Verify "HOL-Library.Multiset"
begin

text \<open>
  The writer of the audit chains (\<open>auditLog\<close> of \<^verbatim>\<open>src/collector/main.go\<close>): opening a chain,
  appending a record, sealing the live file as a numbered segment and pruning old
  segments. Every call into the file system can fail, and a write can stop half way; which
  calls fail is a parameter of each operation.
\<close>

section \<open>Names of segments\<close>

definition pad6 :: "nat \<Rightarrow> string" where
  "pad6 n = replicate (6 - length (itoa n)) CHR ''0'' @ itoa n"

definition segment_name :: "string \<Rightarrow> nat \<Rightarrow> string" where
  "segment_name base n = base @ ''.'' @ pad6 n"

text \<open>The entries of a directory are names, with a flag for directories.\<close>

definition segment_number :: "string \<Rightarrow> string \<times> bool \<Rightarrow> nat option" where
  "segment_number base e =
     (case e of (name, isDir) \<Rightarrow>
        if isDir \<or> \<not> hasPrefix name (base @ ''.'') then None
        else map_option unat (ParseUint64 (drop (length (base @ ''.'')) name)))"

definition listSegments :: "string \<Rightarrow> (string \<times> bool) list \<Rightarrow> nat list" where
  "listSegments base ents = sort (List.map_filter (segment_number base) ents)"

section \<open>The files of a chain\<close>

text \<open>
  The live file, if it exists, and the sealed segments in the order of their numbers. An
  open file stays the same file when it is renamed: the handle of the log is on the live
  file, or on a segment whose renaming could not be undone.
\<close>

record chain_fs =
  cf_live :: "string option"
  cf_segs :: "(nat \<times> string) list"

datatype handle = Live | Sealed nat

fun handle_text :: "handle \<Rightarrow> chain_fs \<Rightarrow> string" where
  "handle_text Live fs = (case cf_live fs of None \<Rightarrow> '''' | Some t \<Rightarrow> t)"
| "handle_text (Sealed n) fs = (case map_of (cf_segs fs) n of None \<Rightarrow> '''' | Some t \<Rightarrow> t)"

fun set_text :: "handle \<Rightarrow> string \<Rightarrow> chain_fs \<Rightarrow> chain_fs" where
  "set_text Live t fs = fs\<lparr>cf_live := Some t\<rparr>"
| "set_text (Sealed n) t fs = fs\<lparr>cf_segs := map (\<lambda>(m, b). (m, if m = n then t else b)) (cf_segs fs)\<rparr>"

text \<open>\<open>os.Rename\<close> onto the name of segment \<open>n\<close> replaces a segment of that number.\<close>

definition put_seg :: "nat \<Rightarrow> string \<Rightarrow> (nat \<times> string) list \<Rightarrow> (nat \<times> string) list" where
  "put_seg n t segs = filter (\<lambda>(m, b). m < n) segs @ [(n, t)] @ filter (\<lambda>(m, b). n < m) segs"

definition drop_seg :: "nat \<Rightarrow> (nat \<times> string) list \<Rightarrow> (nat \<times> string) list" where
  "drop_seg n segs = filter (\<lambda>(m, b). m \<noteq> n) segs"

definition nextSegNum :: "chain_fs \<Rightarrow> nat" where
  "nextSegNum fs = (if cf_segs fs = [] then 1 else fst (last (cf_segs fs)) + 1)"

section \<open>Opening a chain\<close>

definition repairTornTail :: "string option \<Rightarrow> string option" where
  "repairTornTail live =
     (case live of
        None \<Rightarrow> None
      | Some b \<Rightarrow>
          if b = '''' \<or> last b = newline then Some b
          else Some (case LastIndex b [newline] of None \<Rightarrow> '''' | Some i \<Rightarrow> take (i + 1) b))"

text \<open>The last non-blank line decides; a file that cannot be read is \<open>None\<close>.\<close>

definition lastChainHash :: "audit_env \<Rightarrow> string option \<Rightarrow> u8 list option" where
  "lastChainHash A content =
     (case content of
        None \<Rightarrow> None
      | Some data \<Rightarrow>
          (case find (\<lambda>l. l \<noteq> '''') (map trimSpace (rev (split_on newline (trimSpace data)))) of
             None \<Rightarrow> None
           | Some ln \<Rightarrow>
               (case ae_unmarshal A ln of
                  None \<Rightarrow> None
                | Some r \<Rightarrow>
                    (case hex_decode (ar_hash r) of
                       None \<Rightarrow> None
                     | Some h \<Rightarrow> if length h \<noteq> 32 then None else Some h))))"

text \<open>\<open>readable\<close> tells which files can be read: the live file (\<open>None\<close>) and the segments.\<close>

definition lastChainTip :: "audit_env \<Rightarrow> (nat option \<Rightarrow> bool) \<Rightarrow> chain_fs \<Rightarrow> u8 list option" where
  "lastChainTip A readable fs =
     (case lastChainHash A (if readable None then cf_live fs else None) of
        Some h \<Rightarrow> Some h
      | None \<Rightarrow>
          (case List.map_filter (\<lambda>(n, b). lastChainHash A (if readable (Some n) then Some b else None))
                  (rev (cf_segs fs)) of
             [] \<Rightarrow> None
           | h # _ \<Rightarrow> Some h))"

text \<open>
  \<open>auditSegmentConfig\<close>: the two variables of the environment as \<open>strconv\<close> parses them,
  \<open>None\<close> if unset or malformed.
\<close>

definition auditSegmentConfig :: "int option \<Rightarrow> int option \<Rightarrow> nat \<times> nat" where
  "auditSegmentConfig bytes keep =
     (case bytes of Some n \<Rightarrow> if n > 0 then nat n else 0 | None \<Rightarrow> 0,
      case keep of Some n \<Rightarrow> if n \<ge> 1 then nat n else 1 | None \<Rightarrow> 1)"

record audit_log =
  al_fs :: chain_fs
  al_handle :: handle
  al_prev :: "u8 list"
  al_seq :: u64
  al_segNext :: nat
  al_domain :: string
  al_rotateBytes :: nat
  al_segKeep :: nat

text \<open>
  What can go wrong while opening: the repair of a torn tail (only logged), reading the
  files, creating the live file, loading the key.
\<close>

record open_io =
  oi_repair :: bool
  oi_readable :: "nat option \<Rightarrow> bool"
  oi_open :: bool
  oi_key :: bool

definition openAuditLog ::
  "audit_env \<Rightarrow> open_io \<Rightarrow> string \<Rightarrow> int option \<Rightarrow> int option \<Rightarrow> chain_fs \<Rightarrow> audit_log option"
where
  "openAuditLog A io domain bytes keep fs =
     (let fs1 = (if oi_repair io then fs\<lparr>cf_live := repairTornTail (cf_live fs)\<rparr> else fs);
          prev = (case lastChainTip A (oi_readable io) fs1 of None \<Rightarrow> zeroHash | Some h \<Rightarrow> h)
      in if \<not> oi_open io then None
         else
           let fs2 = fs1\<lparr>cf_live := Some (handle_text Live fs1)\<rparr>
           in if \<not> oi_key io then None
              else Some \<lparr>al_fs = fs2, al_handle = Live, al_prev = prev, al_seq = 0, al_segNext = nextSegNum fs2,
                         al_domain = domain, al_rotateBytes = fst (auditSegmentConfig bytes keep),
                         al_segKeep = snd (auditSegmentConfig bytes keep)\<rparr>)"

section \<open>Rotation\<close>

text \<open>
  Which calls of one \<open>append\<close> succeed. \<open>io_write\<close> is \<open>None\<close> for a complete write, and
  \<open>Some k\<close> for one that fails after \<open>k\<close> bytes.
\<close>

record append_io =
  io_stat :: bool
  io_seal_sync :: bool
  io_rename :: bool
  io_open :: bool
  io_unrename :: bool
  io_remove :: "nat \<Rightarrow> bool"
  io_restat :: bool
  io_write :: "nat option"
  io_sync :: bool
  io_truncate :: bool

definition pruneSegments :: "(nat \<Rightarrow> bool) \<Rightarrow> nat \<Rightarrow> (nat \<times> string) list \<Rightarrow> (nat \<times> string) list" where
  "pruneSegments remove keep segs =
     (if length segs \<le> keep then segs
      else filter (\<lambda>(n, b). \<not> remove n) (take (length segs - keep) segs) @ drop (length segs - keep) segs)"

definition rotate :: "append_io \<Rightarrow> audit_log \<Rightarrow> bool \<times> audit_log" where
  "rotate io L =
     (let fs = al_fs L; n = al_segNext L
      in if \<not> io_seal_sync io then (False, L)
         else
           (case cf_live fs of
              None \<Rightarrow> (False, L)
            | Some t \<Rightarrow>
                if \<not> io_rename io then (False, L)
                else
                  let fs1 = fs\<lparr>cf_live := None, cf_segs := put_seg n t (cf_segs fs)\<rparr>
                  in if \<not> io_open io then
                       (if io_unrename io
                        then (False, L\<lparr>al_fs := fs1\<lparr>cf_live := Some t, cf_segs := drop_seg n (cf_segs fs1)\<rparr>\<rparr>)
                        else (False, L\<lparr>al_fs := fs1,
                                       al_handle := (if al_handle L = Live then Sealed n else al_handle L)\<rparr>))
                     else
                       (True, L\<lparr>al_fs := fs1\<lparr>cf_live := Some '''',
                                             cf_segs := pruneSegments (io_remove io) (al_segKeep L) (cf_segs fs1)\<rparr>,
                                al_handle := Live, al_segNext := n + 1\<rparr>)))"

section \<open>Appending\<close>

definition string_of :: "u8 list \<Rightarrow> string" where
  "string_of bs = map (\<lambda>b. char_of (unat b)) bs"

definition record_body :: "u64 \<Rightarrow> prov_event \<Rightarrow> audit_log \<Rightarrow> audit_record" where
  "record_body now ev L =
     \<lparr>ar_seq = al_seq L + 1, ar_ts = now, ar_cgroup_id = pe_cgroup_id ev, ar_pid = pe_pid ev,
      ar_comm = toValidUTF8 (string_of (pe_comm ev)), ar_hook = toValidUTF8 (pe_hook ev),
      ar_decision = toValidUTF8 (pe_decision ev), ar_mode = toValidUTF8 (pe_mode ev),
      ar_prev_hash = hex_encode (al_prev L), ar_hash = '''', ar_sig = ''''\<rparr>"

definition new_record :: "audit_env \<Rightarrow> u64 \<Rightarrow> prov_event \<Rightarrow> audit_log \<Rightarrow> audit_record" where
  "new_record A now ev L =
     (let r = record_body now ev L; sum = digest A (al_domain L) (al_prev L) r
      in r\<lparr>ar_hash := hex_encode sum, ar_sig := hex_encode (ae_sign A sum)\<rparr>)"

definition rollback :: "append_io \<Rightarrow> nat \<Rightarrow> audit_log \<Rightarrow> audit_log" where
  "rollback io off L =
     (if io_truncate io
      then L\<lparr>al_fs := set_text (al_handle L) (take off (handle_text (al_handle L) (al_fs L))) (al_fs L)\<rparr>
      else L)"

text \<open>The write, the sync and the commit of the in-memory tip, with \<open>off\<close> the size before.\<close>

definition write_record :: "audit_env \<Rightarrow> append_io \<Rightarrow> nat \<Rightarrow> audit_record \<Rightarrow> audit_log \<Rightarrow> bool \<times> audit_log" where
  "write_record A io off r L =
     (let line = ae_marshal A r @ [newline];
          written = (case io_write io of None \<Rightarrow> line | Some k \<Rightarrow> take k line);
          L1 = L\<lparr>al_fs := set_text (al_handle L) (handle_text (al_handle L) (al_fs L) @ written) (al_fs L)\<rparr>
      in if io_write io \<noteq> None \<or> \<not> io_sync io then (False, rollback io off L1)
         else (True, L1\<lparr>al_seq := ar_seq r, al_prev := digest A (al_domain L) (al_prev L) r\<rparr>))"

definition append_record :: "audit_env \<Rightarrow> append_io \<Rightarrow> u64 \<Rightarrow> prov_event \<Rightarrow> audit_log \<Rightarrow> bool \<times> audit_log" where
  "append_record A io now ev L =
     (let r = new_record A now ev L; off = length (handle_text (al_handle L) (al_fs L))
      in if \<not> io_stat io then (False, L)
         else if al_rotateBytes L > 0 \<and> off \<ge> al_rotateBytes L then
           (case rotate io L of
              (False, L1) \<Rightarrow> write_record A io off r L1
            | (True, L1) \<Rightarrow>
                if io_restat io
                then write_record A io (length (handle_text (al_handle L1) (al_fs L1))) r L1
                else (False, L1))
         else write_record A io off r L)"

section \<open>What the log relies on\<close>

text \<open>
  Ed25519 signatures of the log's key verify, and SHA-256 has 32 bytes. The JSON text of a
  record with valid UTF-8 strings is one line in braces that reads back as the record,
  and no shorter beginning of it is valid JSON.
\<close>

definition crypto_ok :: "audit_env \<Rightarrow> bool" where
  "crypto_ok A \<longleftrightarrow> (\<forall>m. ae_verify A m (ae_sign A m)) \<and> (\<forall>m. length (ae_sha256 A m) = 32)"

definition valid_record :: "audit_record \<Rightarrow> bool" where
  "valid_record r \<longleftrightarrow>
     list_all valid_utf8 [ar_comm r, ar_hook r, ar_decision r, ar_mode r, ar_prev_hash r, ar_hash r, ar_sig r]"

definition json_text :: "string \<Rightarrow> bool" where
  "json_text t \<longleftrightarrow> t \<noteq> [] \<and> hd t = CHR ''{'' \<and> last t = CHR ''}'' \<and> newline \<notin> set t"

definition json_ok :: "audit_env \<Rightarrow> bool" where
  "json_ok A \<longleftrightarrow>
     (\<forall>r. valid_record r \<longrightarrow>
        json_text (ae_marshal A r) \<and> ae_unmarshal A (ae_marshal A r) = Some r \<and>
        (\<forall>p. strict_prefix p (ae_marshal A r) \<longrightarrow> ae_unmarshal A p = None))"

text \<open>Records the verifier can read back: with valid strings and within its line buffer.\<close>

definition storable :: "audit_env \<Rightarrow> audit_record \<Rightarrow> bool" where
  "storable A r \<longleftrightarrow> valid_record r \<and> length (ae_marshal A r) < max_line"

definition render :: "audit_env \<Rightarrow> audit_record list \<Rightarrow> string" where
  "render A rs = concat (map (\<lambda>r. ae_marshal A r @ [newline]) rs)"

lemma render_simps [simp]:
  "render A [] = []" "render A (r # rs) = ae_marshal A r @ newline # render A rs"
  "render A (rs @ rs') = render A rs @ render A rs'"
  by (simp_all add: render_def)

lemma storableD:
  assumes "json_ok A" "storable A r"
  shows "json_text (ae_marshal A r)" "ae_unmarshal A (ae_marshal A r) = Some r" "newline \<notin> set (ae_marshal A r)"
    "length (ae_marshal A r) < max_line"
  using assms by (auto simp: json_ok_def storable_def json_text_def)

lemma json_text_trim: "json_text t \<Longrightarrow> trimSpace t = t"
  by (rule trimSpace_graphic) (auto simp: json_text_def graphic_def)

lemma read_line_marshal: "json_ok A \<Longrightarrow> storable A r \<Longrightarrow> read_line A (ae_marshal A r) = Rec r"
  using storableD(1,2) [of A r] by (auto simp: read_line_def json_text_trim json_text_def Let_def)

lemma split_render:
  assumes "\<forall>r\<in>set rs. newline \<notin> set (ae_marshal A r)" "newline \<notin> set s"
  shows "split_on newline (render A rs @ s) = map (ae_marshal A) rs @ [s]"
  using assms(1) by (induction rs) (simp_all add: split_on_append split_on_no_sep assms(2))

text \<open>A file of rendered records reads back as these records.\<close>

lemma scanned_render:
  assumes "json_ok A" "\<forall>r\<in>set rs. storable A r"
  shows "scanned (render A rs) = (map (ae_marshal A) rs, True)"
proof -
  have "scan_lines (render A rs) = map (ae_marshal A) rs"
    using split_render [of rs A "[]"] storableD(3) [OF assms(1)] assms(2) by (simp add: scan_lines_def)
  moreover have "\<forall>l\<in>set (map (ae_marshal A) rs). length l < max_line"
    using storableD(4) [OF assms(1)] assms(2) by simp
  ultimately show ?thesis by (simp add: scanned_def list_all_iff takeWhile_eq_all_conv [THEN iffD2])
qed

lemma lines_render:
  assumes "json_ok A" "\<forall>r\<in>set rs. storable A r"
  shows "map (read_line A) (fst (scanned (render A rs))) = map Rec rs"
  using assms(2) by (simp add: scanned_render [OF assms] read_line_marshal [OF assms(1)])

lemma records_render:
  "json_ok A \<Longrightarrow> \<forall>r\<in>set rs. storable A r \<Longrightarrow> file_records A (Some (render A rs)) = rs"
  by (simp add: file_records_def lines_render)

section \<open>The verifier accepts what it should\<close>

lemma verify_line_complete:
  assumes "record_ok A domain (sd_prev sd) r" "sc_torn st = False"
    and "(if sc_first st \<and> sd_anchorFirst (sc_seed st) then anchor_record r (sc_seed st)
          else link_record r (sc_seed st)) = Inr sd"
  shows "\<exists>sd'. verify_line A domain since (Rec r) st = Inr (st\<lparr>sc_n := sc_n st + 1, sc_seed := sd', sc_first := False\<rparr>)
    \<and> sd_prev sd' = digest A domain (sd_prev sd) r \<and> sd_expectSeq sd' = sd_expectSeq sd"
proof -
  obtain sd' where sd': "check_body A domain since r sd = Inr sd'"
    using check_body_complete [OF assms(1)] by blast
  then show ?thesis
    using check_body_sound [OF sd'] assms(2,3) by (intro exI [of _ sd']) (simp add: verify_line_def)
qed

lemma verify_lines_complete:
  assumes "chain_from A domain (sd_prev (sc_seed st), sd_expectSeq (sc_seed st)) rs = Some (t, m)"
    and "sc_torn st = False" "unanchored st"
  shows "\<exists>st'. verify_lines A domain since (map Rec rs) st = Inr st' \<and> sc_torn st' = False"
  using assms
proof (induction rs arbitrary: st)
  case (Cons r rs)
  let ?sd = "(sc_seed st)\<lparr>sd_expectSeq := ar_seq r\<rparr>"
  have ok: "ar_seq r = 1 \<or> ar_seq r = sd_expectSeq (sc_seed st) + 1" "hexEqual (ar_prev_hash r) (sd_prev (sc_seed st))"
    "record_ok A domain (sd_prev ?sd) r"
    and rest: "chain_from A domain (digest A domain (sd_prev ?sd) r, ar_seq r) rs = Some (t, m)"
    using Cons.prems(1) by (auto split: if_splits)
  have "link_record r (sc_seed st) = Inr ?sd" using ok(1,2) by (simp add: link_record_iff)
  then have "(if sc_first st \<and> sd_anchorFirst (sc_seed st) then anchor_record r (sc_seed st)
      else link_record r (sc_seed st)) = Inr ?sd" using Cons.prems(3) by (auto simp: unanchored_def)
  from verify_line_complete [OF ok(3) Cons.prems(2) this] obtain sd' where
    sd': "verify_line A domain since (Rec r) st = Inr (st\<lparr>sc_n := sc_n st + 1, sc_seed := sd', sc_first := False\<rparr>)"
    "sd_prev sd' = digest A domain (sd_prev ?sd) r" "sd_expectSeq sd' = ar_seq r" by auto
  show ?case
    using Cons.IH [of "st\<lparr>sc_n := sc_n st + 1, sc_seed := sd', sc_first := False\<rparr>"] rest Cons.prems(2)
    by (simp add: sd' unanchored_def)
qed simp

lemma segment_render:
  assumes "json_ok A" "\<forall>r\<in>set rs. storable A r"
    and "verify_lines A domain since (map Rec rs) \<lparr>sc_n = 0, sc_seed = sd, sc_first = True, sc_torn = False\<rparr> = Inr st"
    and "sc_torn st = False"
  shows "verifyChainSegment A domain since (Some (render A rs)) sd = Inr (sc_n st, sc_seed st)"
proof -
  have "snd (scanned (render A rs))" by (simp add: scanned_render [OF assms(1,2)])
  then show ?thesis
    unfolding verifyChainSegment_def option.case lines_render [OF assms(1,2)] assms(3) by (simp add: assms(4))
qed

lemma chain_length:
  assumes "crypto_ok A" "length p = 32" "chain_from A domain (p, k) rs = Some (t, m)"
  shows "length t = 32"
  using assms(2,3)
proof (induction rs arbitrary: p k)
  case (Cons r rs)
  have "length (digest A domain p r) = 32" using assms(1) by (simp add: digest_def crypto_ok_def)
  then show ?case using Cons.IH Cons.prems(2) by (auto split: if_splits)
qed simp

lemma segment_complete:
  assumes "json_ok A" "\<forall>r\<in>set rs. storable A r" "\<not> sd_anchorFirst sd"
    and "chain_from A domain (sd_prev sd, sd_expectSeq sd) rs = Some (t, m)"
  shows "\<exists>sd'. verifyChainSegment A domain since (Some (render A rs)) sd = Inr (length rs, sd')
    \<and> sd_prev sd' = t \<and> sd_expectSeq sd' = m"
proof -
  let ?st = "\<lparr>sc_n = 0, sc_seed = sd, sc_first = True, sc_torn = False\<rparr>"
  obtain st' where st': "verify_lines A domain since (map Rec rs) ?st = Inr st'" "sc_torn st' = False"
    using verify_lines_complete [of A domain ?st rs t m since] assms(3,4) by (auto simp: unanchored_def)
  note v = segment_render [OF assms(1,2) st']
  from v segment_sound [OF v assms(3)] show ?thesis
    using assms(4) by (simp add: records_render [OF assms(1,2)])
qed

lemma segment_complete_anchored:
  assumes "json_ok A" "\<forall>r\<in>set rs. storable A r" "sd_anchorFirst sd" "rs \<noteq> []" "length p = 32"
    and "chain_from A domain (p, k) rs = Some (t, m)"
  shows "\<exists>sd'. verifyChainSegment A domain since (Some (render A rs)) sd = Inr (length rs, sd')
    \<and> sd_prev sd' = t \<and> sd_expectSeq sd' = m"
proof -
  obtain r rs' where rs: "rs = r # rs'" using assms(4) by (cases rs) auto
  let ?st = "\<lparr>sc_n = 0, sc_seed = sd, sc_first = True, sc_torn = False\<rparr>"
  let ?sd = "sd\<lparr>sd_prev := p, sd_expectSeq := ar_seq r\<rparr>"
  have ok: "record_ok A domain (sd_prev ?sd) r" "hexEqual (ar_prev_hash r) p"
    and rest: "chain_from A domain (digest A domain p r, ar_seq r) rs' = Some (t, m)"
    using assms(6) by (auto simp: rs split: if_splits)
  have "anchor_record r sd = Inr ?sd" using ok(2) assms(5) by (simp add: anchor_record_def hexEqual_def)
  then obtain sd1 where sd1: "verify_line A domain since (Rec r) ?st =
      Inr (?st\<lparr>sc_n := 1, sc_seed := sd1, sc_first := False\<rparr>)"
    "sd_prev sd1 = digest A domain p r" "sd_expectSeq sd1 = ar_seq r"
    using verify_line_complete [OF ok(1), of ?st since] assms(3) by auto
  let ?st1 = "?st\<lparr>sc_n := 1, sc_seed := sd1, sc_first := False\<rparr>"
  obtain st' where st': "verify_lines A domain since (map Rec rs') ?st1 = Inr st'" "sc_torn st' = False"
    using verify_lines_complete [of A domain ?st1 rs' t m since] rest by (auto simp: unanchored_def sd1)
  have "verifyChainSegment A domain since (Some (render A rs)) sd = Inr (sc_n st', sc_seed st')"
    using st' sd1(1) by (intro segment_render [OF assms(1,2)]) (simp_all add: rs)
  moreover have "sc_n st' = length rs" "sd_prev (sc_seed st') = t" "sd_expectSeq (sc_seed st') = m"
    using verify_lines_sound [OF st'(1)] rest by (simp_all add: unanchored_def sd1 rs)
  ultimately show ?thesis by simp
qed

text \<open>Segments \<open>rss\<close>, none empty, with their numbers.\<close>

lemma segments_complete:
  assumes "json_ok A" "\<forall>rs\<in>set rss. rs \<noteq> [] \<and> (\<forall>r\<in>set rs. storable A r)" "crypto_ok A"
    and "map snd segs = map (render A) rss" "chain_from A domain (p, k) (concat rss) = Some (t, m)"
    and "length p = 32" "oldest \<and> \<not> unpruned segs \<or> sd_prev sd = p \<and> sd_expectSeq sd = k"
  shows "\<exists>sd'. verify_segments A domain since oldest segs cnt sd = Inr (cnt + length (concat rss), sd')
    \<and> sd_prev sd' = t \<and> sd_expectSeq sd' = m"
  using assms(2,4-7)
proof (induction rss arbitrary: segs p k oldest cnt sd)
  case Nil
  then show ?case by (auto simp: unpruned_def)
next
  case (Cons rs rss)
  from Cons.prems(2) obtain n segs' where segs: "segs = (n, render A rs) # segs'" "map snd segs' = map (render A) rss"
    by (cases segs) auto
  from Cons.prems(3) obtain p1 k1 where c1: "chain_from A domain (p, k) rs = Some (p1, k1)"
    and c2: "chain_from A domain (p1, k1) (concat rss) = Some (t, m)"
    by (auto simp: chain_from_append split: option.splits)
  let ?sd = "sd\<lparr>sd_allowTornTail := False, sd_anchorFirst := oldest \<and> n \<noteq> 1\<rparr>"
  have st: "\<forall>r\<in>set rs. storable A r" and ne: "rs \<noteq> []" using Cons.prems(1) by auto
  obtain sd1 where sd1: "verifyChainSegment A domain since (Some (render A rs)) ?sd = Inr (length rs, sd1)"
    "sd_prev sd1 = p1" "sd_expectSeq sd1 = k1"
  proof (cases "oldest \<and> n \<noteq> 1")
    case True
    then show ?thesis
      using segment_complete_anchored [OF assms(1) st _ ne Cons.prems(4) c1, of ?sd since] that by auto
  next
    case False
    then have "sd_prev sd = p \<and> sd_expectSeq sd = k" using Cons.prems(5) by (auto simp: segs unpruned_def)
    then show ?thesis
      using segment_complete [OF assms(1) st, of ?sd domain p1 k1 since] c1 False that by auto
  qed
  have "length p1 = 32" by (rule chain_length [OF assms(3) Cons.prems(4) c1])
  with Cons.IH [OF _ segs(2) c2, where oldest = False and cnt = "cnt + length rs" and sd = sd1] Cons.prems(1) sd1
  show ?case by (auto simp: segs(1) add.assoc)
qed

section \<open>Chains on disk\<close>

text \<open>
  The files hold the records \<open>rs\<close>, a chain that ends with hash \<open>t\<close> and sequence number \<open>m\<close>.
  \<open>rss\<close> are the records of the segments, \<open>rl\<close> those of the live file, and the chain starts
  after hash \<open>p\<close>, which is genesis unless segments were pruned.
\<close>

definition disk_files ::
  "audit_env \<Rightarrow> string \<Rightarrow> chain_fs \<Rightarrow> audit_record list list \<Rightarrow> audit_record list \<Rightarrow> u8 list \<times> u64 \<Rightarrow> u8 list \<times> u64 \<Rightarrow> bool"
where
  "disk_files A domain fs rss rl start tip \<longleftrightarrow>
     map snd (cf_segs fs) = map (render A) rss \<and> handle_text Live fs = render A rl \<and>
     (\<forall>rs\<in>set rss. rs \<noteq> []) \<and> (\<forall>r\<in>set (concat rss @ rl). storable A r) \<and>
     sorted_wrt (<) (0 # map fst (cf_segs fs)) \<and>
     chain_from A domain start (concat rss @ rl) = Some tip \<and>
     length (fst start) = 32 \<and> (unpruned (cf_segs fs) \<longrightarrow> start = (zeroHash, 0))"

definition chain_on_disk :: "audit_env \<Rightarrow> string \<Rightarrow> chain_fs \<Rightarrow> audit_record list \<Rightarrow> u8 list \<times> u64 \<Rightarrow> bool" where
  "chain_on_disk A domain fs rs tip \<longleftrightarrow>
     (\<exists>rss rl start. rs = concat rss @ rl \<and> disk_files A domain fs rss rl start tip)"

lemma disk_filesI [intro?]:
  "disk_files A domain fs rss rl start tip \<Longrightarrow> chain_on_disk A domain fs (concat rss @ rl) tip"
  unfolding chain_on_disk_def by blast

lemma live_records:
  assumes "json_ok A" "\<forall>r\<in>set rl. storable A r" "handle_text Live fs = render A rl"
  shows "file_records A (cf_live fs) = rl"
proof (cases "cf_live fs")
  case None
  then have "render A rl = []" using assms(3) by simp
  then show ?thesis using None by (cases rl) (simp_all add: file_records_def)
next
  case (Some b)
  then show ?thesis using assms records_render by simp
qed

lemma segs_records:
  assumes "json_ok A" "map snd segs = map (render A) rss" "\<forall>r\<in>set (concat rss). storable A r"
  shows "concat (map (\<lambda>(n, body). file_records A (Some body)) segs) = concat rss"
  using assms(2,3)
proof (induction rss arbitrary: segs)
  case (Cons rs rss)
  then show ?case by (cases segs) (auto simp: records_render [OF assms(1)])
qed simp

lemma disk_records:
  assumes "json_ok A" "chain_on_disk A domain fs rs tip"
  shows "all_records A (cf_segs fs) (cf_live fs) = rs"
  using assms unfolding chain_on_disk_def disk_files_def all_records_def
  by (auto simp: live_records segs_records)

text \<open>The verifier accepts such files, and reports the tip.\<close>

lemma segs_verified:
  assumes "json_ok A" "crypto_ok A" "disk_files A domain fs rss rl start tip"
  obtains sd where "verify_segments A domain since True (cf_segs fs) 0 genesis_seed = Inr (length (concat rss), sd)"
    "chain_from A domain (sd_prev sd, sd_expectSeq sd) rl = Some tip"
proof -
  obtain p k where start: "start = (p, k)" by (cases start)
  note d = assms(3) [unfolded disk_files_def start]
  from d obtain q j where c: "chain_from A domain (p, k) (concat rss) = Some (q, j)"
    "chain_from A domain (q, j) rl = Some tip"
    by (auto simp: chain_from_append split: option.splits)
  have "\<forall>rs\<in>set rss. rs \<noteq> [] \<and> (\<forall>r\<in>set rs. storable A r)" using d by auto
  from segments_complete [OF assms(1) this assms(2) _ c(1), where segs = "cf_segs fs" and oldest = True
      and cnt = 0 and sd = genesis_seed and since = since] d c(2)
  show ?thesis by (auto simp: genesis_seed_def intro: that)
qed

lemma chain_verdict:
  assumes "verify_segments A domain since True segs 0 genesis_seed = Inr (n, sd)"
    and "verifyChainSegment A domain since live (sd\<lparr>sd_allowTornTail := True, sd_anchorFirst := False\<rparr>) = Inr (k, sd')"
  shows "verifySegmentedChain A domain since segs live = Inr (verdict_of (n + k) sd')"
  using assms by (simp add: verifySegmentedChain_def)

lemma disk_verifies:
  assumes "json_ok A" "crypto_ok A" "chain_on_disk A domain fs rs (t, m)"
  shows "\<exists>v. verifySegmentedChain A domain since (cf_segs fs) (cf_live fs) = Inr v
    \<and> cv_count v = length rs \<and> cv_tip v = (if rs = [] then None else Some t)"
proof -
  from assms(3) obtain rss rl start where rs: "rs = concat rss @ rl" and d: "disk_files A domain fs rss rl start (t, m)"
    unfolding chain_on_disk_def by blast
  from segs_verified [OF assms(1,2) d, of since] obtain sd where
    sd: "verify_segments A domain since True (cf_segs fs) 0 genesis_seed = Inr (length (concat rss), sd)"
    "chain_from A domain (sd_prev sd, sd_expectSeq sd) rl = Some (t, m)" .
  note d = d [unfolded disk_files_def]
  let ?sd = "sd\<lparr>sd_allowTornTail := True, sd_anchorFirst := False\<rparr>"
  obtain sd' where sd': "verifyChainSegment A domain since (cf_live fs) ?sd = Inr (length rl, sd')" "sd_prev sd' = t"
  proof (cases "cf_live fs")
    case None
    then have "render A rl = []" using d by simp
    then have "rl = []" by (cases rl) simp_all
    then show ?thesis using that [of ?sd] sd(2) None by (simp add: verifyChainSegment_def)
  next
    case (Some b)
    then show ?thesis
      using segment_complete [OF assms(1), of rl ?sd domain t m since] d sd(2) that by auto
  qed
  have "concat rss @ rl = [] \<longleftrightarrow> length (concat rss) + length rl = 0" by simp
  then show ?thesis
    using chain_verdict [OF sd(1) sd'(1)] sd'(2) by (simp add: verdict_of_def rs del: length_concat)
qed

section \<open>Names and numbers\<close>

lemma dec_value_zeros: "dec_value (replicate k CHR ''0'' @ s) = dec_value s"
  by (induction k) (simp_all add: dec_value_def digit_val_def)

lemma parse_pad6: "n < 2 ^ 64 \<Longrightarrow> map_option unat (ParseUint64 (pad6 n)) = Some n"
proof -
  assume n: "n < 2 ^ 64"
  have "list_all is_digit (pad6 n)" "pad6 n \<noteq> []"
    using itoa_digits [of n] by (auto simp: pad6_def list_all_iff is_digit_def)
  moreover have "dec_value (pad6 n) = n" by (simp add: pad6_def dec_value_zeros dec_value_itoa)
  ultimately show ?thesis using n by (simp add: ParseUint64_def unat_of_nat_small)
qed

lemma segment_number_name: "n < 2 ^ 64 \<Longrightarrow> segment_number base (segment_name base n, False) = Some n"
  using parse_pad6 [of n] hasPrefix_append [of "base @ ''.''" "pad6 n"]
  by (simp add: segment_number_def segment_name_def)

text \<open>
  The names of segments round-trip. In a directory that holds the segments of a chain
  among other entries that do not look like segments of it, in any order, \<open>listSegments\<close>
  returns exactly the numbers of the segments, ascending.
\<close>

theorem list_segments_exact:
  assumes "mset ents = mset (map (\<lambda>n. (segment_name base n, False)) ns @ others)"
    and "\<forall>n\<in>set ns. n < 2 ^ 64" "\<forall>e\<in>set others. segment_number base e = None"
  shows "listSegments base ents = sort ns"
proof -
  let ?f = "segment_number base"
  have mf: "mset (List.map_filter ?f xs) = image_mset (the \<circ> ?f) (filter_mset (\<lambda>e. ?f e \<noteq> None) (mset xs))" for xs
    by (simp add: List.map_filter_def)
  have "mset (List.map_filter ?f ents) = mset (List.map_filter ?f (map (\<lambda>n. (segment_name base n, False)) ns @ others))"
    unfolding mf assms(1) ..
  moreover have "List.map_filter ?f (map (\<lambda>n. (segment_name base n, False)) ns) = ns"
    using assms(2) by (induction ns) (simp_all add: map_filter_simps segment_number_name)
  moreover have "List.map_filter ?f others = []"
    using assms(3) by (induction others) (simp_all add: map_filter_simps)
  moreover have "List.map_filter ?f (xs @ ys) = List.map_filter ?f xs @ List.map_filter ?f ys" for xs ys
    by (simp add: List.map_filter_def)
  ultimately have "mset (List.map_filter ?f ents) = mset ns" by simp
  then show ?thesis unfolding listSegments_def by (metis mset_sort properties_for_sort sorted_sort)
qed

theorem list_segments_exact_witness:
  "listSegments ''a.jsonl'' [(''a.jsonl.000010'', False), (''a.jsonl'', False), (''a.jsonl.000002'', False)] = sort [10, 2]"
proof (rule list_segments_exact)
  have pad: "segment_name ''a.jsonl'' 10 = ''a.jsonl.000010''" "segment_name ''a.jsonl'' 2 = ''a.jsonl.000002''" by code_simp+
  show "mset [(''a.jsonl.000010'', False), (''a.jsonl'', False), (''a.jsonl.000002'', False)] =
      mset (map (\<lambda>n. (segment_name ''a.jsonl'' n, False)) [10, 2] @ [(''a.jsonl'', False)])"
    by (simp add: pad)
qed (simp_all add: segment_number_def hasPrefix_def)

end
