(* ===== verification/Audit_Durability.thy ===== *)
theory Audit_Durability
  imports Audit_Log
begin

text \<open>
  The audit log keeps a chain that verifies: the invariant between the open log and its
  files, every operation keeps it whichever calls fail, opening restores it after power
  loss, and what this means for the verifier and the boot gate.
\<close>

section \<open>The invariant of an open log\<close>

fun handle_ok :: "handle \<Rightarrow> nat \<Rightarrow> chain_fs \<Rightarrow> bool" where
  "handle_ok Live next fs \<longleftrightarrow> cf_live fs \<noteq> None \<and> 1 \<le> next \<and> (\<forall>n\<in>set (map fst (cf_segs fs)). n < next)"
| "handle_ok (Sealed n) next fs \<longleftrightarrow> cf_live fs = None \<and> cf_segs fs \<noteq> [] \<and> fst (last (cf_segs fs)) = n"

definition log_inv :: "audit_env \<Rightarrow> audit_log \<Rightarrow> audit_record list \<Rightarrow> bool" where
  "log_inv A L rs \<longleftrightarrow>
     (\<exists>m. chain_on_disk A (al_domain L) (al_fs L) rs (al_prev L, m) \<and> (al_seq L = m \<or> al_seq L = 0)) \<and>
     handle_ok (al_handle L) (al_segNext L) (al_fs L) \<and> 1 \<le> al_segKeep L"

text \<open>The text behind the handle, and writing it back.\<close>

lemma sorted_segs_last:
  assumes "sorted_wrt (<) (map fst segs)" "segs \<noteq> []" "fst (last segs) = n"
  obtains segs' b where "segs = segs' @ [(n, b)]" "\<forall>m\<in>set (map fst segs'). m < (n :: nat)"
proof (cases segs rule: rev_cases)
  case (snoc segs' s)
  then show ?thesis using assms that [of segs' "snd s"] by (cases s) (auto simp: sorted_wrt_append)
qed (use assms in simp)

lemma map_of_last: "\<forall>m\<in>set (map fst segs). m < (n :: nat) \<Longrightarrow> map_of (segs @ [(n, b)]) n = Some b"
  by (induction segs) auto

lemma set_last:
  "\<forall>m\<in>set (map fst segs). m < (n :: nat) \<Longrightarrow>
   map (\<lambda>(m, b). (m, if m = n then t else b)) (segs @ [(n, b)]) = segs @ [(n, t)]"
  by (induction segs) auto

lemma handle_cases:
  assumes "sorted_wrt (<) (map fst (cf_segs fs))" "handle_ok h next fs"
  obtains "h = Live" "cf_live fs \<noteq> None"
    | n segs b where "h = Sealed n" "cf_segs fs = segs @ [(n, b)]" "\<forall>m\<in>set (map fst segs). m < n"
  using assms by (cases h) (auto elim: sorted_segs_last)

lemma set_handle_text:
  assumes "sorted_wrt (<) (map fst (cf_segs fs))" "handle_ok h next fs"
  shows "set_text h (handle_text h fs) fs = fs"
  using assms by (cases rule: handle_cases) (auto simp: map_of_last set_last simp del: map_append map_of_append)

lemma handle_set_text:
  assumes "sorted_wrt (<) (map fst (cf_segs fs))" "handle_ok h next fs"
  shows "handle_text h (set_text h t fs) = t"
  using assms by (cases rule: handle_cases) (auto simp: map_of_last set_last simp del: map_append map_of_append)

lemma set_set_text: "set_text h t (set_text h t' fs) = set_text h t fs"
  by (cases h) (simp_all add: case_prod_beta comp_def cong: if_cong)

lemma extend_disk:
  assumes "chain_on_disk A domain fs rs tip" "handle_ok h next fs"
    and "chain_from A domain tip [r] = Some tip'" "storable A r"
  shows "chain_on_disk A domain (set_text h (handle_text h fs @ ae_marshal A r @ [newline]) fs) (rs @ [r]) tip'"
proof -
  from assms(1) obtain rss rl start where rs: "rs = concat rss @ rl" and d: "disk_files A domain fs rss rl start tip"
    unfolding chain_on_disk_def by blast
  note d = d [unfolded disk_files_def]
  have c: "chain_from A domain start (concat rss @ rl @ [r]) = Some tip'"
    using d assms(3) chain_from_append [of A domain start "concat rss @ rl" "[r]"] by simp
  show ?thesis
  proof (cases h)
    case Live
    then have "disk_files A domain (set_text h (handle_text h fs @ ae_marshal A r @ [newline]) fs) rss (rl @ [r]) start tip'"
      using d c assms(4) by (auto simp: disk_files_def)
    then show ?thesis using disk_filesI by (fastforce simp: rs)
  next
    case (Sealed n)
    obtain segs b where segs: "cf_segs fs = segs @ [(n, b)]" "\<forall>m\<in>set (map fst segs). m < n"
      using sorted_segs_last [of "cf_segs fs" n] d assms(2) Sealed by auto
    from d segs obtain rss0 rs0 where rss: "rss = rss0 @ [rs0]" "b = render A rs0" "map snd segs = map (render A) rss0"
      by (cases rss rule: rev_cases) auto
    have "render A rl = []" using d assms(2) Sealed by simp
    then have rl: "rl = []" by (cases rl) simp_all
    have "set_text h (handle_text h fs @ ae_marshal A r @ [newline]) fs =
        fs\<lparr>cf_segs := segs @ [(n, render A (rs0 @ [r]))]\<rparr>"
      using segs by (simp add: Sealed map_of_last set_last rss del: map_append map_of_append)
    then have "disk_files A domain (set_text h (handle_text h fs @ ae_marshal A r @ [newline]) fs)
        (rss0 @ [rs0 @ [r]]) [] start tip'"
      using d c assms(2,4) by (auto simp: disk_files_def rss rl segs Sealed unpruned_def hd_append)
    then show ?thesis using disk_filesI by (fastforce simp: rs rss rl)
  qed
qed

section \<open>Every operation keeps the invariant\<close>

lemma valid_new_record: "valid_record (new_record A now ev L)"
  by (simp add: valid_record_def new_record_def Let_def record_body_def)

lemma digest_new_record [simp]:
  "digest A domain p (r\<lparr>ar_hash := h, ar_sig := g\<rparr>) = digest A domain p r"
  by (simp add: digest_def canonical_def)

lemma new_record_links:
  fixes now :: u64 and ev :: prov_event
  assumes "crypto_ok A" "al_seq L = m \<or> al_seq L = 0"
  defines "r \<equiv> new_record A now ev L"
  shows "chain_from A (al_domain L) (al_prev L, m) [r] = Some (digest A (al_domain L) (al_prev L) r, ar_seq r)"
proof -
  have "ar_seq r = 1 \<or> ar_seq r = m + 1" using assms(2) by (auto simp: r_def new_record_def Let_def record_body_def)
  moreover have "hexEqual (ar_prev_hash r) (al_prev L)"
    by (simp add: r_def new_record_def Let_def record_body_def hexEqual_def)
  moreover have "record_ok A (al_domain L) (al_prev L) r"
    using assms(1) by (simp add: r_def new_record_def Let_def record_ok_def hexEqual_def crypto_ok_def)
  ultimately show ?thesis by simp
qed

lemma disk_sorted: "chain_on_disk A domain fs rs tip \<Longrightarrow> sorted_wrt (<) (map fst (cf_segs fs))"
  by (auto simp: chain_on_disk_def disk_files_def)

lemma handle_ok_set_text [simp]: "handle_ok h next fs \<Longrightarrow> handle_ok h next (set_text h t fs)"
  by (cases h) (auto simp: last_map case_prod_beta)

text \<open>A write is all or nothing, if a failed one can be rolled back.\<close>

lemma write_record_inv:
  assumes "log_inv A L rs" "crypto_ok A" "r = new_record A now ev L" "storable A r"
    and "off = length (handle_text (al_handle L) (al_fs L))" "write_record A io off r L = (ok, L')"
  shows "ok \<Longrightarrow> log_inv A L' (rs @ [r])" "\<not> ok \<Longrightarrow> io_truncate io \<Longrightarrow> L' = L"
proof -
  let ?h = "al_handle L" and ?fs = "al_fs L"
  obtain m where m: "chain_on_disk A (al_domain L) ?fs rs (al_prev L, m)" "al_seq L = m \<or> al_seq L = 0"
    "handle_ok ?h (al_segNext L) ?fs" "1 \<le> al_segKeep L"
    using assms(1) by (auto simp: log_inv_def)
  note links = new_record_links [OF assms(2) m(2), of now ev, folded assms(3)]
  {
    assume ok
    then have "L' = L\<lparr>al_fs := set_text ?h (handle_text ?h ?fs @ ae_marshal A r @ [newline]) ?fs,
        al_seq := ar_seq r, al_prev := digest A (al_domain L) (al_prev L) r\<rparr>"
      using assms(6) by (auto simp: write_record_def Let_def split: if_splits)
    then show "log_inv A L' (rs @ [r])"
      using extend_disk [OF m(1,3) links assms(4)] m(3,4) by (auto simp: log_inv_def)
  next
    assume "\<not> ok" "io_truncate io"
    then have "\<exists>w. L' = L\<lparr>al_fs := set_text ?h (take off (handle_text ?h (set_text ?h (handle_text ?h ?fs @ w) ?fs)))
        (set_text ?h (handle_text ?h ?fs @ w) ?fs)\<rparr>"
      using assms(6) by (auto simp: write_record_def rollback_def Let_def split: if_splits)
    then show "L' = L"
      using set_handle_text [OF disk_sorted [OF m(1)] m(3)] handle_set_text [OF disk_sorted [OF m(1)] m(3)] assms(5)
      by (auto simp: set_set_text)
  }
qed

text \<open>Segments are unlinked oldest first: no failure before a success.\<close>

definition prune_in_order :: "(nat \<Rightarrow> bool) \<Rightarrow> bool" where
  "prune_in_order remove \<longleftrightarrow> (\<forall>m n. m < n \<longrightarrow> remove n \<longrightarrow> remove m)"

lemma prune_drops:
  assumes "prune_in_order remove" "sorted_wrt (<) (map fst segs)" "1 \<le> keep"
  obtains j where "pruneSegments remove keep segs = drop j segs" "j = 0 \<or> j + keep \<le> length segs"
proof -
  have *: "filter (\<lambda>(n, b). \<not> remove n) xs = drop (length (filter (\<lambda>(n, b). remove n) xs)) xs"
    if "sorted_wrt (<) (map fst xs)" for xs :: "(nat \<times> string) list"
    using that
  proof (induction xs)
    case (Cons x xs)
    obtain n b where x: "x = (n, b)" by (cases x)
    show ?case
    proof (cases "remove n")
      case False
      then have "\<forall>y\<in>set xs. \<not> remove (fst y)" using Cons.prems assms(1) by (auto simp: x prune_in_order_def)
      then have "filter (\<lambda>(n, b). remove n) xs = []" by (auto simp: filter_empty_conv)
      then show ?thesis using False Cons by (auto simp: x)
    qed (use Cons in \<open>simp add: x\<close>)
  qed simp
  show ?thesis
  proof (cases "length segs \<le> keep")
    case True
    then show ?thesis using that [of 0] by (simp add: pruneSegments_def)
  next
    case False
    let ?k = "length segs - keep"
    let ?j = "length (filter (\<lambda>(n, b). remove n) (take ?k segs))"
    have "?j \<le> ?k" using length_filter_le [of "\<lambda>(n, b). remove n" "take ?k segs"] by simp
    moreover have "sorted_wrt (<) (map fst (take ?k segs))" using assms(2) by (simp add: sorted_wrt_take flip: take_map)
    ultimately have "pruneSegments remove keep segs = drop ?j segs"
      using False * [of "take ?k segs"] by (simp add: pruneSegments_def)
        (metis append_take_drop_id drop_append length_take min.absorb2 diff_is_0_eq diff_le_self drop_0)
    moreover have "?j + keep \<le> length segs" using \<open>?j \<le> ?k\<close> False by linarith
    ultimately show ?thesis using that by blast
  qed
qed

lemma drop_segments:
  assumes "disk_files A domain fs rss rl start tip" "crypto_ok A" "j = 0 \<or> j < length rss"
  shows "\<exists>start'. disk_files A domain (fs\<lparr>cf_segs := drop j (cf_segs fs)\<rparr>) (drop j rss) rl start' tip"
proof -
  note d = assms(1) [unfolded disk_files_def]
  have "chain_from A domain start (concat (take j rss) @ concat (drop j rss) @ rl) = Some tip"
    using d by (metis append_assoc append_take_drop_id concat_append)
  then obtain p k where pk: "chain_from A domain start (concat (take j rss)) = Some (p, k)"
    "chain_from A domain (p, k) (concat (drop j rss) @ rl) = Some tip"
    by (subst (asm) chain_from_append) (auto split: option.splits)
  have "length p = 32" using chain_length [OF assms(2)] pk(1) d by (cases start) auto
  moreover have "(p, k) = (zeroHash, 0)" if "unpruned (drop j (cf_segs fs))"
  proof (cases "j = 0")
    case True
    then show ?thesis using d that pk(1) by simp
  next
    case False
    have len: "length (cf_segs fs) = length rss" using d by (metis length_map)
    then have "drop j (cf_segs fs) \<noteq> []" "0 < length (cf_segs fs)" using False assms(3) by auto
    moreover have "sorted_wrt (<) (map fst (cf_segs fs))" "0 < map fst (cf_segs fs) ! 0"
      using d \<open>0 < length (cf_segs fs)\<close> by (auto simp: nth_mem)
    ultimately have "1 < map fst (cf_segs fs) ! j"
      using False assms(3) len sorted_wrt_nth_less [of "(<)" "map fst (cf_segs fs)" 0 j] by simp
    then have "fst (hd (drop j (cf_segs fs))) \<noteq> 1" using False assms(3) len by (simp add: hd_drop_conv_nth)
    then show ?thesis using that \<open>drop j (cf_segs fs) \<noteq> []\<close> by (simp add: unpruned_def)
  qed
  moreover have "handle_text Live (fs\<lparr>cf_segs := drop j (cf_segs fs)\<rparr>) = render A rl" using d by simp
  moreover have "sorted_wrt (<) (0 # map fst (drop j (cf_segs fs)))"
  proof -
    have "sorted_wrt (<) (drop j (map fst (cf_segs fs)))" using d by (intro sorted_wrt_drop) simp
    then show ?thesis using d by (auto simp: drop_map dest: in_set_dropD)
  qed
  moreover have "map snd (drop j (cf_segs fs)) = map (render A) (drop j rss)" using d by (metis drop_map)
  moreover have "\<forall>r\<in>set (concat (drop j rss) @ rl). storable A r" "\<forall>rs\<in>set (drop j rss). rs \<noteq> []"
    using d by (fastforce dest: in_set_dropD)+
  ultimately show ?thesis using pk(2) unfolding disk_files_def by (intro exI [of _ "(p, k)"]) simp
qed

lemma put_seg_last: "\<forall>m\<in>set (map fst segs). m < n \<Longrightarrow> put_seg n t segs = segs @ [(n, t)]"
  by (auto simp: put_seg_def filter_id_conv filter_empty_conv case_prod_beta)

lemma drop_put_seg: "\<forall>m\<in>set (map fst segs). m < n \<Longrightarrow> drop_seg n (put_seg n t segs) = segs"
  by (auto simp: put_seg_last drop_seg_def filter_id_conv case_prod_beta)

text \<open>Sealing the live file moves its records into a last segment.\<close>

lemma seal_disk:
  assumes "disk_files A domain fs rss rl start tip" "handle_ok Live n fs" "rl \<noteq> []"
  shows "disk_files A domain (fs\<lparr>cf_live := None, cf_segs := put_seg n (render A rl) (cf_segs fs)\<rparr>) (rss @ [rl]) [] start tip"
  using assms by (auto simp: disk_files_def put_seg_last sorted_wrt_append unpruned_def hd_append)

text \<open>The three ways \<open>rotate\<close> can change a log.\<close>

definition sealed_fs :: "audit_log \<Rightarrow> string \<Rightarrow> chain_fs" where
  "sealed_fs L t = (al_fs L)\<lparr>cf_live := None, cf_segs := put_seg (al_segNext L) t (cf_segs (al_fs L))\<rparr>"

lemma rotate_cases:
  assumes "rotate io L = (ok, L')" "handle_ok (al_handle L) (al_segNext L) (al_fs L)"
  obtains (same) "\<not> ok" "L' = L"
    | (stuck) t where "\<not> ok" "al_handle L = Live" "cf_live (al_fs L) = Some t"
        "L' = L\<lparr>al_fs := sealed_fs L t, al_handle := Sealed (al_segNext L)\<rparr>"
    | (sealed) t where ok "al_handle L = Live" "cf_live (al_fs L) = Some t"
        "L' = L\<lparr>al_fs := (sealed_fs L t)\<lparr>cf_live := Some '''',
           cf_segs := pruneSegments (io_remove io) (al_segKeep L) (cf_segs (sealed_fs L t))\<rparr>,
           al_handle := Live, al_segNext := al_segNext L + 1\<rparr>"
proof (cases "cf_live (al_fs L)")
  case None
  then show ?thesis using assms(1) that by (auto simp: rotate_def Let_def split: if_splits)
next
  case (Some t)
  with assms(2) have live: "al_handle L = Live" by (cases "al_handle L") auto
  with assms(2) have "drop_seg (al_segNext L) (cf_segs (sealed_fs L t)) = cf_segs (al_fs L)"
    by (simp add: sealed_fs_def drop_put_seg)
  then have "L\<lparr>al_fs := (sealed_fs L t)\<lparr>cf_live := Some t, cf_segs := drop_seg (al_segNext L) (cf_segs (sealed_fs L t))\<rparr>\<rparr> = L"
    using Some by (simp add: sealed_fs_def)
  then show ?thesis
    using assms(1) Some live that
    by (auto simp: rotate_def Let_def sealed_fs_def [symmetric] split: if_splits)
qed

lemma rotate_same:
  assumes "rotate io L = (ok, L')" "handle_ok (al_handle L) (al_segNext L) (al_fs L)"
  shows "al_prev L' = al_prev L" "al_seq L' = al_seq L" "al_domain L' = al_domain L"
  using assms by (cases rule: rotate_cases; simp)+

lemma sealed_disk:
  assumes "disk_files A domain (al_fs L) rss rl start tip" "handle_ok Live (al_segNext L) (al_fs L)"
    and "cf_live (al_fs L) = Some t" "t \<noteq> []"
  shows "disk_files A domain (sealed_fs L t) (rss @ [rl]) [] start tip"
    "cf_segs (sealed_fs L t) = cf_segs (al_fs L) @ [(al_segNext L, t)]"
proof -
  have "t = render A rl" "rl \<noteq> []" using assms(1,3,4) by (auto simp: disk_files_def)
  then show "disk_files A domain (sealed_fs L t) (rss @ [rl]) [] start tip"
    using seal_disk [OF assms(1,2)] by (simp add: sealed_fs_def)
  show "cf_segs (sealed_fs L t) = cf_segs (al_fs L) @ [(al_segNext L, t)]"
    using assms(2) by (simp add: sealed_fs_def put_seg_last)
qed

lemma pruned_disk:
  assumes "disk_files A domain fs rss [] start tip" "crypto_ok A" "prune_in_order remove" "1 \<le> keep" "cf_segs fs \<noteq> []"
  defines "segs \<equiv> pruneSegments remove keep (cf_segs fs)"
  obtains ys where "suffix ys (concat rss)" "chain_on_disk A domain (fs\<lparr>cf_live := Some '''', cf_segs := segs\<rparr>) ys tip"
    "set segs \<subseteq> set (cf_segs fs)"
proof -
  have "sorted_wrt (<) (map fst (cf_segs fs))" using assms(1) by (simp add: disk_files_def)
  from prune_drops [OF assms(3) this assms(4)] obtain j where
    j: "segs = drop j (cf_segs fs)" "j = 0 \<or> j + keep \<le> length (cf_segs fs)" unfolding segs_def .
  have "length rss = length (cf_segs fs)" using assms(1) unfolding disk_files_def by (metis length_map)
  then have "j = 0 \<or> j < length rss" using j(2) assms(4) by linarith
  from drop_segments [OF assms(1,2) this] obtain start' where
    "disk_files A domain (fs\<lparr>cf_segs := segs\<rparr>) (drop j rss) [] start' tip" unfolding j(1) by blast
  then have "disk_files A domain (fs\<lparr>cf_live := Some '''', cf_segs := segs\<rparr>) (drop j rss) [] start' tip"
    by (simp add: disk_files_def)
  from disk_filesI [OF this]
  have "chain_on_disk A domain (fs\<lparr>cf_live := Some '''', cf_segs := segs\<rparr>) (concat (drop j rss)) tip" by simp
  moreover have "concat rss = concat (take j rss) @ concat (drop j rss)"
    by (simp only: concat_append [symmetric] append_take_drop_id)
  then have "suffix (concat (drop j rss)) (concat rss)" by (auto simp: suffix_def)
  moreover have "set segs \<subseteq> set (cf_segs fs)" unfolding j(1) by (rule set_drop_subset)
  ultimately show ?thesis using that by blast
qed

lemma rotate_inv:
  assumes "log_inv A L rs" "crypto_ok A" "prune_in_order (io_remove io)" "rotate io L = (ok, L')"
    and "handle_text (al_handle L) (al_fs L) \<noteq> []"
  obtains ys where "suffix ys rs" "log_inv A L' ys"
    "ok \<or> ys = rs \<and> handle_text (al_handle L') (al_fs L') = handle_text (al_handle L) (al_fs L)"
proof -
  obtain m rss rl start where rs: "rs = concat rss @ rl"
    and d: "disk_files A (al_domain L) (al_fs L) rss rl start (al_prev L, m)"
    and seq: "al_seq L = m \<or> al_seq L = 0" and h: "handle_ok (al_handle L) (al_segNext L) (al_fs L)"
    and keep: "1 \<le> al_segKeep L"
    using assms(1) unfolding log_inv_def chain_on_disk_def by blast
  from assms(4) h show ?thesis
  proof (cases rule: rotate_cases)
    case same
    then show ?thesis using that assms(1) by auto
  next
    case (stuck t)
    note sd = sealed_disk [OF d _ stuck(3)]
    have "chain_on_disk A (al_domain L) (sealed_fs L t) rs (al_prev L, m)"
      using disk_filesI [OF sd(1)] h stuck(2,3) assms(5) by (simp add: rs)
    moreover have segs: "cf_segs (sealed_fs L t) = cf_segs (al_fs L) @ [(al_segNext L, t)]"
      using sd(2) h stuck(2,3) assms(5) by simp
    ultimately have "log_inv A L' rs"
      using seq keep by (auto simp: log_inv_def stuck(4) sealed_fs_def)
    moreover have "handle_text (al_handle L') (al_fs L') = t"
      using h by (simp add: stuck segs map_of_last del: map_of_append)
    ultimately show ?thesis using that [of rs] by (simp add: stuck)
  next
    case (sealed t)
    note sd = sealed_disk [OF d _ sealed(3)]
    have d1: "disk_files A (al_domain L) (sealed_fs L t) (rss @ [rl]) [] start (al_prev L, m)"
      and segs: "cf_segs (sealed_fs L t) = cf_segs (al_fs L) @ [(al_segNext L, t)]"
      using sd h sealed(2,3) assms(5) by simp_all
    from pruned_disk [OF d1 assms(2,3) keep] segs obtain ys where ys: "suffix ys rs"
      "chain_on_disk A (al_domain L) (al_fs L') ys (al_prev L, m)"
      "set (cf_segs (al_fs L')) \<subseteq> set (cf_segs (sealed_fs L t))"
      by (auto simp: rs sealed(4))
    have "handle_ok Live (al_segNext L + 1) (al_fs L')"
      using h ys(3) by (fastforce simp: sealed segs)
    then have "log_inv A L' ys" using ys(2) seq keep by (auto simp: log_inv_def sealed(4))
    then show ?thesis using that ys(1) sealed(1) by blast
  qed
qed

text \<open>
  What an append leaves: the log \<open>L1\<close> it wrote to, perhaps after a rotation, with the
  record added, without it, or, if the roll-back failed too, with a part of its line.
\<close>

lemma write_record_torn:
  assumes "write_record A io off r L = (False, L')" "\<not> io_truncate io"
  obtains w where "prefix w (ae_marshal A r @ [newline])"
    "L' = L\<lparr>al_fs := set_text (al_handle L) (handle_text (al_handle L) (al_fs L) @ w) (al_fs L)\<rparr>"
proof (rule that)
  let ?line = "ae_marshal A r @ [newline]"
  show "prefix (case io_write io of None \<Rightarrow> ?line | Some k \<Rightarrow> take k ?line) ?line"
  proof (cases "io_write io")
    case (Some k)
    show ?thesis unfolding Some option.case by (rule take_is_prefix)
  qed simp
  show "L' = L\<lparr>al_fs := set_text (al_handle L) (handle_text (al_handle L) (al_fs L) @
      (case io_write io of None \<Rightarrow> ?line | Some k \<Rightarrow> take k ?line)) (al_fs L)\<rparr>"
    using assms by (simp add: write_record_def rollback_def Let_def split: if_splits)
qed

lemma new_record_cong:
  "al_prev L' = al_prev L \<Longrightarrow> al_seq L' = al_seq L \<Longrightarrow> al_domain L' = al_domain L \<Longrightarrow>
   new_record A now ev L' = new_record A now ev L"
  by (simp add: new_record_def record_body_def)

lemma append_via:
  assumes "log_inv A L rs" "crypto_ok A" "prune_in_order (io_remove io)" "append_record A io now ev L = (ok, L')"
  obtains ys L1 where "suffix ys rs" "log_inv A L1 ys"
    "al_prev L1 = al_prev L" "al_seq L1 = al_seq L" "al_domain L1 = al_domain L"
    "\<not> ok \<and> L' = L1 \<or>
     write_record A io (length (handle_text (al_handle L1) (al_fs L1))) (new_record A now ev L) L1 = (ok, L')"
proof -
  let ?off = "length (handle_text (al_handle L) (al_fs L))"
  have h: "handle_ok (al_handle L) (al_segNext L) (al_fs L)" using assms(1) by (simp add: log_inv_def)
  show ?thesis
  proof (cases "io_stat io \<and> al_rotateBytes L > 0 \<and> ?off \<ge> al_rotateBytes L")
    case False
    then have "\<not> ok \<and> L' = L \<or> write_record A io ?off (new_record A now ev L) L = (ok, L')"
      using assms(4) by (auto simp: append_record_def Let_def split: if_splits)
    then show ?thesis using that [of rs L] assms(1) by simp
  next
    case True
    obtain rok L1 where rot: "rotate io L = (rok, L1)" by (cases "rotate io L")
    have ne: "handle_text (al_handle L) (al_fs L) \<noteq> []" using True by auto
    from rotate_inv [OF assms(1-3) rot ne] obtain ys where ys: "suffix ys rs" "log_inv A L1 ys"
      "rok \<or> ys = rs \<and> handle_text (al_handle L1) (al_fs L1) = handle_text (al_handle L) (al_fs L)" .
    have "\<not> ok \<and> L' = L1 \<or>
        write_record A io (length (handle_text (al_handle L1) (al_fs L1))) (new_record A now ev L) L1 = (ok, L')"
      using assms(4) True ys(3) by (cases rok) (auto simp: append_record_def Let_def rot split: if_splits)
    then show ?thesis using that [OF ys(1,2) rotate_same [OF rot h]] by blast
  qed
qed

lemma append_inv:
  assumes "log_inv A L rs" "crypto_ok A" "prune_in_order (io_remove io)"
    and "r = new_record A now ev L" "storable A r" "append_record A io now ev L = (ok, L')"
  obtains (committed) ys where ok "suffix ys rs" "log_inv A L' (ys @ [r])"
    | (refused) ys where "\<not> ok" "suffix ys rs" "log_inv A L' ys" "al_prev L' = al_prev L" "al_seq L' = al_seq L"
    | (torn) ys L1 w where "\<not> ok" "\<not> io_truncate io" "suffix ys rs" "log_inv A L1 ys" "al_domain L1 = al_domain L"
        "r = new_record A now ev L1" "prefix w (ae_marshal A r @ [newline])"
        "L' = L1\<lparr>al_fs := set_text (al_handle L1) (handle_text (al_handle L1) (al_fs L1) @ w) (al_fs L1)\<rparr>"
proof -
  from append_via [OF assms(1-3,6)] obtain ys L1 where ys: "suffix ys rs" "log_inv A L1 ys"
    and L1: "al_prev L1 = al_prev L" "al_seq L1 = al_seq L" "al_domain L1 = al_domain L"
    and via: "\<not> ok \<and> L' = L1 \<or>
      write_record A io (length (handle_text (al_handle L1) (al_fs L1))) (new_record A now ev L) L1 = (ok, L')" .
  have r: "r = new_record A now ev L1" using new_record_cong [OF L1] assms(4) by simp
  from via consider "\<not> ok" "L' = L1"
    | "write_record A io (length (handle_text (al_handle L1) (al_fs L1))) r L1 = (ok, L')"
    using assms(4) by blast
  then show ?thesis
  proof cases
    case 1
    then show ?thesis using refused ys L1 by blast
  next
    case 2
    note w = write_record_inv [OF ys(2) assms(2) r assms(5) refl 2]
    consider ok | "\<not> ok" "io_truncate io" | "\<not> ok" "\<not> io_truncate io" by blast
    then show ?thesis
    proof cases
      case 1
      then show ?thesis using committed ys(1) w(1) by blast
    next
      case 2
      then show ?thesis using refused [of ys] ys w(2) L1 by simp
    next
      case 3
      then show ?thesis using write_record_torn [of A io _ r L1 L'] 2 torn [OF 3 ys L1(3) r] by auto
    qed
  qed
qed

section \<open>Opening after a crash\<close>

lemma render_snoc: "rs \<noteq> [] \<Longrightarrow> \<exists>s. render A rs = s @ [newline]"
  by (cases rs rule: rev_cases) (auto simp: render_def)

text \<open>The repair removes exactly what follows the last complete record.\<close>

lemma repair_render:
  assumes "newline \<notin> set w"
  shows "repairTornTail (Some (render A rs @ w)) = Some (render A rs)"
proof (cases "w = []")
  case True
  then show ?thesis using render_snoc [of rs A] by (cases "rs = []") (auto simp: repairTornTail_def)
next
  case False
  then have l: "last (render A rs @ w) \<noteq> newline" using assms by (metis last_appendR last_in_set)
  show ?thesis
  proof (cases "rs = []")
    case True
    then show ?thesis using l False LastIndex_char_None [THEN iffD2, OF assms] by (simp add: repairTornTail_def)
  next
    case False
    then obtain s where s: "render A rs = s @ [newline]" using render_snoc by blast
    have "LastIndex (render A rs @ w) [newline] = Some (length s)" using LastIndex_char_append [OF assms, of s] by (simp add: s)
    then show ?thesis using l by (simp add: repairTornTail_def s)
  qed
qed

lemma trim_line:
  assumes "s \<noteq> []" "graphic (hd s)" "graphic (last s)"
  shows "trimSpace (s @ [newline]) = s"
proof -
  obtain c t where s: "s = c # t" using assms(1) by (cases s) auto
  obtain u d where r: "s = u @ [d]" using assms(1) by (cases s rule: rev_cases) auto
  have front: "strip_all unicode_spaces (s @ [newline]) = s @ [newline]"
    using assms(2) match_any_graphic [of c] by (intro strip_all_none) (simp add: s)
  have "match_any (map rev unicode_spaces) (newline # rev s) = Some [newline]"
    by (simp add: match_any_def unicode_spaces_def hasPrefix_simps newline_def)
  then have "strip_all (map rev unicode_spaces) (newline # rev s) = strip_all (map rev unicode_spaces) (rev s)"
    by (subst strip_all.simps) simp
  also have "\<dots> = rev s"
    using assms(3) match_any_graphic_rev [of d] by (intro strip_all_none) (simp add: r)
  finally show ?thesis by (simp add: trimSpace_def front)
qed

lemma chain_last:
  assumes "chain_from A domain start (rs @ [r]) = Some (t, m)"
  shows "hex_decode (ar_hash r) = Some t"
proof -
  obtain p k where "chain_from A domain (p, k) [r] = Some (t, m)"
    using assms by (auto simp: chain_from_append split: option.splits)
  then show ?thesis by (auto simp: record_ok_def hexEqual_def split: if_splits)
qed

lemma lastChainHash_render:
  assumes "json_ok A" "\<forall>r\<in>set (rs @ [r]). storable A r" "hex_decode (ar_hash r) = Some t" "length t = 32"
  shows "lastChainHash A (Some (render A (rs @ [r]))) = Some t"
proof -
  let ?s = "render A rs @ ae_marshal A r"
  have r: "json_text (ae_marshal A r)" "ae_unmarshal A (ae_marshal A r) = Some r"
    using storableD [OF assms(1), of r] assms(2) by simp_all
  have hd: "hd ?s = CHR ''{''"
  proof (cases rs)
    case (Cons r' rs')
    then have "json_text (ae_marshal A r')" using storableD(1) [OF assms(1)] assms(2) by simp
    then show ?thesis by (simp add: Cons json_text_def hd_append)
  qed (use r in \<open>simp add: json_text_def\<close>)
  have "trimSpace (render A (rs @ [r])) = ?s"
    using trim_line [of ?s] hd r(1) by (simp add: json_text_def graphic_def)
  moreover have "split_on newline ?s = map (ae_marshal A) rs @ [ae_marshal A r]"
    using storableD(3) [OF assms(1)] assms(2) by (intro split_render) simp_all
  ultimately show ?thesis
    using r assms(3,4) by (simp add: lastChainHash_def json_text_trim) (simp add: json_text_def)
qed

lemma lastChainHash_Nil [simp]: "lastChainHash A (Some '''') = None" "lastChainHash A None = None"
  by (simp_all add: lastChainHash_def)

lemma disk_last_tip:
  assumes "json_ok A" "crypto_ok A" "disk_files A domain fs rss rl start (t, m)" "\<forall>f. readable f"
  shows "(case lastChainTip A readable fs of None \<Rightarrow> zeroHash | Some h \<Rightarrow> h) = t"
proof -
  note d = assms(3) [unfolded disk_files_def]
  have t: "length t = 32" using chain_length [OF assms(2)] d by (cases start) auto
  have live: "lastChainHash A (cf_live fs) = lastChainHash A (Some (render A rl))"
    using d by (cases "cf_live fs") auto
  show ?thesis
  proof (cases rl rule: rev_cases)
    case (snoc rs r)
    have "hex_decode (ar_hash r) = Some t" using d chain_last [of A domain start "concat rss @ rs"] by (simp add: snoc)
    then have "lastChainHash A (Some (render A rl)) = Some t"
      using lastChainHash_render [OF assms(1), of rs r t] d t by (simp add: snoc)
    then show ?thesis using live assms(4) by (simp add: lastChainTip_def)
  next
    case Nil
    show ?thesis
    proof (cases rss rule: rev_cases)
      case Nil
      then have "cf_segs fs = []" using d by simp
      then show ?thesis using d live \<open>rl = []\<close> Nil by (auto simp: lastChainTip_def unpruned_def map_filter_simps)
    next
      case (snoc rss' rs)
      then obtain n segs' where segs: "cf_segs fs = segs' @ [(n, render A rs)]"
        using d by (cases "cf_segs fs" rule: rev_cases) auto
      obtain rs' r where rs: "rs = rs' @ [r]" using d snoc by (cases rs rule: rev_cases) auto
      have "hex_decode (ar_hash r) = Some t"
        using d chain_last [of A domain start "concat rss' @ rs'"] by (simp add: snoc rs \<open>rl = []\<close>)
      then have "lastChainHash A (Some (render A rs)) = Some t"
        using lastChainHash_render [OF assms(1), of rs' r t] d t by (simp add: snoc rs)
      then show ?thesis using live assms(4) by (simp add: lastChainTip_def \<open>rl = []\<close> segs map_filter_simps)
    qed
  qed
qed

lemma nextSegNum_above:
  assumes "sorted_wrt (<) (map fst (cf_segs fs))"
  shows "1 \<le> nextSegNum fs" "\<forall>n\<in>set (map fst (cf_segs fs)). n < nextSegNum fs"
  using assms by (cases "cf_segs fs" rule: rev_cases; auto simp: nextSegNum_def sorted_wrt_append less_Suc_eq)+

text \<open>
  A chain with a torn last line opens to the chain of its complete records: \<open>w\<close> is what is
  left of the line.
\<close>

lemma open_inv:
  assumes "json_ok A" "crypto_ok A" "chain_on_disk A domain fs0 rs tip"
    and "cf_segs fs = cf_segs fs0" "handle_text Live fs = handle_text Live fs0 @ w" "newline \<notin> set w"
    and "openAuditLog A io domain bytes keep fs = Some L" "oi_repair io" "\<forall>f. oi_readable io f"
  shows "log_inv A L rs \<and> al_domain L = domain"
proof -
  obtain t m where tip: "tip = (t, m)" by (cases tip)
  from assms(3) obtain rss rl start where rs: "rs = concat rss @ rl"
    and d: "disk_files A domain fs0 rss rl start (t, m)" unfolding chain_on_disk_def tip by blast
  let ?fs1 = "fs\<lparr>cf_live := repairTornTail (cf_live fs)\<rparr>"
  have body: "handle_text Live fs = render A rl @ w" using assms(5) d by (simp add: disk_files_def)
  have live: "handle_text Live ?fs1 = render A rl"
  proof (cases "cf_live fs")
    case None
    then have "render A rl = []" using body by simp
    then show ?thesis using None by (simp add: repairTornTail_def)
  next
    case (Some b)
    then show ?thesis using body repair_render [OF assms(6), of A rl] by simp
  qed
  then have d1: "disk_files A domain ?fs1 rss rl start (t, m)" using d assms(4) by (simp add: disk_files_def)
  have prev: "(case lastChainTip A (oi_readable io) ?fs1 of None \<Rightarrow> zeroHash | Some h \<Rightarrow> h) = t"
    by (rule disk_last_tip [OF assms(1,2) d1 assms(9)])
  let ?fs2 = "?fs1\<lparr>cf_live := Some (render A rl)\<rparr>"
  have d2: "disk_files A domain ?fs2 rss rl start (t, m)" using d1 live by (simp add: disk_files_def)
  have "sorted_wrt (<) (map fst (cf_segs ?fs2))" using d2 by (simp add: disk_files_def)
  note above = nextSegNum_above [OF this]
  have "L = \<lparr>al_fs = ?fs2, al_handle = Live, al_prev = t, al_seq = 0, al_segNext = nextSegNum ?fs2, al_domain = domain,
      al_rotateBytes = fst (auditSegmentConfig bytes keep), al_segKeep = snd (auditSegmentConfig bytes keep)\<rparr>"
    using assms(7,8) prev live unfolding openAuditLog_def Let_def by (simp split: if_splits)
  moreover have "1 \<le> snd (auditSegmentConfig bytes keep)"
    by (simp add: auditSegmentConfig_def nat_le_eq_zle split: option.split) arith
  ultimately show ?thesis
    using disk_filesI [OF d2] above by (auto simp: log_inv_def rs)
qed

section \<open>The life of a log\<close>

text \<open>
  A log is opened on an empty directory; it is appended to, with any of the calls failing
  except the roll-back of a failed write; or power is lost at any point of an append, and
  it is opened again. Power loss leaves what an append leaves whose roll-back failed. A
  line always fits the verifier's buffer, and segments are unlinked in order.
\<close>

definition fits :: "audit_env \<Rightarrow> u64 \<Rightarrow> prov_event \<Rightarrow> audit_log \<Rightarrow> bool" where
  "fits A now ev L \<longleftrightarrow> length (ae_marshal A (new_record A now ev L)) < max_line"

definition no_files :: chain_fs where
  "no_files = \<lparr>cf_live = None, cf_segs = []\<rparr>"

definition reopens :: "audit_env \<Rightarrow> string \<Rightarrow> chain_fs \<Rightarrow> audit_log \<Rightarrow> bool" where
  "reopens A domain fs L \<longleftrightarrow>
     (\<exists>oi bytes keep. openAuditLog A oi domain bytes keep fs = Some L \<and> oi_repair oi \<and> (\<forall>f. oi_readable oi f))"

inductive log_reach :: "audit_env \<Rightarrow> string \<Rightarrow> audit_log \<Rightarrow> bool" for A :: audit_env and domain :: string where
  created: "reopens A domain no_files L \<Longrightarrow> log_reach A domain L"
| appended: "log_reach A domain L \<Longrightarrow> fits A now ev L \<Longrightarrow> prune_in_order (io_remove io) \<Longrightarrow> io_truncate io \<Longrightarrow>
    append_record A io now ev L = (ok, L') \<Longrightarrow> log_reach A domain L'"
| rebooted: "log_reach A domain L \<Longrightarrow> fits A now ev L \<Longrightarrow> prune_in_order (io_remove io) \<Longrightarrow>
    append_record A io now ev L = (ok, L') \<Longrightarrow> al_handle L' = Live \<or> io_truncate io \<Longrightarrow>
    reopens A domain (al_fs L') L'' \<Longrightarrow> log_reach A domain L''"

lemma storable_fits: "fits A now ev L \<Longrightarrow> storable A (new_record A now ev L)"
  by (simp add: fits_def storable_def valid_new_record)

lemma rotate_domain: "rotate io L = (ok, L') \<Longrightarrow> al_domain L' = al_domain L"
  by (auto simp: rotate_def Let_def split: if_splits option.splits)

lemma append_domain: "append_record A io now ev L = (ok, L') \<Longrightarrow> al_domain L' = al_domain L"
proof -
  have w: "write_record A io off r L = (ok, L') \<Longrightarrow> al_domain L' = al_domain L" for off r L
    by (auto simp: write_record_def rollback_def Let_def split: if_splits)
  assume a: "append_record A io now ev L = (ok, L')"
  obtain rok L1 where rot: "rotate io L = (rok, L1)" by (cases "rotate io L")
  from a show ?thesis
    using w rotate_domain [OF rot]
    by (cases rok) (auto simp: append_record_def Let_def rot split: if_splits dest!: w)
qed

lemma no_files_chain: "chain_on_disk A domain no_files [] (zeroHash, 0)"
  using disk_filesI [of A domain no_files "[]" "[]" "(zeroHash, 0)"]
  by (simp add: disk_files_def no_files_def zeroHash_def)

lemma reopens_inv:
  assumes "json_ok A" "crypto_ok A" "chain_on_disk A domain fs0 rs tip" "reopens A domain fs L"
    and "cf_segs fs = cf_segs fs0" "handle_text Live fs = handle_text Live fs0 @ w" "newline \<notin> set w"
  shows "log_inv A L rs \<and> al_domain L = domain"
  using open_inv [OF assms(1-3,5-7)] assms(4) unfolding reopens_def by blast

lemma log_inv_disk: "log_inv A L rs \<Longrightarrow> \<exists>m. chain_on_disk A (al_domain L) (al_fs L) rs (al_prev L, m)"
  by (auto simp: log_inv_def)

text \<open>Whatever power loss left of a line on the live file, opening restores the invariant.\<close>

lemma torn_reopens:
  assumes "json_ok A" "crypto_ok A" "log_inv A L1 ys" "storable A r" "r = new_record A now ev L1" "al_handle L1 = Live"
    and "prefix w (ae_marshal A r @ [newline])" "al_domain L1 = domain"
    and "reopens A domain (set_text Live (handle_text Live (al_fs L1) @ w) (al_fs L1)) L"
  shows "\<exists>rs. rs \<in> {ys, ys @ [r]} \<and> log_inv A L rs \<and> al_domain L = domain"
proof -
  obtain m where m: "chain_on_disk A domain (al_fs L1) ys (al_prev L1, m)" "al_seq L1 = m \<or> al_seq L1 = 0"
    "handle_ok Live (al_segNext L1) (al_fs L1)"
    using assms(3,6,8) by (auto simp: log_inv_def)
  show ?thesis
  proof (cases "w = ae_marshal A r @ [newline]")
    case True
    have "chain_on_disk A domain (set_text Live (handle_text Live (al_fs L1) @ w) (al_fs L1)) (ys @ [r])
        (digest A domain (al_prev L1) r, ar_seq r)"
      using extend_disk [OF m(1,3) _ assms(4)] new_record_links [OF assms(2) m(2), of now ev] assms(5,8) True by simp
    from reopens_inv [OF assms(1,2) this assms(9), of "[]"] show ?thesis by auto
  next
    case False
    then have "newline \<notin> set w"
      using assms(7) storableD(3) [OF assms(1,4)] set_mono_prefix [of w "ae_marshal A r"] by auto
    from reopens_inv [OF assms(1,2) m(1) assms(9) _ _ this] show ?thesis by auto
  qed
qed

lemma reach_inv:
  assumes "log_reach A domain L" "json_ok A" "crypto_ok A"
  shows "\<exists>rs. log_inv A L rs \<and> al_domain L = domain"
  using assms(1)
proof induction
  case (created L)
  then show ?case using reopens_inv [OF assms(2,3) no_files_chain created, of "[]"] by auto
next
  case (appended L now ev io ok L')
  then obtain rs where rs: "log_inv A L rs" "al_domain L = domain" by blast
  from append_inv [OF rs(1) assms(3) appended.hyps(3) refl storable_fits [OF appended.hyps(2)] appended.hyps(5)]
  have "\<exists>rs. log_inv A L' rs" using appended.hyps(4) by cases auto
  then show ?case using append_domain [OF appended.hyps(5)] rs(2) by auto
next
  case (rebooted L now ev io ok L' L'')
  then obtain rs where rs: "log_inv A L rs" "al_domain L = domain" by blast
  have dom: "al_domain L' = domain" using append_domain [OF rebooted.hyps(4)] rs(2) by simp
  have clean: "\<exists>rs. log_inv A L'' rs \<and> al_domain L'' = domain" if inv: "log_inv A L' ys" for ys
    using log_inv_disk [OF inv] reopens_inv [OF assms(2,3) _ rebooted.hyps(6), of "al_fs L'" ys _ "[]"] dom by auto
  note st = storable_fits [OF rebooted.hyps(2)]
  from rs(1) assms(3) rebooted.hyps(3) refl st rebooted.hyps(4)
  show ?case
  proof (cases rule: append_inv)
    case (torn ys L1 w)
    then have "al_handle L1 = Live" using rebooted.hyps(5) by simp
    then show ?thesis
      using torn_reopens [OF assms(2,3) torn(4) _ torn(6), of w domain L''] st torn rs(2) rebooted.hyps(6) by auto
  qed (use clean in auto)
qed

section \<open>Properties\<close>



lemma verify_lines_append:
  "verify_lines A domain since (xs @ ys) st =
     (case verify_lines A domain since xs st of Inl e \<Rightarrow> Inl e | Inr st' \<Rightarrow> verify_lines A domain since ys st')"
  by (induction xs arbitrary: st) (auto split: sum.splits)

lemma strip_all_suffix: "suffix (strip_all ps s) s"
proof (induction ps s rule: strip_all.induct)
  case (1 ps s)
  then show ?case
    by (subst strip_all.simps) (auto split: option.split intro: suffix_order.trans suffix_drop)
qed

lemma trimSpace_prefix:
  assumes "s \<noteq> []" "graphic (hd s)"
  shows "prefix (trimSpace s) s"
proof -
  have "strip_all unicode_spaces s = s"
    using assms match_any_graphic [of "hd s" "tl s"] by (intro strip_all_none) simp
  then show ?thesis
    using strip_all_suffix [of "map rev unicode_spaces" "rev s"] by (simp add: trimSpace_def suffix_to_prefix)
qed

text \<open>A part of a record's line is no record: it is blank or malformed.\<close>

lemma read_torn:
  assumes "json_ok A" "storable A r" "strict_prefix w (ae_marshal A r)" "w \<noteq> []"
  shows "read_line A w = Blank \<or> read_line A w = Malformed"
proof -
  have "hd w = CHR ''{''" using assms storableD(1) [OF assms(1,2)]
    by (auto simp: json_text_def strict_prefix_def prefix_def hd_append)
  then have "prefix (trimSpace w) w" using assms(4) by (intro trimSpace_prefix) (simp_all add: graphic_def)
  then have "strict_prefix (trimSpace w) (ae_marshal A r)" using assms(3) prefix_order.le_less_trans by blast
  then have "ae_unmarshal A (trimSpace w) = None" using assms(1,2) unfolding json_ok_def storable_def by blast
  then show ?thesis by (simp add: read_line_def Let_def)
qed

lemma segment_complete_torn:
  assumes "json_ok A" "\<forall>r\<in>set (rs @ [r]). storable A r" "\<not> sd_anchorFirst sd" "sd_allowTornTail sd"
    and "strict_prefix w (ae_marshal A r)" "w \<noteq> []"
    and "chain_from A domain (sd_prev sd, sd_expectSeq sd) rs = Some (t, m)"
  shows "\<exists>sd'. verifyChainSegment A domain since (Some (render A rs @ w)) sd = Inr (length rs, sd') \<and> sd_prev sd' = t"
proof -
  let ?st = "\<lparr>sc_n = 0, sc_seed = sd, sc_first = True, sc_torn = False\<rparr>"
  have un: "unanchored ?st" using assms(3) by (simp add: unanchored_def)
  obtain st' where st': "verify_lines A domain since (map Rec rs) ?st = Inr st'" "sc_torn st' = False"
    using verify_lines_complete [of A domain ?st rs t m since] un assms(7) by auto
  have nl: "newline \<notin> set w"
    using assms(5) storableD(3) [OF assms(1), of r] assms(2) set_mono_prefix [of w] by (auto simp: strict_prefix_def)
  have "length w < max_line"
    using assms(5) storableD(4) [OF assms(1), of r] assms(2) prefix_length_less [OF assms(5)] by simp
  then have sc: "scanned (render A rs @ w) = (map (ae_marshal A) rs @ [w], True)"
    using split_render [of rs A w] nl storableD(3,4) [OF assms(1)] assms(2,6)
    by (simp add: scanned_def scan_lines_def list_all_iff takeWhile_eq_all_conv [THEN iffD2])
  have lines: "map (read_line A) (map (ae_marshal A) rs @ [w]) = map Rec rs @ [read_line A w]"
    using assms(2) by (simp add: read_line_marshal [OF assms(1)])
  have "\<exists>b. verify_lines A domain since (map Rec rs @ [read_line A w]) ?st = Inr (st'\<lparr>sc_torn := b\<rparr>)"
    using read_torn [OF assms(1) _ assms(5,6)] assms(2) st'
    by (auto simp: verify_lines_append verify_line_def intro: exI [of _ False] exI [of _ True])
  then obtain b where b: "verify_lines A domain since (map Rec rs @ [read_line A w]) ?st = Inr (st'\<lparr>sc_torn := b\<rparr>)" ..
  have "verifyChainSegment A domain since (Some (render A rs @ w)) sd = Inr (sc_n st', sc_seed st')"
    unfolding verifyChainSegment_def option.case sc fst_conv lines b using assms(4) by simp
  moreover have "sc_n st' = length rs" "sd_prev (sc_seed st') = t"
    using verify_lines_sound [OF st'(1) un] assms(7) by simp_all
  ultimately show ?thesis by simp
qed

text \<open>A last line that only lacks its newline counts as a record.\<close>

lemma scanned_unterminated:
  assumes "json_ok A" "\<forall>x\<in>set (rs @ [r]). storable A x"
  shows "scanned (render A rs @ ae_marshal A r) = scanned (render A (rs @ [r]))"
proof -
  have "ae_marshal A r \<noteq> []" using storableD(1) [OF assms(1), of r] assms(2) by (auto simp: json_text_def)
  then have "scan_lines (render A rs @ ae_marshal A r) = scan_lines (render A (rs @ [r]))"
    using split_render [of rs A "ae_marshal A r"] split_render [of "rs @ [r]" A "[]"]
      storableD(3) [OF assms(1)] assms(2) by (simp add: scan_lines_def butlast_append)
  then show ?thesis by (simp add: scanned_def)
qed

lemma segment_unterminated:
  assumes "json_ok A" "\<forall>x\<in>set (rs @ [r]). storable A x"
  shows "verifyChainSegment A domain since (Some (render A rs @ ae_marshal A r)) sd =
    verifyChainSegment A domain since (Some (render A (rs @ [r]))) sd"
  unfolding verifyChainSegment_def option.case scanned_unterminated [OF assms] by (rule refl)

lemma torn_verifies:
  assumes "json_ok A" "crypto_ok A" "log_inv A L1 ys" "storable A r" "r = new_record A now ev L1" "al_handle L1 = Live"
    and "prefix w (ae_marshal A r @ [newline])" "al_domain L1 = domain"
    and "fs = set_text Live (handle_text Live (al_fs L1) @ w) (al_fs L1)"
  shows "\<exists>v. verifySegmentedChain A domain since (cf_segs fs) (cf_live fs) = Inr v
    \<and> cv_count v \<in> {length ys, length ys + 1}"
proof -
  obtain m where m: "chain_on_disk A domain (al_fs L1) ys (al_prev L1, m)" "al_seq L1 = m \<or> al_seq L1 = 0"
    "handle_ok Live (al_segNext L1) (al_fs L1)"
    using assms(3,6,8) by (auto simp: log_inv_def)
  note links = new_record_links [OF assms(2) m(2), of now ev, folded assms(5), unfolded assms(8)]
  from m(1) obtain rss rl start where ys: "ys = concat rss @ rl"
    and d: "disk_files A domain (al_fs L1) rss rl start (al_prev L1, m)" unfolding chain_on_disk_def by blast
  have st: "\<forall>x\<in>set (rl @ [r]). storable A x" using d assms(4) by (auto simp: disk_files_def)
  have fs: "cf_segs fs = cf_segs (al_fs L1)" "cf_live fs = Some (render A rl @ w)"
    using d by (simp_all add: assms(9) disk_files_def)
  from segs_verified [OF assms(1,2) d, of since] obtain sd where
    sd: "verify_segments A domain since True (cf_segs (al_fs L1)) 0 genesis_seed = Inr (length (concat rss), sd)"
    "chain_from A domain (sd_prev sd, sd_expectSeq sd) rl = Some (al_prev L1, m)" .
  let ?sd = "sd\<lparr>sd_allowTornTail := True, sd_anchorFirst := False\<rparr>"
  consider "w = ae_marshal A r @ [newline] \<or> w = ae_marshal A r" | "strict_prefix w (ae_marshal A r)" "w \<noteq> []" | "w = []"
    using assms(7) by (auto simp: strict_prefix_def)
  then have "\<exists>k sd'. verifyChainSegment A domain since (Some (render A rl @ w)) ?sd = Inr (k, sd')
      \<and> k \<in> {length rl, length rl + 1}"
  proof cases
    case 1
    then have "verifyChainSegment A domain since (Some (render A rl @ w)) ?sd =
        verifyChainSegment A domain since (Some (render A (rl @ [r]))) ?sd"
      using segment_unterminated [OF assms(1) st] by auto
    moreover have "chain_from A domain (sd_prev ?sd, sd_expectSeq ?sd) (rl @ [r]) =
        Some (digest A domain (al_prev L1) r, ar_seq r)" using sd(2) links by (simp add: chain_from_append)
    ultimately show ?thesis using segment_complete [OF assms(1) st, of ?sd domain _ _ since] by auto
  next
    case 2
    then show ?thesis using segment_complete_torn [OF assms(1) st, of ?sd w domain "al_prev L1" m since] sd(2) by auto
  next
    case 3
    then show ?thesis using segment_complete [OF assms(1), of rl ?sd domain _ _ since] sd(2) st by auto
  qed
  then obtain k sd' where "verifyChainSegment A domain since (Some (render A rl @ w)) ?sd = Inr (k, sd')"
    "k \<in> {length rl, length rl + 1}" by blast
  then show ?thesis using chain_verdict [OF sd(1)] fs by (auto simp: ys verdict_of_def)
qed

text \<open>
  Power loss never bricks the boot gate. If power is lost at any byte of the write of a
  record to the live file, the verifier accepts the files as they are, before any repair,
  with all earlier records that were not pruned and at most the new one.
\<close>

theorem crashed_files_verify:
  assumes "log_reach A domain L" "json_ok A" "crypto_ok A" "fits A now ev L" "prune_in_order (io_remove io)"
    and "append_record A io now ev L = (ok, L')" "al_handle L' = Live"
  shows "\<exists>v ys. verifySegmentedChain A domain since (cf_segs (al_fs L')) (cf_live (al_fs L')) = Inr v
    \<and> suffix ys (all_records A (cf_segs (al_fs L)) (cf_live (al_fs L)))
    \<and> cv_count v \<in> {length ys, length ys + 1}"
proof -
  obtain rs where rs: "log_inv A L rs" "al_domain L = domain" using reach_inv [OF assms(1-3)] by blast
  have all: "all_records A (cf_segs (al_fs L)) (cf_live (al_fs L)) = rs"
    using log_inv_disk [OF rs(1)] disk_records [OF assms(2)] by blast
  have dom: "al_domain L' = domain" using append_domain [OF assms(6)] rs(2) by simp
  have clean: "\<exists>v. verifySegmentedChain A domain since (cf_segs (al_fs L')) (cf_live (al_fs L')) = Inr v
      \<and> cv_count v = length zs" if "log_inv A L' zs" for zs
    using log_inv_disk [OF that] disk_verifies [OF assms(2,3)] dom by blast
  note st = storable_fits [OF assms(4)]
  from rs(1) assms(3,5) refl st assms(6) show ?thesis
  proof (cases rule: append_inv)
    case (committed ys)
    then show ?thesis using clean [OF committed(3)] all by auto
  next
    case (refused ys)
    then show ?thesis using clean [OF refused(3)] all by auto
  next
    case (torn ys L1 w)
    then have "al_handle L1 = Live" "al_domain L1 = domain" using assms(7) rs(2) by simp_all
    then show ?thesis
      using torn_verifies [OF assms(2,3) torn(4) st torn(6) _ torn(7) _ refl, of domain since] torn(3,8) all by auto
  qed
qed

text \<open>
  C38: the verifier and the repair disagree on one torn tail. If power is lost after the last
  byte of a record and before its newline, the verifier counts the record and reports its
  hash as the tip, but opening the log drops the record and continues from the tip before
  it: the reported tip is then no ancestor of what follows.
\<close>

theorem unterminated_record_is_dropped:
  assumes "log_reach A domain L" "json_ok A" "crypto_ok A" "fits A now ev L" "al_handle L = Live"
    and "r = new_record A now ev L" "fs = set_text Live (handle_text Live (al_fs L) @ ae_marshal A r) (al_fs L)"
    and "reopens A domain fs L'"
  shows "(\<exists>v. verifySegmentedChain A domain None (cf_segs fs) (cf_live fs) = Inr v
      \<and> cv_tip v = Some (digest A domain (al_prev L) r))
    \<and> all_records A (cf_segs (al_fs L')) (cf_live (al_fs L')) = all_records A (cf_segs (al_fs L)) (cf_live (al_fs L))"
proof
  obtain rs m where inv: "log_inv A L rs" and dom: "al_domain L = domain"
    and m: "chain_on_disk A domain (al_fs L) rs (al_prev L, m)" "al_seq L = m \<or> al_seq L = 0"
      "handle_ok Live (al_segNext L) (al_fs L)"
    using reach_inv [OF assms(1-3)] assms(5) by (auto simp: log_inv_def)
  note st = storable_fits [OF assms(4), folded assms(6)]
  let ?full = "set_text Live (handle_text Live (al_fs L) @ ae_marshal A r @ [newline]) (al_fs L)"
  have disk: "chain_on_disk A domain ?full (rs @ [r]) (digest A domain (al_prev L) r, ar_seq r)"
    using extend_disk [OF m(1,3) _ st] new_record_links [OF assms(3) m(2), of now ev] assms(6) dom by simp
  from m(1) obtain rss rl start where d: "disk_files A domain (al_fs L) rss rl start (al_prev L, m)"
    unfolding chain_on_disk_def by blast
  have "\<forall>x\<in>set (rl @ [r]). storable A x" "handle_text Live (al_fs L) = render A rl"
    using d st by (auto simp: disk_files_def)
  then have "verifySegmentedChain A domain None (cf_segs fs) (cf_live fs) =
      verifySegmentedChain A domain None (cf_segs ?full) (cf_live ?full)"
    using segment_unterminated [OF assms(2), of rl r]
    by (simp add: assms(7) verifySegmentedChain_def cong: sum.case_cong prod.case_cong)
  then show "\<exists>v. verifySegmentedChain A domain None (cf_segs fs) (cf_live fs) = Inr v
      \<and> cv_tip v = Some (digest A domain (al_prev L) r)"
    using disk_verifies [OF assms(2,3) disk, of None] by auto
  have "newline \<notin> set (ae_marshal A r)" by (rule storableD(3) [OF assms(2) st])
  from reopens_inv [OF assms(2,3) m(1) assms(8) _ _ this] have "log_inv A L' rs" by (simp add: assms(7))
  then show "all_records A (cf_segs (al_fs L')) (cf_live (al_fs L')) = all_records A (cf_segs (al_fs L)) (cf_live (al_fs L))"
    using log_inv_disk inv disk_records [OF assms(2)] by metis
qed

section \<open>A concrete codec\<close>

text \<open>
  What the properties ask of the codec and the cryptography can hold: numbers in decimal
  and strings in hexadecimal, separated by commas, in braces.
\<close>

definition hex_str :: "string \<Rightarrow> string" where
  "hex_str s = hex_encode (bytes_of s)"

definition csv_fields :: "audit_record \<Rightarrow> string list" where
  "csv_fields r =
     [itoa (unat (ar_seq r)), itoa (unat (ar_ts r)), itoa (unat (ar_cgroup_id r)), itoa (unat (ucast (ar_pid r) :: u64)),
      hex_str (ar_comm r), hex_str (ar_hook r), hex_str (ar_decision r), hex_str (ar_mode r),
      hex_str (ar_prev_hash r), hex_str (ar_hash r), hex_str (ar_sig r)]"

definition csv_marshal :: "audit_record \<Rightarrow> string" where
  "csv_marshal r = ''{'' @ join_with '','' (csv_fields r) @ ''}''"

definition unhex :: "string \<Rightarrow> string" where
  "unhex s = (case hex_decode s of None \<Rightarrow> '''' | Some bs \<Rightarrow> string_of bs)"

definition undec :: "string \<Rightarrow> u64" where
  "undec s = (case ParseUint64 s of None \<Rightarrow> 0 | Some w \<Rightarrow> w)"

definition csv_unmarshal :: "string \<Rightarrow> audit_record option" where
  "csv_unmarshal s =
     (if s = [] \<or> last s \<noteq> CHR ''}'' then None
      else
        let f = split_on CHR '','' (butlast (tl s))
        in if length f \<noteq> 11 then None
           else Some \<lparr>ar_seq = undec (f ! 0), ar_ts = undec (f ! 1), ar_cgroup_id = undec (f ! 2), ar_pid = ucast (undec (f ! 3)),
                      ar_comm = unhex (f ! 4), ar_hook = unhex (f ! 5), ar_decision = unhex (f ! 6), ar_mode = unhex (f ! 7),
                      ar_prev_hash = unhex (f ! 8), ar_hash = unhex (f ! 9), ar_sig = unhex (f ! 10)\<rparr>)"

definition csv_env :: audit_env where
  "csv_env =
     \<lparr>ae_sha256 = (\<lambda>m. take 32 (m @ replicate 32 0)), ae_sign = (\<lambda>m. m), ae_verify = (\<lambda>m sig. sig = m),
      ae_marshal = csv_marshal, ae_unmarshal = csv_unmarshal\<rparr>"

definition alnum :: "char \<Rightarrow> bool" where
  "alnum c \<longleftrightarrow> is_digit c \<or> (97 :: nat) \<le> of_char c \<and> of_char c \<le> (102 :: nat)"

lemma hex_encode_alnum: "list_all alnum (hex_encode bs)"
proof (induction bs)
  case (Cons b bs)
  have *: "alnum (hex_digit d)" if "d < 16" for d using that by (auto simp: alnum_def is_digit_def hex_digit_def)
  have "unat b div 16 < 16" using unat_u8_less [of b] by (simp add: less_mult_imp_div_less)
  with Cons show ?case by (simp add: hex_encode_def *)
qed (simp add: hex_encode_def)

lemma itoa_alnum: "list_all alnum (itoa n)"
  using itoa_digits [of n] by (auto simp: alnum_def list_all_iff)

lemma csv_fields_alnum: "\<forall>f\<in>set (csv_fields r). list_all alnum f"
  by (simp add: csv_fields_def hex_str_def itoa_alnum hex_encode_alnum)

lemma not_alnum: "\<not> alnum CHR '',''" "\<not> alnum CHR ''}''" "\<not> alnum newline"
  by (simp_all add: alnum_def is_digit_def newline_def)

lemma join_chars: "set (join_with sep xs) \<subseteq> \<Union> (set ` set xs) \<union> set sep"
  by (induction sep xs rule: join_with.induct) auto

lemma csv_body_chars: "c \<in> set (join_with '','' (csv_fields r)) \<Longrightarrow> alnum c \<or> c = CHR '',''"
  using join_chars [of "'',''" "csv_fields r"] csv_fields_alnum [of r] by (fastforce simp: list_all_iff)

lemma unhex_hex_str [simp]: "unhex (hex_str s) = s"
proof -
  have "string_of (bytes_of s) = s" by (simp add: string_of_def bytes_of_def comp_def)
  then show ?thesis by (simp add: unhex_def hex_str_def)
qed

lemma undec_itoa [simp]: "undec (itoa (unat w)) = w"
  by (simp add: undec_def ParseUint64_itoa)

lemma ucast_pid_back: "ucast (ucast (p :: u32) :: u64) = p"
  by transfer simp

lemma csv_round_trip: "csv_unmarshal (csv_marshal r) = Some r"
proof -
  have "split_on CHR '','' (join_with '','' (csv_fields r)) = csv_fields r"
    using csv_fields_alnum [of r] not_alnum(1) by (intro split_join) (auto simp: csv_fields_def list_all_iff)
  moreover have "ucast (ucast (ar_pid r) :: u64) = ar_pid r" by (rule ucast_pid_back)
  ultimately show ?thesis
    by (simp add: csv_unmarshal_def csv_marshal_def butlast_append) (simp add: csv_fields_def)
qed

lemma csv_torn: "strict_prefix p (csv_marshal r) \<Longrightarrow> csv_unmarshal p = None"
proof -
  assume a: "strict_prefix p (csv_marshal r)"
  then have "prefix p (''{'' @ join_with '','' (csv_fields r))"
    by (simp add: csv_marshal_def strict_prefix_def) (metis append_Cons prefix_snoc)
  then have "set p \<subseteq> set (''{'' @ join_with '','' (csv_fields r))" by (rule set_mono_prefix)
  then have "CHR ''}'' \<notin> set p" using csv_body_chars [of "CHR ''}''" r] not_alnum(2) by auto
  then show ?thesis by (metis csv_unmarshal_def last_in_set)
qed

lemma csv_json_ok: "json_ok csv_env"
  using csv_body_chars [of newline] not_alnum(3)
  by (auto simp: json_ok_def csv_env_def csv_round_trip csv_torn)
     (auto simp: json_text_def csv_marshal_def newline_def)

lemma csv_crypto_ok: "crypto_ok csv_env"
  by (simp add: crypto_ok_def csv_env_def min_def)

text \<open>A log that is created and appended to once.\<close>

definition no_faults :: append_io where
  "no_faults =
     \<lparr>io_stat = True, io_seal_sync = True, io_rename = True, io_open = True, io_unrename = True, io_remove = (\<lambda>_. True),
      io_restat = True, io_write = None, io_sync = True, io_truncate = True\<rparr>"

definition new_log :: audit_log where
  "new_log =
     \<lparr>al_fs = \<lparr>cf_live = Some '''', cf_segs = []\<rparr>, al_handle = Live, al_prev = zeroHash, al_seq = 0, al_segNext = 1,
      al_domain = ''collector'', al_rotateBytes = 0, al_segKeep = 1\<rparr>"

definition an_event :: prov_event where
  "an_event =
     \<lparr>pe_cgroup_id = 7, pe_pid = 9, pe_comm = [115, 104], pe_hook = ''bpf'', pe_decision = ''denied'', pe_mode = ''enforce''\<rparr>"

lemma new_log_reach: "log_reach csv_env ''collector'' new_log"
proof (rule log_reach.created)
  have "openAuditLog csv_env \<lparr>oi_repair = True, oi_readable = (\<lambda>_. True), oi_open = True, oi_key = True\<rparr>
      ''collector'' None None no_files = Some new_log"
    by (simp add: openAuditLog_def no_files_def new_log_def repairTornTail_def lastChainTip_def nextSegNum_def
        auditSegmentConfig_def map_filter_simps)
  then show "reopens csv_env ''collector'' no_files new_log"
    unfolding reopens_def
    by (intro exI [of _ "\<lparr>oi_repair = True, oi_readable = (\<lambda>_. True), oi_open = True, oi_key = True\<rparr>"] exI conjI) simp_all
qed

lemma length_join: "length (join_with sep xs) \<le> sum_list (map length xs) + length xs * length sep"
  by (induction sep xs rule: join_with.induct) auto

lemma length_hex_str: "length (hex_str s) = 2 * length s" "length (hex_encode bs) = 2 * length bs"
proof -
  show "length (hex_encode bs) = 2 * length bs" for bs by (induction bs) (simp_all add: hex_encode_def)
  then show "length (hex_str s) = 2 * length s" by (simp add: hex_str_def)
qed

lemma ascii_valid: "list_all (\<lambda>c. of_char c < (128 :: nat)) s \<Longrightarrow> toValidUTF8 s = s"
  using valid_utf8_ascii [of s] by (simp add: valid_utf8_def)

lemma length_itoa: "length (itoa n) \<le> Suc n"
proof (induction n rule: itoa.induct)
  case (1 n)
  show ?case
  proof (cases "n < 10")
    case False
    then have "length (itoa (n div 10)) \<le> Suc (n div 10)" using 1 by simp
    moreover have "n div 10 < n" using False by simp
    ultimately show ?thesis by (subst itoa.simps) (simp add: False)
  qed (simp add: itoa.simps)
qed

lemma event_length:
  assumes "length (al_prev L) = 32" "unat (al_seq L + 1) \<le> 100"
  shows "length (ae_marshal csv_env (new_record csv_env 5 an_event L)) < 5000"
proof -
  let ?r = "new_record csv_env 5 an_event L"
  have sum: "length (digest csv_env domain p r) = 32" for domain p r
    using csv_crypto_ok by (simp add: digest_def crypto_ok_def)
  have sign: "ae_sign csv_env m = m" for m by (simp add: csv_env_def)
  have num: "length (itoa (unat (al_seq L + 1))) \<le> 101" "length (itoa 5) \<le> 6" "length (itoa 7) \<le> 8" "length (itoa 9) \<le> 10"
    using length_itoa [of "unat (al_seq L + 1)"] length_itoa [of 5] length_itoa [of 7] length_itoa [of 9] assms(2) by simp_all
  have "sum_list (map length (csv_fields ?r)) < 1000"
    using num by (simp add: csv_fields_def new_record_def record_body_def Let_def an_event_def length_hex_str ascii_valid
        string_of_def sum sign assms(1))
  then have "length (join_with '','' (csv_fields ?r)) < 2000"
    using length_join [of "'',''" "csv_fields ?r"] by (simp add: csv_fields_def)
  moreover have "ae_marshal csv_env ?r = csv_marshal ?r" by (simp add: csv_env_def)
  ultimately show ?thesis by (simp add: csv_marshal_def)
qed

lemma event_fits:
  "length (al_prev L) = 32 \<Longrightarrow> unat (al_seq L + 1) \<le> 100 \<Longrightarrow> fits csv_env 5 an_event L"
  using event_length [of L] by (simp add: fits_def max_line_def)

lemma an_event_fits: "fits csv_env 5 an_event new_log"
  by (rule event_fits) (simp_all add: new_log_def zeroHash_def)

lemma no_faults_in_order: "prune_in_order (io_remove no_faults)"
  by (simp add: prune_in_order_def no_faults_def)

text \<open>Power is lost after \<open>k\<close> bytes.\<close>

definition power_loss :: "nat \<Rightarrow> append_io" where
  "power_loss k = no_faults\<lparr>io_write := Some k, io_truncate := False\<rparr>"

definition demo_log :: audit_log where
  "demo_log = snd (append_record csv_env no_faults 5 an_event new_log)"

definition torn_log :: audit_log where
  "torn_log = snd (append_record csv_env (power_loss 3) 5 an_event new_log)"

lemma demo_append: "append_record csv_env no_faults 5 an_event new_log = (True, demo_log)"
  by (simp add: demo_log_def append_record_def write_record_def no_faults_def new_log_def Let_def)

lemma torn_append: "append_record csv_env (power_loss 3) 5 an_event new_log = (False, torn_log)" "al_handle torn_log = Live"
  by (simp_all add: torn_log_def append_record_def write_record_def rollback_def power_loss_def no_faults_def new_log_def Let_def)



theorem crashed_files_verify_witness:
  "\<exists>v ys. verifySegmentedChain csv_env ''collector'' None (cf_segs (al_fs torn_log)) (cf_live (al_fs torn_log)) = Inr v
    \<and> suffix ys (all_records csv_env (cf_segs (al_fs new_log)) (cf_live (al_fs new_log)))
    \<and> cv_count v \<in> {length ys, length ys + 1}"
  by (rule crashed_files_verify [OF new_log_reach csv_json_ok csv_crypto_ok an_event_fits _ torn_append])
    (simp add: power_loss_def no_faults_def prune_in_order_def)

theorem unterminated_record_is_dropped_witness:
  "\<exists>fs L'. reopens csv_env ''collector'' fs L'
    \<and> (\<exists>v. verifySegmentedChain csv_env ''collector'' None (cf_segs fs) (cf_live fs) = Inr v
        \<and> cv_tip v = Some (digest csv_env ''collector'' (al_prev new_log) (new_record csv_env 5 an_event new_log)))
    \<and> all_records csv_env (cf_segs (al_fs L')) (cf_live (al_fs L')) =
        all_records csv_env (cf_segs (al_fs new_log)) (cf_live (al_fs new_log))"
proof -
  define fs where "fs = set_text Live (handle_text Live (al_fs new_log) @
    ae_marshal csv_env (new_record csv_env 5 an_event new_log)) (al_fs new_log)"
  let ?io = "\<lparr>oi_repair = True, oi_readable = (\<lambda>_. True), oi_open = True, oi_key = True\<rparr>"
  have "\<exists>L'. openAuditLog csv_env ?io ''collector'' None None fs = Some L'" by (simp add: openAuditLog_def Let_def)
  then obtain L' where "openAuditLog csv_env ?io ''collector'' None None fs = Some L'" ..
  then have r: "reopens csv_env ''collector'' fs L'"
    unfolding reopens_def by (intro exI [of _ ?io] exI conjI) simp_all
  have live: "al_handle new_log = Live" by (simp add: new_log_def)
  from unterminated_record_is_dropped [OF new_log_reach csv_json_ok csv_crypto_ok an_event_fits live refl fs_def r] r
  show ?thesis by blast
qed

end
