(* ===== verification/Audit_Retention.thy ===== *)
theory Audit_Retention
  imports Audit_Durability
begin

text \<open>
  Retention of the audit chains: pruning bounds the disk while its calls succeed, and can
  break the chain when a call fails.
\<close>

section \<open>A prune that leaves a hole\<close>

lemma chain_links:
  "chain_from A domain (p, n) (r # rs) = Some st \<Longrightarrow> hex_decode (ar_prev_hash r) = Some p"
  by (auto simp: hexEqual_def split: if_splits)

lemma chain_splitE:
  assumes "chain_from A domain st (xs @ ys) = Some u"
  obtains p n where "chain_from A domain st xs = Some (p, n)" "chain_from A domain (p, n) ys = Some u"
  using assms by (auto simp: chain_from_append split: option.splits)

text \<open>Without its second segment a chain does not link up.\<close>

lemma hole_rejected:
  assumes "json_ok A" "disk_files A domain fs (rs1 # rs2 # rs3 # rss) rl (zeroHash, 0) tip"
    and "cf_segs fs = s1 # s2 # s3 # segs" "fst s1 = 1"
    and "rs = concat (rs1 # rs2 # rs3 # rss) @ rl" "length domain < 2 ^ 63" "\<forall>r\<in>set rs. sized r"
    and "\<not> sha_broken A (set (hashed A domain zeroHash rs))"
  shows "\<exists>e. verifySegmentedChain A domain since (s1 # s3 # segs) (cf_live fs) = Inl e"
proof (cases "verifySegmentedChain A domain since (s1 # s3 # segs) (cf_live fs)")
  case (Inr v)
  note d = assms(2) [unfolded disk_files_def]
  obtain r3 rs3' where r3: "rs3 = r3 # rs3'" using d by (cases rs3) auto
  have c: "chain_from A domain (zeroHash, 0) ((rs1 @ rs2) @ r3 # rs3' @ concat rss @ rl) = Some tip"
    using d by (simp add: r3 del: chain_from.simps)
  then obtain t2 m2 where c2: "chain_from A domain (zeroHash, 0) (rs1 @ rs2) = Some (t2, m2)"
    and l2: "hex_decode (ar_prev_hash r3) = Some t2"
    using chain_links by (metis chain_splitE)
  from c2 obtain t1 m1 where c1: "chain_from A domain (zeroHash, 0) rs1 = Some (t1, m1)" by (rule chain_splitE)
  have "concat (map (\<lambda>(n, body). file_records A (Some body)) (s1 # s3 # segs)) = concat (rs1 # rs3 # rss)"
    using d by (intro segs_records [OF assms(1)]) (auto simp: assms(3))
  moreover have "file_records A (cf_live fs) = rl" using d by (intro live_records [OF assms(1)]) auto
  ultimately have "all_records A (s1 # s3 # segs) (cf_live fs) = concat (rs1 # rs3 # rss) @ rl"
    by (simp only: all_records_def)
  moreover have "unpruned (s1 # s3 # segs)" using assms(4) by (simp add: unpruned_def)
  ultimately obtain st where "chain_from A domain (zeroHash, 0) (concat (rs1 # rs3 # rss) @ rl) = Some st"
    using chain_sound [OF Inr] by metis
  then have "chain_from A domain (zeroHash, 0) (rs1 @ r3 # rs3' @ concat rss @ rl) = Some st" by (simp add: r3)
  then have "hex_decode (ar_prev_hash r3) = Some t1"
    using c1 chain_links by (metis chain_splitE option.inject prod.inject)
  then have "t1 = t2" using l2 by simp
  moreover have "set (hashed A domain zeroHash (rs1 @ rs2)) \<subseteq> set (hashed A domain zeroHash rs)"
    "set (hashed A domain zeroHash rs1) \<subseteq> set (hashed A domain zeroHash rs)"
    using hashed_append [OF c2, of "concat (rs3 # rss) @ rl"] hashed_append [OF c1, of rs2] by (auto simp: assms(5))
  ultimately have "map chained rs1 = map chained (rs1 @ rs2)"
    using assms(7) c1 c2 by (intro same_tip_same_history [OF assms(8,6)]) (auto simp: assms(5))
  then have "length rs1 = length (rs1 @ rs2)" by (metis length_map)
  then show ?thesis using d by simp
qed simp

text \<open>
  C37: a prune that fails on an old segment and succeeds on a newer one breaks the chain. If
  segment 1 cannot be unlinked but segment 2 can, the files that remain are rejected by the
  verifier, so the next boot is refused although no record was tampered with.
\<close>

theorem failed_unlink_breaks_chain:
  assumes "log_reach A domain L" "json_ok A" "crypto_ok A"
    and "cf_segs (al_fs L) = (1, b1) # (2, b2) # s3 # segs" "keep = Suc (length segs)" "\<not> remove 1" "remove 2"
    and "rs = all_records A (cf_segs (al_fs L)) (cf_live (al_fs L))" "length domain < 2 ^ 63" "\<forall>r\<in>set rs. sized r"
  shows "(\<exists>e. verifySegmentedChain A domain since (pruneSegments remove keep (cf_segs (al_fs L))) (cf_live (al_fs L)) = Inl e)
    \<or> sha_broken A (set (hashed A domain zeroHash rs))"
proof -
  obtain rs' tip where disk: "chain_on_disk A domain (al_fs L) rs' tip"
    using reach_inv [OF assms(1-3)] log_inv_disk by blast
  then have rs': "rs' = rs" using disk_records [OF assms(2)] assms(8) by blast
  obtain rss rl start where rss: "rs = concat rss @ rl" and d: "disk_files A domain (al_fs L) rss rl start tip"
    using disk unfolding chain_on_disk_def rs' by blast
  have start: "start = (zeroHash, 0)" using d assms(4) by (simp add: disk_files_def unpruned_def)
  obtain rs1 rs2 rs3 rss' where "rss = rs1 # rs2 # rs3 # rss'"
    using d assms(4) by (auto simp: disk_files_def)
  moreover have "pruneSegments remove keep (cf_segs (al_fs L)) = (1, b1) # s3 # segs"
    using assms(4-7) by (simp add: pruneSegments_def)
  moreover from calculation(1) have "disk_files A domain (al_fs L) (rs1 # rs2 # rs3 # rss') rl (zeroHash, 0) tip"
    using d start by simp
  ultimately show ?thesis
    using hole_rejected [OF assms(2) _ assms(4) _ _ assms(9,10), of rs1 rs2 rs3 rss' rl tip since] rss by auto
qed

text \<open>A log that seals a segment at every append and unlinks none.\<close>

definition unlink_fails :: append_io where
  "unlink_fails = no_faults\<lparr>io_remove := (\<lambda>_. False)\<rparr>"

fun sealing_log :: "nat \<Rightarrow> audit_log" where
  "sealing_log 0 = new_log\<lparr>al_rotateBytes := 1\<rparr>"
| "sealing_log (Suc n) = snd (append_record csv_env unlink_fails 5 an_event (sealing_log n))"

lemma sealing_log_reach0: "log_reach csv_env ''collector'' (sealing_log 0)"
proof (rule log_reach.created)
  let ?io = "\<lparr>oi_repair = True, oi_readable = (\<lambda>_. True), oi_open = True, oi_key = True\<rparr>"
  have "openAuditLog csv_env ?io ''collector'' (Some 1) None no_files = Some (sealing_log 0)"
    by (simp add: openAuditLog_def no_files_def new_log_def repairTornTail_def lastChainTip_def nextSegNum_def
        auditSegmentConfig_def map_filter_simps)
  then show "reopens csv_env ''collector'' no_files (sealing_log 0)"
    unfolding reopens_def by (intro exI [of _ ?io] exI conjI) simp_all
qed

lemma prune_nothing: "pruneSegments (\<lambda>_. False) keep segs = segs"
  by (simp add: pruneSegments_def case_prod_beta)

lemma sealing_step:
  assumes "al_handle L = Live" "cf_live (al_fs L) = Some t" "al_rotateBytes L = 1" "t \<noteq> []"
    and "\<forall>m\<in>set (map fst (cf_segs (al_fs L))). m < al_segNext L"
  shows "\<exists>t'. t' \<noteq> [] \<and> append_record csv_env unlink_fails 5 an_event L =
    (True, L\<lparr>al_fs := \<lparr>cf_live = Some t', cf_segs = cf_segs (al_fs L) @ [(al_segNext L, t)]\<rparr>,
             al_handle := Live, al_segNext := al_segNext L + 1, al_seq := al_seq L + 1,
             al_prev := digest csv_env (al_domain L) (al_prev L) (new_record csv_env 5 an_event L)\<rparr>)"
proof -
  have "1 \<le> length t" using assms(4) by (cases t) auto
  then show ?thesis
    using assms
    by (intro exI [of _ "ae_marshal csv_env (new_record csv_env 5 an_event L) @ [newline]"])
      (simp add: append_record_def write_record_def rotate_def unlink_fails_def no_faults_def Let_def put_seg_last
        prune_nothing new_record_def record_body_def)
qed

definition sealing_inv :: "nat \<Rightarrow> audit_log \<Rightarrow> bool" where
  "sealing_inv n L \<longleftrightarrow>
     al_handle L = Live \<and> (\<exists>t. cf_live (al_fs L) = Some t \<and> (t = [] \<longleftrightarrow> n = 0)) \<and> al_rotateBytes L = 1 \<and>
     map fst (cf_segs (al_fs L)) = [1..<max 1 n] \<and> al_segNext L = max 1 n \<and>
     al_seq L = of_nat n \<and> length (al_prev L) = 32 \<and> log_reach csv_env ''collector'' L \<and>
     (\<exists>rs. log_inv csv_env L rs \<and> (\<forall>r\<in>set rs. sized r))"

lemma unlink_fails_in_order: "prune_in_order (io_remove unlink_fails)"
  by (simp add: prune_in_order_def unlink_fails_def no_faults_def)

lemma sized_new_record: "sized (new_record csv_env 5 an_event L)"
  by (simp add: sized_def new_record_def record_body_def Let_def an_event_def ascii_valid string_of_def)

lemma append_sized:
  assumes "log_inv csv_env L rs" "\<forall>r\<in>set rs. sized r" "fits csv_env 5 an_event L"
    and "append_record csv_env unlink_fails 5 an_event L = (True, L')"
  shows "\<exists>rs. log_inv csv_env L' rs \<and> (\<forall>r\<in>set rs. sized r)"
  using assms(1) csv_crypto_ok unlink_fails_in_order refl storable_fits [OF assms(3)] assms(4)
proof (cases rule: append_inv)
  case (committed ys)
  then show ?thesis
    using assms(2) sized_new_record set_mono_suffix [OF committed(2)] by (intro exI [of _ "ys @ [_]"]) auto
qed simp_all

lemma first_step:
  assumes "al_handle L = Live" "cf_live (al_fs L) = Some []" "al_rotateBytes L = 1"
  shows "\<exists>t'. t' \<noteq> [] \<and> append_record csv_env unlink_fails 5 an_event L =
    (True, L\<lparr>al_fs := (al_fs L)\<lparr>cf_live := Some t'\<rparr>, al_seq := al_seq L + 1,
             al_prev := digest csv_env (al_domain L) (al_prev L) (new_record csv_env 5 an_event L)\<rparr>)"
  using assms
  by (intro exI [of _ "ae_marshal csv_env (new_record csv_env 5 an_event L) @ [newline]"])
    (simp add: append_record_def write_record_def unlink_fails_def no_faults_def Let_def new_record_def record_body_def)

lemma sealing_inv_step:
  assumes "sealing_inv n L" "n < 50"
  shows "sealing_inv (Suc n) (snd (append_record csv_env unlink_fails 5 an_event L))"
proof -
  from assms(1) obtain t rs where inv: "al_handle L = Live" "cf_live (al_fs L) = Some t" "t = [] \<longleftrightarrow> n = 0"
    "al_rotateBytes L = 1" "map fst (cf_segs (al_fs L)) = [1..<max 1 n]" "al_segNext L = max 1 n" "al_seq L = of_nat n"
    "length (al_prev L) = 32" "log_reach csv_env ''collector'' L" "log_inv csv_env L rs" "\<forall>r\<in>set rs. sized r"
    by (auto simp: sealing_inv_def)
  have "unat (of_nat (Suc n) :: u64) = Suc n" using assms(2) by (simp add: unat_of_nat_small del: of_nat_Suc)
  then have "unat (of_nat n + 1 :: u64) = Suc n" by (simp add: add.commute)
  then have fits: "fits csv_env 5 an_event L" using assms(2) inv(7,8) by (intro event_fits) simp_all
  have len: "length (digest csv_env d p r) = 32" for d p r
    using csv_crypto_ok by (simp add: digest_def crypto_ok_def)
  obtain L' t' where L': "append_record csv_env unlink_fails 5 an_event L = (True, L')" and t': "t' \<noteq> []"
    and shape: "al_handle L' = Live" "cf_live (al_fs L') = Some t'" "al_rotateBytes L' = 1" "al_seq L' = of_nat n + 1"
      "map fst (cf_segs (al_fs L')) = [1..<Suc n]" "al_segNext L' = Suc n" "length (al_prev L') = 32"
  proof (cases "n = 0")
    case True
    then show ?thesis using first_step [OF inv(1) _ inv(4)] inv that len by auto
  next
    case False
    then show ?thesis using sealing_step [OF inv(1,2,4)] inv that len by (auto simp: max_def)
  qed
  have "log_reach csv_env ''collector'' L'"
    using log_reach.appended [OF inv(9) fits unlink_fails_in_order _ L'] by (simp add: unlink_fails_def no_faults_def)
  then show ?thesis
    using append_sized [OF inv(10,11) fits L'] t' shape by (auto simp: sealing_inv_def L')
qed

lemma sealing_run: "n \<le> 50 \<Longrightarrow> sealing_inv n (sealing_log n)"
proof (induction n)
  case 0
  obtain rs where "log_inv csv_env (sealing_log 0) rs"
    using reach_inv [OF sealing_log_reach0 csv_json_ok csv_crypto_ok] by blast
  moreover have "all_records csv_env (cf_segs (al_fs (sealing_log 0))) (cf_live (al_fs (sealing_log 0))) = []"
    by (simp add: new_log_def all_records_def file_records_def scanned_def scan_lines_def)
  ultimately have "log_inv csv_env (sealing_log 0) []"
    using log_inv_disk disk_records [OF csv_json_ok] by metis
  then show ?case using sealing_log_reach0 by (auto simp: sealing_inv_def new_log_def zeroHash_def)
next
  case (Suc n)
  then show ?case using sealing_inv_step [of n "sealing_log n"] by simp
qed

theorem failed_unlink_breaks_chain_witness:
  "\<exists>rs. rs = all_records csv_env (cf_segs (al_fs (sealing_log 4))) (cf_live (al_fs (sealing_log 4)))
    \<and> ((\<exists>e. verifySegmentedChain csv_env ''collector'' None
             (pruneSegments (\<lambda>n. n \<noteq> 1) 1 (cf_segs (al_fs (sealing_log 4)))) (cf_live (al_fs (sealing_log 4))) = Inl e)
        \<or> sha_broken csv_env (set (hashed csv_env ''collector'' zeroHash rs)))"
proof -
  let ?L = "sealing_log 4"
  have inv: "sealing_inv 4 ?L" by (rule sealing_run) simp
  then obtain rs where reach: "log_reach csv_env ''collector'' ?L" and rs: "log_inv csv_env ?L rs" "\<forall>r\<in>set rs. sized r"
    and nums: "map fst (cf_segs (al_fs ?L)) = [1..<4]" unfolding sealing_inv_def by auto
  have "[1..<4] = [1, 2, 3 :: nat]" by (simp add: upt_rec)
  with nums obtain b1 b2 s3 where segs: "cf_segs (al_fs ?L) = [(1, b1), (2, b2), s3]"
    by (auto simp: map_eq_Cons_conv)
  have all: "all_records csv_env (cf_segs (al_fs ?L)) (cf_live (al_fs ?L)) = rs"
    using log_inv_disk [OF rs(1)] disk_records [OF csv_json_ok] by blast
  have "(\<exists>e. verifySegmentedChain csv_env ''collector'' None
             (pruneSegments (\<lambda>n. n \<noteq> 1) 1 (cf_segs (al_fs ?L))) (cf_live (al_fs ?L)) = Inl e)
        \<or> sha_broken csv_env (set (hashed csv_env ''collector'' zeroHash rs))"
    by (rule failed_unlink_breaks_chain [OF reach csv_json_ok csv_crypto_ok segs]) (simp_all add: all rs(2))
  then show ?thesis using all by blast
qed

section \<open>The footprint\<close>

text \<open>
  Sizes of the files of a log whose lines, with their newlines, have at most \<open>M\<close> bytes.
\<close>

definition fs_size :: "chain_fs \<Rightarrow> nat" where
  "fs_size fs = sum_list (map (\<lambda>(n, b). length b) (cf_segs fs)) + length (handle_text Live fs)"

definition within_footprint :: "nat \<Rightarrow> audit_log \<Rightarrow> bool" where
  "within_footprint M L \<longleftrightarrow>
     al_handle L = Live \<and> length (cf_segs (al_fs L)) \<le> al_segKeep L \<and>
     (\<forall>(n, b)\<in>set (cf_segs (al_fs L)). n < al_segNext L \<and> length b < al_rotateBytes L + M) \<and>
     (\<exists>t. cf_live (al_fs L) = Some t \<and> length t < al_rotateBytes L + M)"

text \<open>The calls that rotation needs succeed; the write, its sync and its roll-back may fail.\<close>

definition rotation_works :: "append_io \<Rightarrow> bool" where
  "rotation_works io \<longleftrightarrow>
     io_seal_sync io \<and> io_rename io \<and> io_open io \<and> io_restat io \<and> (\<forall>n. io_remove io n)"

lemma prune_all: "\<forall>n. remove n \<Longrightarrow> pruneSegments remove keep segs = drop (length segs - keep) segs"
  by (simp add: pruneSegments_def case_prod_beta)

lemma within_footprint_size:
  assumes "within_footprint M L"
  shows "fs_size (al_fs L) \<le> (al_segKeep L + 1) * (al_rotateBytes L + M)"
proof -
  let ?B = "al_rotateBytes L + M"
  have "sum_list (map (\<lambda>(n, b). length b) segs) \<le> length segs * ?B" if "\<forall>(n, b)\<in>set segs. length b < ?B"
    for segs :: "(nat \<times> string) list"
    using that by (induction segs) auto
  moreover have "\<forall>(n, b)\<in>set (cf_segs (al_fs L)). length b < ?B" using assms by (auto simp: within_footprint_def)
  ultimately have "sum_list (map (\<lambda>(n, b). length b) (cf_segs (al_fs L))) \<le> length (cf_segs (al_fs L)) * ?B" by blast
  also have "\<dots> \<le> al_segKeep L * ?B" using assms by (intro mult_le_mono1) (simp add: within_footprint_def)
  finally show ?thesis using assms by (auto simp: fs_size_def within_footprint_def)
qed

lemma write_footprint:
  assumes "within_footprint M L" "length (handle_text Live (al_fs L)) < al_rotateBytes L" "length (ae_marshal A r) < M"
    and "write_record A io off r L = (ok, L')"
  shows "within_footprint M L' \<and> al_segKeep L' = al_segKeep L \<and> al_rotateBytes L' = al_rotateBytes L"
proof -
  have live: "al_handle L = Live" using assms(1) by (simp add: within_footprint_def)
  define w where "w = (case io_write io of None \<Rightarrow> ae_marshal A r @ [newline] | Some k \<Rightarrow> take k (ae_marshal A r @ [newline]))"
  let ?b = "handle_text Live (al_fs L)"
  have "length w \<le> length (ae_marshal A r @ [newline])"
    unfolding w_def by (cases "io_write io") (simp_all only: option.case length_take min.cobounded1 order.refl)
  then have "length (?b @ w) < al_rotateBytes L + M" using assms(2,3) by simp
  moreover have "al_fs L' = (al_fs L)\<lparr>cf_live := Some (?b @ w)\<rparr> \<or> al_fs L' = (al_fs L)\<lparr>cf_live := Some (take off (?b @ w))\<rparr>"
    using assms(4) live unfolding write_record_def rollback_def Let_def w_def [symmetric] by (auto split: if_splits)
  ultimately have "\<exists>t. al_fs L' = (al_fs L)\<lparr>cf_live := Some t\<rparr> \<and> length t < al_rotateBytes L + M"
    by (metis length_take min.strict_coboundedI1)
  moreover have "al_handle L' = Live \<and> al_segNext L' = al_segNext L \<and> al_segKeep L' = al_segKeep L
      \<and> al_rotateBytes L' = al_rotateBytes L"
    using assms(4) live by (auto simp: write_record_def rollback_def Let_def split: if_splits)
  ultimately show ?thesis using assms(1) by (auto simp: within_footprint_def)
qed

text \<open>
  C34: rotation bounds the disk. While the calls that rotation needs succeed, a log whose
  lines are shorter than \<open>M\<close> stays within its footprint, whatever happens to the writes:
  at most \<open>segKeep\<close> segments and the live file, each less than \<open>M\<close> above the rotation size.
\<close>

theorem log_size_bounded:
  assumes "within_footprint M L" "al_rotateBytes L > 0" "rotation_works io" "length (ae_marshal A (new_record A now ev L)) < M"
    and "append_record A io now ev L = (ok, L')"
  shows "within_footprint M L' \<and> fs_size (al_fs L') \<le> (al_segKeep L + 1) * (al_rotateBytes L + M)"
proof -
  have "within_footprint M L' \<and> al_segKeep L' = al_segKeep L \<and> al_rotateBytes L' = al_rotateBytes L"
  proof (cases "io_stat io \<and> length (handle_text Live (al_fs L)) \<ge> al_rotateBytes L")
    case False
    have "al_handle L = Live" using assms(1) by (simp add: within_footprint_def)
    with False assms(5) consider "L' = L"
      | off where "write_record A io off (new_record A now ev L) L = (ok, L')" "length (handle_text Live (al_fs L)) < al_rotateBytes L"
      by (auto simp: append_record_def Let_def not_le split: if_splits)
    then show ?thesis
    proof cases
      case 2
      then show ?thesis using write_footprint [OF assms(1) 2(2) assms(4) 2(1)] by simp
    qed (use assms(1) in simp)
  next
    case True
    obtain t where t: "al_handle L = Live" "cf_live (al_fs L) = Some t" "length t < al_rotateBytes L + M"
      using assms(1) by (auto simp: within_footprint_def)
    define L1 where "L1 = snd (rotate io L)"
    have older: "\<forall>m\<in>set (map fst (cf_segs (al_fs L))). m < al_segNext L"
      using assms(1) by (auto simp: within_footprint_def)
    have rot: "rotate io L = (True, L1)" and L1: "al_handle L1 = Live" "cf_live (al_fs L1) = Some []"
      "cf_segs (al_fs L1) = pruneSegments (io_remove io) (al_segKeep L) (cf_segs (al_fs L) @ [(al_segNext L, t)])"
      "al_segKeep L1 = al_segKeep L" "al_rotateBytes L1 = al_rotateBytes L" "al_segNext L1 = al_segNext L + 1"
      using assms(3) t by (simp_all add: L1_def rotate_def rotation_works_def Let_def put_seg_last [OF older])
    let ?segs = "cf_segs (al_fs L) @ [(al_segNext L, t)]"
    have segs: "cf_segs (al_fs L1) = drop (length ?segs - al_segKeep L) ?segs"
      using assms(3) prune_all unfolding L1(3) rotation_works_def by blast
    then have "length (cf_segs (al_fs L1)) \<le> al_segKeep L" by simp
    moreover have "set (cf_segs (al_fs L1)) \<subseteq> set ?segs" unfolding segs by (rule set_drop_subset)
    ultimately have "within_footprint M L1"
      using assms(1,2) t L1 by (fastforce simp: within_footprint_def)
    moreover have "append_record A io now ev L = write_record A io 0 (new_record A now ev L) L1"
      using True assms(2,3) t rot L1(1,2) by (simp add: append_record_def rotation_works_def Let_def)
    ultimately show ?thesis
      using write_footprint [of M L1 A "new_record A now ev L" io 0 ok L'] assms(2,4,5) L1 by simp
  qed
  then show ?thesis using within_footprint_size [of M L'] by simp
qed

theorem log_size_bounded_witness:
  "within_footprint 5000 (sealing_log 0)
    \<and> (\<exists>L' ok. append_record csv_env no_faults 5 an_event (sealing_log 0) = (ok, L') \<and> within_footprint 5000 L'
        \<and> fs_size (al_fs L') \<le> (1 + 1) * (1 + 5000))"
proof -
  have w: "within_footprint 5000 (sealing_log 0)" by (simp add: within_footprint_def new_log_def)
  have "length (ae_marshal csv_env (new_record csv_env 5 an_event (sealing_log 0))) < 5000"
    by (rule event_length) (simp_all add: new_log_def zeroHash_def)
  moreover obtain ok L' where "append_record csv_env no_faults 5 an_event (sealing_log 0) = (ok, L')"
    by (cases "append_record csv_env no_faults 5 an_event (sealing_log 0)")
  moreover have "rotation_works no_faults" by (simp add: rotation_works_def no_faults_def)
  ultimately show ?thesis using w log_size_bounded [OF w, of no_faults csv_env 5 an_event ok L'] by (auto simp: new_log_def)
qed

end
