(* ===== verification/Agent_Tools.thy ===== *)
theory Agent_Tools
  imports Go_Strings
begin

text \<open>
  The agent runtime (\<open>src/agent\<close>): the chat leg to the router, the tools and the bounded loop
  that lets a model call them (\<open>types.go\<close>, \<open>protocol.go\<close>, \<open>tools.go\<close>, \<open>loop.go\<close>). What the
  agent does to the outside is a list of actions: a request posted to the router, a page
  fetched, a collector command run, each with its outcome. The outcomes come from an
  environment indexed by the number of actions before it, so that an environment fixes all the
  inputs of one run. A credential is read by its directory and name. The parser of \<open>net/url\<close>, the JSON decoder, the Unicode case tables and
  \<open>strconv.Quote\<close> are fields of the environment.
\<close>

section \<open>Requests, actions and the environment\<close>

record ChatMessage =
  Role :: string
  Content :: string

record chat_request =
  rq_messages :: "ChatMessage list"
  rq_max_tokens :: nat
  rq_route :: string

definition RouteLocal :: string where
  "RouteLocal = ''local''"

datatype post_result = Post_error string | Post_reply nat string

datatype get_result = Get_bad string | Get_denied | Get_failed string | Get_response nat string

datatype agent_act =
    Posted chat_request post_result
  | Got string get_result
  | Ran "string list" string bool

record agent_env =
  ge_post :: "nat \<Rightarrow> chat_request \<Rightarrow> post_result"
  ge_get :: "nat \<Rightarrow> string \<Rightarrow> get_result"
  ge_exec :: "nat \<Rightarrow> string list \<Rightarrow> string \<times> bool"
  ge_expired :: "nat \<Rightarrow> string option"
  ge_getenv :: "string \<Rightarrow> string"
  ge_url :: "string \<Rightarrow> (string \<times> string) option"
  ge_choices :: "string \<Rightarrow> string + string list"
  ge_lower :: "string \<Rightarrow> string"
  ge_quote :: "string \<Rightarrow> string"
  ge_cred :: "string \<Rightarrow> string \<Rightarrow> string option"

definition truncate_text :: "string \<Rightarrow> nat \<Rightarrow> string" where
  "truncate_text s n = (if length s > n then take n s @ [CHR 0xE2, CHR 0x80, CHR 0xA6] else s)"

definition chat :: "agent_env \<Rightarrow> agent_act list \<Rightarrow> ChatMessage list \<Rightarrow> (string + string) \<times> agent_act list" where
  "chat env tr msgs =
     (let rq = \<lparr>rq_messages = msgs, rq_max_tokens = 256, rq_route = RouteLocal\<rparr>;
          r = ge_post env (length tr) rq
      in (case r of
            Post_error e \<Rightarrow> Inl e
          | Post_reply st body \<Rightarrow>
              let raw = take (2 ^ 20) body
              in if st \<noteq> 200 then Inl (''router HTTP '' @ itoa st @ '': '' @ truncate_text raw 160)
                 else case ge_choices env raw of
                        Inl e \<Rightarrow> Inl e
                      | Inr [] \<Rightarrow> Inl ''router returned no choices''
                      | Inr (c # cs) \<Rightarrow> Inr c,
          tr @ [Posted rq r]))"

section \<open>Tools\<close>

record tool =
  Validate :: "string \<Rightarrow> string option"
  Run :: "agent_act list \<Rightarrow> string \<Rightarrow> (string + string) \<times> agent_act list"

definition validClasses :: "string list" where
  "validClasses = [''loopback'', ''linklocal'', ''private'', ''public'', ''other'']"

definition validClassList :: "agent_env \<Rightarrow> string \<Rightarrow> string option" where
  "validClassList env arg =
     (if arg = '''' then Some ''empty class list''
      else case find (\<lambda>c. trimSpace c \<notin> set validClasses) (split_on (CHR '','') arg) of
             Some c \<Rightarrow> Some (''unknown egress class '' @ ge_quote env c)
           | None \<Rightarrow> None)"

definition hostOf :: "agent_env \<Rightarrow> string \<Rightarrow> string" where
  "hostOf env raw =
     (case ge_url env raw of
        Some (scheme, host) \<Rightarrow> if host \<noteq> '''' then host else raw
      | None \<Rightarrow> raw)"

definition fetchBodyCap :: nat where
  "fetchBodyCap = 8 * 1024"

text \<open>The observation or the error, the bytes written to the sink, and the actions.\<close>

definition fetchVia :: "agent_env \<Rightarrow> agent_act list \<Rightarrow> string \<Rightarrow> (string + string) \<times> string \<times> agent_act list" where
  "fetchVia env tr arg =
     (let r = ge_get env (length tr) arg;
          tr' = tr @ [Got arg r];
          host = hostOf env arg
      in case r of
           Get_bad e \<Rightarrow> (Inl e, '''', tr')
         | Get_denied \<Rightarrow>
             (Inr (''DENIED: egress to '' @ host @
                   '' blocked by the egress policy; you may request_egress public to ask the operator''),
              '''', tr')
         | Get_failed e \<Rightarrow> (Inr (''ERROR: fetch '' @ host @ '' failed: '' @ e), '''', tr')
         | Get_response st body \<Rightarrow>
             let b = take fetchBodyCap body
             in (Inr (''OK: fetch '' @ host @ '' -> HTTP '' @ itoa st @ '' ('' @ itoa (length b) @ '' bytes)''),
                 b, tr'))"

definition validate_fetch :: "agent_env \<Rightarrow> string \<Rightarrow> string option" where
  "validate_fetch env arg =
     (case ge_url env arg of
        Some (scheme, host) \<Rightarrow>
          if (scheme \<noteq> ''http'' \<and> scheme \<noteq> ''https'') \<or> host = '''' then Some ''expected an http(s) URL'' else None
      | None \<Rightarrow> Some ''expected an http(s) URL'')"

definition runCollector :: "agent_env \<Rightarrow> agent_act list \<Rightarrow> string list \<Rightarrow> (string + string) \<times> agent_act list" where
  "runCollector env tr args =
     (let (out, ok) = ge_exec env (length tr) args;
          s = trimSpace out
      in (Inr (if ok then ''escalation OK: '' @ s else ''ESCALATION DENIED: '' @ s), tr @ [Ran args out ok]))"

definition runDelegate ::
  "agent_env \<Rightarrow> agent_act list \<Rightarrow> string \<Rightarrow> string \<Rightarrow> string \<Rightarrow> (string + string) \<times> agent_act list" where
  "runDelegate env tr suffix classes task =
     (if ge_getenv env ''BULKHEAD_AGENT_ALLOW_DELEGATE'' = '''' then
        (Inr ''ERROR: delegation is disabled for this agent'', tr)
      else runCollector env tr ([''delegate'', suffix, classes] @ (if task \<noteq> '''' then [task] else [])))"

definition fetch_tool :: "agent_env \<Rightarrow> tool" where
  "fetch_tool env =
     \<lparr>Validate = validate_fetch env,
      Run = (\<lambda>tr arg. let (obs, sink, tr') = fetchVia env tr arg in (obs, tr'))\<rparr>"

definition request_egress_tool :: "agent_env \<Rightarrow> tool" where
  "request_egress_tool env =
     \<lparr>Validate = validClassList env,
      Run = (\<lambda>tr arg.
        if ge_getenv env ''BULKHEAD_AGENT_NO_EXPAND'' \<noteq> '''' then
          (Inr ''ERROR: a delegated child cannot widen its own egress; its ceiling is fixed at delegation (ask via a parent-launched agent)'', tr)
        else runCollector env tr [''expand'', arg])\<rparr>"

definition delegate_tool :: "agent_env \<Rightarrow> tool" where
  "delegate_tool env =
     \<lparr>Validate = (\<lambda>arg.
        let f = Fields arg
        in if length f < 2 then Some ''usage: delegate <suffix> <classes> [task...]''
           else validClassList env (f ! 1)),
      Run = (\<lambda>tr arg.
        let f = Fields arg;
            task = (if length f > 2 then join_with '' '' (drop 2 f) else '''')
        in runDelegate env tr (f ! 0) (f ! 1) task)\<rparr>"

definition toolRegistry :: "agent_env \<Rightarrow> string \<Rightarrow> tool option" where
  "toolRegistry env =
     map_of [(''fetch'', fetch_tool env), (''request_egress'', request_egress_tool env), (''delegate'', delegate_tool env)]"

section \<open>Directives of the model\<close>

datatype Directive = Tool_call string string | Final string

definition maxArgLen :: nat where
  "maxArgLen = 2048"

definition word_char :: "char \<Rightarrow> bool" where
  "word_char c \<longleftrightarrow>
     (let n = of_char c :: nat
      in 48 \<le> n \<and> n \<le> 57 \<or> 65 \<le> n \<and> n \<le> 90 \<or> n = 95 \<or> 97 \<le> n \<and> n \<le> 122)"

text \<open>One alternative of \<open>directiveRe\<close>: the word, a word boundary, blanks and the rest.\<close>

definition match_word :: "string \<Rightarrow> string \<Rightarrow> string option" where
  "match_word w line =
     (if \<not> hasPrefix line w then None
      else let t = drop (length w) line
           in case t of
                [] \<Rightarrow> Some ''''
              | c # cs \<Rightarrow>
                  if word_char c then None
                  else Some (dropWhile (\<lambda>x. x = CHR '' '' \<or> x = CHR 0x09) t))"

definition directiveRe :: "string \<Rightarrow> (bool \<times> string) option" where
  "directiveRe line =
     (case match_word ''TOOL'' line of
        Some r \<Rightarrow> Some (False, r)
      | None \<Rightarrow> map_option (Pair True) (match_word ''FINAL'' line))"

fun parse_reply_lines :: "agent_env \<Rightarrow> string list \<Rightarrow> Directive option" where
  "parse_reply_lines env [] = None"
| "parse_reply_lines env (line # lines) =
     (case directiveRe (trimSpace line) of
        None \<Rightarrow> parse_reply_lines env lines
      | Some (final, m) \<Rightarrow>
          let rest = take maxArgLen (trimSpace m)
          in if final then Some (Final rest)
             else let (name, arg, _) = Cut rest '' ''
                  in Some (Tool_call (ToLower (ge_lower env) (trimSpace name)) (trimSpace arg)))"

definition parse_reply :: "agent_env \<Rightarrow> string \<Rightarrow> Directive option" where
  "parse_reply env reply = parse_reply_lines env (split_on (CHR 0x0A) reply)"

section \<open>The loop\<close>

definition observationCap :: nat where
  "observationCap = 2 * 1024"

definition dispatch ::
  "(string \<Rightarrow> tool option) \<Rightarrow> agent_act list \<Rightarrow> string \<Rightarrow> string \<Rightarrow> string \<times> agent_act list" where
  "dispatch reg tr name arg =
     (case reg name of
        None \<Rightarrow> (''ERROR: unknown tool '' @ name, tr)
      | Some t \<Rightarrow>
          case Validate t arg of
            Some e \<Rightarrow> (''ERROR: bad arg for '' @ name @ '': '' @ e, tr)
          | None \<Rightarrow>
              case Run t tr arg of
                (Inl e, tr') \<Rightarrow> (''ERROR: '' @ name @ '': '' @ e, tr')
              | (Inr obs, tr') \<Rightarrow> (truncate_text obs observationCap, tr'))"

definition systemPrompt :: "agent_env \<Rightarrow> string" where
  "systemPrompt env =
     (let canExpand = (ge_getenv env ''BULKHEAD_AGENT_NO_EXPAND'' = '''')
      in join_with [CHR 0x0A]
        ([''You are a bulkhead agent. Accomplish the task using EXACTLY ONE action per turn.'',
          ''Reply with a SINGLE line, exactly one of:'',
          ''  TOOL fetch <url>               -- HTTP GET a URL''] @
         (if canExpand then
            [''  TOOL request_egress <classes>  -- ask the operator to widen this agent's egress (e.g. public)'']
          else []) @
         (if ge_getenv env ''BULKHEAD_AGENT_ALLOW_DELEGATE'' \<noteq> '''' then
            [''  TOOL delegate <suffix> <classes> <task>  -- spawn a sub-agent to do <task>; its egress is THIS agent's egress narrowed to <classes>'']
          else []) @
         [''  FINAL <text>                   -- you are done; give the answer''] @
         (if canExpand then
            [''If a fetch is DENIED by the egress policy, you may request_egress to ask a human for access, then retry.'']
          else []) @
         [''Output nothing but that one TOOL or FINAL line.'']))"

text \<open>The first number is what is left of the step budget, the second the step being made.\<close>

fun agent_loop ::
  "agent_env \<Rightarrow> (string \<Rightarrow> tool option) \<Rightarrow> nat \<Rightarrow> nat \<Rightarrow> nat \<Rightarrow> ChatMessage list \<Rightarrow> agent_act list \<Rightarrow>
   (string + string) \<times> agent_act list" where
  "agent_loop env reg maxSteps 0 step msgs tr =
     (Inl (''step budget ('' @ itoa maxSteps @ '') exhausted without FINAL''), tr)"
| "agent_loop env reg maxSteps (Suc left) step msgs tr =
     (if ge_expired env (length tr) \<noteq> None then (Inl (''deadline exceeded before step '' @ itoa step), tr)
      else (case chat env tr msgs of
        (Inl e, tr1) \<Rightarrow> (Inl (''step '' @ itoa step @ '' inference: '' @ e), tr1)
      | (Inr reply, tr1) \<Rightarrow>
          (case parse_reply env reply of
            None \<Rightarrow>
              agent_loop env reg maxSteps left (step + 1)
                (msgs @ [\<lparr>Role = ''assistant'', Content = reply\<rparr>,
                         \<lparr>Role = ''user'', Content = ''Emit exactly one line: TOOL <name> <arg> or FINAL <text>.''\<rparr>]) tr1
          | Some (Final arg) \<Rightarrow> (Inr arg, tr1)
          | Some (Tool_call name arg) \<Rightarrow>
              (let (obs, tr2) = dispatch reg tr1 name arg
               in agent_loop env reg maxSteps left (step + 1)
                   (msgs @ [\<lparr>Role = ''assistant'', Content = reply\<rparr>,
                            \<lparr>Role = ''user'', Content = ''OBSERVATION: '' @ obs\<rparr>]) tr2))))"

definition runLoop ::
  "agent_env \<Rightarrow> string \<Rightarrow> nat \<Rightarrow> (string \<Rightarrow> tool option) \<Rightarrow> (string + string) \<times> agent_act list" where
  "runLoop env task maxSteps reg =
     agent_loop env reg maxSteps maxSteps 1
       [\<lparr>Role = ''system'', Content = systemPrompt env\<rparr>, \<lparr>Role = ''user'', Content = ''Task: '' @ task\<rparr>] []"

section \<open>What the loop can do\<close>

text \<open>
  What one action may be: a request for the free tier, a fetch of an http(s) URL, an
  \<open>expand\<close> by an agent that may widen its egress, or a \<open>delegate\<close> by one that may delegate,
  both with a well-formed class list.
\<close>

fun allowed_act :: "agent_env \<Rightarrow> agent_act \<Rightarrow> bool" where
  "allowed_act env (Posted rq r) \<longleftrightarrow> rq_route rq = RouteLocal"
| "allowed_act env (Got url r) \<longleftrightarrow> validate_fetch env url = None"
| "allowed_act env (Ran args out ok) \<longleftrightarrow>
     (case args of
        [v, c] \<Rightarrow> v = ''expand'' \<and> ge_getenv env ''BULKHEAD_AGENT_NO_EXPAND'' = '''' \<and> validClassList env c = None
      | _ \<Rightarrow> False) \<or>
     (case args of
        v # s # c # t \<Rightarrow>
          v = ''delegate'' \<and> length t \<le> 1 \<and> ge_getenv env ''BULKHEAD_AGENT_ALLOW_DELEGATE'' \<noteq> '''' \<and>
          validClassList env c = None
      | _ \<Rightarrow> False)"

fun is_post :: "agent_act \<Rightarrow> bool" where
  "is_post (Posted rq r) = True"
| "is_post _ = False"

lemma chat_trace:
  "\<exists>r. snd (chat env tr msgs) =
     tr @ [Posted \<lparr>rq_messages = msgs, rq_max_tokens = 256, rq_route = RouteLocal\<rparr> r]"
  by (simp add: chat_def Let_def)

lemma runCollector_trace: "\<exists>out ok. snd (runCollector env tr args) = tr @ [Ran args out ok]"
  by (simp add: runCollector_def Let_def split: prod.splits)

lemma fetchVia_trace: "\<exists>r. snd (snd (fetchVia env tr arg)) = tr @ [Got arg r]"
  by (auto simp: fetchVia_def Let_def split: get_result.splits)

text \<open>A tool of the registry adds at most one action, an allowed one that is no post.\<close>

definition quiet_step :: "agent_env \<Rightarrow> agent_act list \<Rightarrow> agent_act list \<Rightarrow> bool" where
  "quiet_step env tr tr' \<longleftrightarrow> tr' = tr \<or> (\<exists>a. tr' = tr @ [a] \<and> allowed_act env a \<and> \<not> is_post a)"

lemma fetch_tool_step:
  "Validate (fetch_tool env) arg = None \<Longrightarrow> quiet_step env tr (snd (Run (fetch_tool env) tr arg))"
  using fetchVia_trace [of env tr arg]
  by (auto simp: fetch_tool_def quiet_step_def split: prod.splits)

lemma request_egress_tool_step:
  "Validate (request_egress_tool env) arg = None \<Longrightarrow> quiet_step env tr (snd (Run (request_egress_tool env) tr arg))"
  using runCollector_trace [of env tr "[''expand'', arg]"]
  by (auto simp: request_egress_tool_def quiet_step_def)

lemma runDelegate_step:
  assumes "validClassList env c = None"
  shows "quiet_step env tr (snd (runDelegate env tr s c t))"
  using runCollector_trace [of env tr "[''delegate'', s, c] @ (if t \<noteq> '''' then [t] else [])"] assms
  by (auto simp: runDelegate_def quiet_step_def split: if_splits)

lemma delegate_tool_step:
  "Validate (delegate_tool env) arg = None \<Longrightarrow> quiet_step env tr (snd (Run (delegate_tool env) tr arg))"
  by (auto simp: delegate_tool_def Let_def runDelegate_step split: if_splits)

lemma registry_step:
  assumes "toolRegistry env name = Some t" "Validate t arg = None"
  shows "quiet_step env tr (snd (Run t tr arg))"
  using assms fetch_tool_step [of env arg tr] request_egress_tool_step [of env arg tr]
    delegate_tool_step [of env arg tr]
  by (auto simp: toolRegistry_def split: if_splits)

lemma dispatch_step: "quiet_step env tr (snd (dispatch (toolRegistry env) tr name arg))"
  using registry_step [of env name _ arg tr]
  by (auto simp: dispatch_def quiet_step_def split: option.splits prod.splits sum.splits)

text \<open>A run of \<open>k\<close> steps: only allowed actions, at most \<open>k\<close> posts and two actions a step.\<close>

definition steps_within :: "agent_env \<Rightarrow> nat \<Rightarrow> agent_act list \<Rightarrow> agent_act list \<Rightarrow> bool" where
  "steps_within env k tr tr' \<longleftrightarrow>
     (list_all (allowed_act env) tr \<longrightarrow> list_all (allowed_act env) tr') \<and>
     length (filter is_post tr') \<le> length (filter is_post tr) + k \<and> length tr' \<le> length tr + 2 * k"

lemma steps_within_trans:
  "steps_within env 1 tr tr1 \<Longrightarrow> steps_within env k tr1 tr2 \<Longrightarrow> steps_within env (Suc k) tr tr2"
  by (auto simp: steps_within_def)

lemma steps_within_mono: "steps_within env 1 tr tr1 \<Longrightarrow> steps_within env (Suc k) tr tr1"
  by (auto simp: steps_within_def)

lemma steps_within_refl: "steps_within env k tr tr"
  by (simp add: steps_within_def)

lemma chat_within: "chat env tr msgs = (res, tr1) \<Longrightarrow> steps_within env 1 tr tr1"
  using chat_trace [of env tr msgs] by (auto simp: steps_within_def)

lemma turn_within:
  assumes "chat env tr msgs = (res, tr1)" "dispatch (toolRegistry env) tr1 name arg = (obs, tr2)"
  shows "steps_within env 1 tr tr2"
  using chat_trace [of env tr msgs] dispatch_step [of env tr1 name arg] assms
  by (auto simp: steps_within_def quiet_step_def)

lemma agent_loop_within: "steps_within env k tr (snd (agent_loop env (toolRegistry env) m k step msgs tr))"
proof (induction k arbitrary: step msgs tr)
  case (Suc k)
  obtain res tr1 where c: "chat env tr msgs = (res, tr1)" by (cases "chat env tr msgs")
  note w = chat_within [OF c]
  show ?case
    using Suc.IH w
    by (auto simp: c Let_def steps_within_refl split: option.splits Directive.splits sum.splits prod.splits
        intro: steps_within_mono steps_within_trans [OF w] steps_within_trans [OF turn_within [OF c]])
qed (simp add: steps_within_refl)

lemma runLoop_acts:
  "list_all (allowed_act env) (snd (runLoop env task maxSteps (toolRegistry env))) \<and>
   length (filter is_post (snd (runLoop env task maxSteps (toolRegistry env)))) \<le> maxSteps \<and>
   length (snd (runLoop env task maxSteps (toolRegistry env))) \<le> 2 * maxSteps"
  using agent_loop_within [of env maxSteps "[]"] by (simp add: runLoop_def steps_within_def)

section \<open>Fetched bytes do not reach the model\<close>

text \<open>What the loop keeps of a response: its status and how many bytes were read.\<close>

fun meta :: "get_result \<Rightarrow> get_result" where
  "meta (Get_response st body) = Get_response st (replicate (min fetchBodyCap (length body)) (CHR 0x00))"
| "meta r = r"

fun redact :: "agent_act \<Rightarrow> agent_act" where
  "redact (Got url r) = Got url (meta r)"
| "redact a = a"

definition same_but_bodies :: "agent_env \<Rightarrow> agent_env \<Rightarrow> bool" where
  "same_but_bodies env env' \<longleftrightarrow>
     env' = env\<lparr>ge_get := ge_get env'\<rparr> \<and> (\<forall>k url. meta (ge_get env' k url) = meta (ge_get env k url))"

lemma same_but_bodies_fields:
  assumes "same_but_bodies env env'"
  shows "ge_post env' = ge_post env" "ge_exec env' = ge_exec env" "ge_expired env' = ge_expired env"
    "ge_getenv env' = ge_getenv env" "ge_url env' = ge_url env" "ge_choices env' = ge_choices env"
    "ge_lower env' = ge_lower env" "ge_quote env' = ge_quote env"
  using assms by (auto simp: same_but_bodies_def elim: ssubst)

text \<open>Two runs look the same: equal results, and traces that differ at most in bodies.\<close>

definition same_view :: "'a \<times> agent_act list \<Rightarrow> 'a \<times> agent_act list \<Rightarrow> bool" where
  "same_view x y \<longleftrightarrow> fst y = fst x \<and> map redact (snd y) = map redact (snd x)"

lemma chat_view:
  assumes "same_but_bodies env env'" "map redact tr' = map redact tr"
  shows "same_view (chat env tr msgs) (chat env' tr' msgs)"
  using assms(2) map_eq_imp_length_eq [OF assms(2)]
  unfolding chat_def same_but_bodies_fields [OF assms(1)] by (simp add: same_view_def Let_def)

lemma runCollector_view:
  assumes "same_but_bodies env env'" "map redact tr' = map redact tr"
  shows "same_view (runCollector env tr args) (runCollector env' tr' args)"
  using assms(2) map_eq_imp_length_eq [OF assms(2)]
  by (simp add: runCollector_def same_view_def Let_def same_but_bodies_fields [OF assms(1)] split: prod.splits)

lemma fetch_tool_view:
  assumes "same_but_bodies env env'" "map redact tr' = map redact tr"
  shows "same_view (Run (fetch_tool env) tr arg) (Run (fetch_tool env') tr' arg)"
proof -
  have "meta (ge_get env' (length tr') arg) = meta (ge_get env (length tr) arg)"
    using assms(1) map_eq_imp_length_eq [OF assms(2)] by (simp add: same_but_bodies_def)
  then show ?thesis
    using assms(2)
    by (cases "ge_get env (length tr) arg"; cases "ge_get env' (length tr') arg")
      (auto simp: fetch_tool_def fetchVia_def same_view_def Let_def hostOf_def min.commute
        same_but_bodies_fields [OF assms(1)])
qed

lemma validators_view:
  assumes "same_but_bodies env env'"
  shows "validate_fetch env' = validate_fetch env" "validClassList env' = validClassList env"
  unfolding fun_eq_iff validate_fetch_def validClassList_def same_but_bodies_fields [OF assms] by auto

lemma request_egress_tool_view:
  assumes "same_but_bodies env env'" "map redact tr' = map redact tr"
  shows "same_view (Run (request_egress_tool env) tr arg) (Run (request_egress_tool env') tr' arg)"
  using runCollector_view [OF assms] assms(2)
  by (simp add: request_egress_tool_def same_but_bodies_fields [OF assms(1)] same_view_def)

lemma runDelegate_view:
  assumes "same_but_bodies env env'" "map redact tr' = map redact tr"
  shows "same_view (runDelegate env tr s c t) (runDelegate env' tr' s c t)"
  using runCollector_view [OF assms] assms(2)
  by (simp add: runDelegate_def same_but_bodies_fields [OF assms(1)] same_view_def)

lemma delegate_tool_view:
  assumes "same_but_bodies env env'" "map redact tr' = map redact tr"
  shows "same_view (Run (delegate_tool env) tr arg) (Run (delegate_tool env') tr' arg)"
  using runDelegate_view [OF assms] by (simp add: delegate_tool_def Let_def)

lemma delegate_validate_view:
  assumes "same_but_bodies env env'"
  shows "Validate (delegate_tool env') = Validate (delegate_tool env)"
  unfolding delegate_tool_def validators_view [OF assms] by simp

lemma dispatch_tool_view:
  assumes "reg name = Some t" "reg' name = Some t'" "Validate t' = Validate t"
    "same_view (Run t tr arg) (Run t' tr' arg)" "map redact tr' = map redact tr"
  shows "same_view (dispatch reg tr name arg) (dispatch reg' tr' name arg)"
  using assms by (auto simp: dispatch_def same_view_def split: option.splits prod.splits sum.splits)

lemma dispatch_view:
  assumes "same_but_bodies env env'" "map redact tr' = map redact tr"
  shows "same_view (dispatch (toolRegistry env) tr name arg) (dispatch (toolRegistry env') tr' name arg)"
proof (cases "toolRegistry env name")
  case None
  then have "toolRegistry env' name = None" by (auto simp: toolRegistry_def split: if_splits)
  then show ?thesis using None assms(2) by (simp add: dispatch_def same_view_def)
next
  case (Some t)
  obtain t' where "toolRegistry env' name = Some t'" "Validate t' = Validate t"
    "same_view (Run t tr arg) (Run t' tr' arg)"
    using Some fetch_tool_view [OF assms] request_egress_tool_view [OF assms] delegate_tool_view [OF assms]
      delegate_validate_view [OF assms(1)]
    by (auto simp: toolRegistry_def fetch_tool_def request_egress_tool_def
        validators_view [OF assms(1)] split: if_splits)
  then show ?thesis using dispatch_tool_view [where reg = "toolRegistry env", OF Some] assms(2) by blast
qed

lemma parse_reply_view:
  assumes "same_but_bodies env env'"
  shows "parse_reply env' = parse_reply env"
proof -
  have "parse_reply_lines env' ls = parse_reply_lines env ls" for ls
    by (induction ls) (auto simp: Let_def same_but_bodies_fields [OF assms] split: option.splits)
  then show ?thesis by (simp add: fun_eq_iff parse_reply_def)
qed

lemma agent_loop_view:
  assumes "same_but_bodies env env'" "map redact tr' = map redact tr"
  shows "same_view (agent_loop env (toolRegistry env) m k step msgs tr)
    (agent_loop env' (toolRegistry env') m k step msgs tr')"
  using assms(2)
proof (induction k arbitrary: step msgs tr tr')
  case (Suc k)
  note f = same_but_bodies_fields [OF assms(1)]
  obtain res tr1 tr1' where c: "chat env tr msgs = (res, tr1)" "chat env' tr' msgs = (res, tr1')"
    "map redact tr1' = map redact tr1"
    using chat_view [OF assms(1) Suc.prems, of msgs]
    by (cases "chat env tr msgs"; cases "chat env' tr' msgs") (auto simp: same_view_def)
  have "\<exists>obs tr2 tr2'. dispatch (toolRegistry env) tr1 n a = (obs, tr2) \<and>
      dispatch (toolRegistry env') tr1' n a = (obs, tr2') \<and> map redact tr2' = map redact tr2" for n a
    using dispatch_view [OF assms(1) c(3), of n a]
    by (cases "dispatch (toolRegistry env) tr1 n a"; cases "dispatch (toolRegistry env') tr1' n a")
      (auto simp: same_view_def)
  then obtain obs tr2 tr2' where d: "\<And>n a. dispatch (toolRegistry env) tr1 n a = (obs n a, tr2 n a)"
      "\<And>n a. dispatch (toolRegistry env') tr1' n a = (obs n a, tr2' n a)"
      "\<And>n a. map redact (tr2' n a) = map redact (tr2 n a)"
    by metis
  have l: "length tr' = length tr" using map_eq_imp_length_eq [OF Suc.prems] .
  show ?case
    using Suc.IH [OF c(3)] Suc.IH [OF d(3)] Suc.prems c(3)
    by (simp add: c(1,2) d(1,2) l f parse_reply_view [OF assms(1)] same_view_def
        split: option.splits Directive.splits sum.splits)
qed (simp add: same_view_def)

text \<open>
  In the loop the bytes of a fetched page never reach the model. If two environments differ
  only in the bodies of responses, and not in their status or in how many bytes were read, the
  two runs end in the same result after the same requests, fetches and commands.
\<close>

theorem loop_ignores_bodies:
  assumes "same_but_bodies env env'"
  shows "fst (runLoop env' task maxSteps (toolRegistry env')) = fst (runLoop env task maxSteps (toolRegistry env)) \<and>
    map redact (snd (runLoop env' task maxSteps (toolRegistry env'))) =
    map redact (snd (runLoop env task maxSteps (toolRegistry env)))"
  using agent_loop_view [OF assms, of "[]" "[]"]
  by (simp add: runLoop_def same_view_def systemPrompt_def same_but_bodies_fields [OF assms])

text \<open>A run with a page in it: the model fetches once and then answers.\<close>

definition demo_agent :: "string \<Rightarrow> agent_env" where
  "demo_agent body =
     \<lparr>ge_post = (\<lambda>k rq. Post_reply 200 (if k = 0 then ''TOOL fetch http://a/'' else ''FINAL done'')),
      ge_get = (\<lambda>k url. Get_response 200 body),
      ge_exec = (\<lambda>k args. ('''', True)), ge_expired = (\<lambda>k. None), ge_getenv = (\<lambda>v. ''''),
      ge_url = (\<lambda>s. if hasPrefix s ''http://'' then Some (''http'', drop 7 s) else None),
      ge_choices = (\<lambda>raw. Inr [raw]), ge_lower = id, ge_quote = id, ge_cred = (\<lambda>d c. None)\<rparr>"

lemma demo_agent_same: "length b = length b' \<Longrightarrow> same_but_bodies (demo_agent b) (demo_agent b')"
  by (simp add: same_but_bodies_def demo_agent_def)

lemma demo_replies:
  "parse_reply env ''TOOL fetch http://a/'' = Some (Tool_call ''fetch'' ''http://a/'')"
  "parse_reply env ''FINAL done'' = Some (Final ''done'')"
  by (simp_all add: parse_reply_def directiveRe_def match_word_def hasPrefix_def word_char_def maxArgLen_def
      trimSpace_graphic graphic_def Cut_def hasPrefix_simps ToLower_def ascii_def lower_char_def Let_def)

lemma demo_agent_run:
  "length body \<le> fetchBodyCap \<Longrightarrow>
   fst (runLoop (demo_agent body) task (Suc (Suc 0)) (toolRegistry (demo_agent body))) = Inr ''done'' \<and>
   length (snd (runLoop (demo_agent body) task (Suc (Suc 0)) (toolRegistry (demo_agent body)))) = 3"
  by (simp add: runLoop_def chat_def demo_agent_def demo_replies
      dispatch_def toolRegistry_def fetch_tool_def validate_fetch_def fetchVia_def hasPrefix_def Let_def)

theorem loop_ignores_bodies_witness:
  "same_but_bodies (demo_agent ''abc'') (demo_agent ''xyz'') \<and>
   fst (runLoop (demo_agent ''abc'') ''t'' (Suc (Suc 0)) (toolRegistry (demo_agent ''abc''))) = Inr ''done'' \<and>
   fst (runLoop (demo_agent ''xyz'') ''t'' (Suc (Suc 0)) (toolRegistry (demo_agent ''xyz''))) = Inr ''done'' \<and>
   length (snd (runLoop (demo_agent ''abc'') ''t'' (Suc (Suc 0)) (toolRegistry (demo_agent ''abc'')))) = 3"
proof -
  have s: "same_but_bodies (demo_agent ''abc'') (demo_agent ''xyz'')" by (rule demo_agent_same) simp
  note r = demo_agent_run [of "''abc''" "''t''", simplified fetchBodyCap_def, simplified]
  show ?thesis using loop_ignores_bodies [OF s, of "''t''" "Suc (Suc 0)"] s r by simp
qed

end
