(* ===== verification/Go_Net.thy ===== *)
theory Go_Net
  imports Go_Strings
begin

unbundle bit_operations_syntax

text \<open>
  What the Go programs use of the package \<open>net\<close>: an address as the bytes of a \<open>net.IP\<close> (four
  or sixteen of them), \<open>ParseIP\<close>, \<open>ParseCIDR\<close> and \<open>IPNet.Contains\<close>, the predicates on
  addresses, and \<open>SplitHostPort\<close> with its inverse \<open>JoinHostPort\<close>.
\<close>

type_synonym ip = "u8 list"

section \<open>Parsing addresses\<close>

text \<open>An octet: one to three digits, no leading zero, at most 255.\<close>

definition parse_octet :: "string \<Rightarrow> u8 option" where
  "parse_octet s =
     (if s \<noteq> [] \<and> list_all is_digit s \<and> (hasPrefix s ''0'' \<longrightarrow> s = ''0'') \<and> dec_value s \<le> 255
      then Some (of_nat (dec_value s)) else None)"

definition parseIPv4 :: "string \<Rightarrow> ip option" where
  "parseIPv4 s =
     (case map parse_octet (split_on (CHR ''.'') s) of
        [Some a, Some b, Some c, Some d] \<Rightarrow> Some [a, b, c, d]
      | _ \<Rightarrow> None)"

definition hex_value :: "string \<Rightarrow> nat" where
  "hex_value s = foldl (\<lambda>n c. 16 * n + (case hex_val c of Some d \<Rightarrow> d | None \<Rightarrow> 0)) 0 s"

definition is_hex :: "char \<Rightarrow> bool" where
  "is_hex c \<longleftrightarrow> hex_val c \<noteq> None"

text \<open>
  The loop over the groups of an IPv6 address: the bytes read so far, where the ellipsis
  stands among them, and the rest of the text.
\<close>

function parse_groups :: "ip \<Rightarrow> nat option \<Rightarrow> string \<Rightarrow> (ip \<times> nat option) option" where
  "parse_groups bs ell s =
     (if 16 \<le> length bs then (if s = [] then Some (bs, ell) else None)
      else
        let digits = takeWhile is_hex s; rest = dropWhile is_hex s; v = hex_value digits
        in if digits = [] \<or> 4 < length digits then None
           else if hasPrefix rest ''.'' then
             (if (ell = None \<and> length bs \<noteq> 12) \<or> 16 < length bs + 4 then None
              else map_option (\<lambda>v4. (bs @ v4, ell)) (parseIPv4 s))
           else
             let bs' = bs @ [of_nat (v div 256), of_nat v]
             in if rest = [] then Some (bs', ell)
                else if \<not> hasPrefix rest '':'' \<or> length rest = 1 then None
                else if hasPrefix (drop 1 rest) '':'' then
                  (if ell \<noteq> None then None
                   else if drop 2 rest = [] then Some (bs', Some (length bs'))
                   else parse_groups bs' (Some (length bs')) (drop 2 rest))
                else parse_groups bs' ell (drop 1 rest))"
  by pat_completeness auto
termination
  by (relation "measure (\<lambda>(bs, ell, s). 16 - length bs)") auto

declare parse_groups.simps [simp del]

definition parseIPv6 :: "string \<Rightarrow> ip option" where
  "parseIPv6 s =
     (if s = ''::'' then Some (replicate 16 0)
      else
        case (if hasPrefix s ''::'' then parse_groups [] (Some 0) (drop 2 s) else parse_groups [] None s) of
          None \<Rightarrow> None
        | Some (bs, None) \<Rightarrow> if length bs = 16 then Some bs else None
        | Some (bs, Some e) \<Rightarrow>
            if length bs < 16 then Some (take e bs @ replicate (16 - length bs) 0 @ drop e bs) else None)"

definition IPv4 :: "u8 \<Rightarrow> u8 \<Rightarrow> u8 \<Rightarrow> u8 \<Rightarrow> ip" where
  "IPv4 a b c d = replicate 10 0 @ [0xff, 0xff, a, b, c, d]"

text \<open>The first of a dot, a colon or a percent sign decides; a zone is refused.\<close>

definition ParseAddr :: "string \<Rightarrow> ip option" where
  "ParseAddr s =
     (case find (\<lambda>c. c = CHR ''.'' \<or> c = CHR '':'' \<or> c = CHR ''%'') s of
        Some c \<Rightarrow>
          if c = CHR ''.'' then parseIPv4 s
          else if c = CHR '':'' \<and> CHR ''%'' \<notin> set s then parseIPv6 s
          else None
      | None \<Rightarrow> None)"

definition To16 :: "ip \<Rightarrow> ip" where
  "To16 a = (if length a = 4 then IPv4 (a ! 0) (a ! 1) (a ! 2) (a ! 3) else a)"

definition ParseIP :: "string \<Rightarrow> ip option" where
  "ParseIP s = map_option To16 (ParseAddr s)"

section \<open>Predicates on addresses\<close>

definition To4 :: "ip \<Rightarrow> ip option" where
  "To4 a =
     (if length a = 4 then Some a
      else if length a = 16 \<and> take 12 a = replicate 10 0 @ [0xff, 0xff] then Some (drop 12 a)
      else None)"

definition IsUnspecified :: "ip \<Rightarrow> bool" where
  "IsUnspecified a \<longleftrightarrow> To4 a = Some [0, 0, 0, 0] \<or> a = replicate 16 0"

definition IsLoopback :: "ip \<Rightarrow> bool" where
  "IsLoopback a \<longleftrightarrow>
     (case To4 a of
        Some v \<Rightarrow> v ! 0 = 127
      | None \<Rightarrow> a = replicate 15 0 @ [1])"

definition IsPrivate :: "ip \<Rightarrow> bool" where
  "IsPrivate a \<longleftrightarrow>
     (case To4 a of
        Some v \<Rightarrow> v ! 0 = 10 \<or> (v ! 0 = 172 \<and> v ! 1 AND 0xf0 = 16) \<or> (v ! 0 = 192 \<and> v ! 1 = 168)
      | None \<Rightarrow> length a = 16 \<and> a ! 0 AND 0xfe = 0xfc)"

definition IsMulticast :: "ip \<Rightarrow> bool" where
  "IsMulticast a \<longleftrightarrow>
     (case To4 a of
        Some v \<Rightarrow> v ! 0 AND 0xf0 = 0xe0
      | None \<Rightarrow> length a = 16 \<and> a ! 0 = 0xff)"

definition IsLinkLocalMulticast :: "ip \<Rightarrow> bool" where
  "IsLinkLocalMulticast a \<longleftrightarrow>
     (case To4 a of
        Some v \<Rightarrow> v ! 0 = 224 \<and> v ! 1 = 0 \<and> v ! 2 = 0
      | None \<Rightarrow> length a = 16 \<and> a ! 0 = 0xff \<and> a ! 1 AND 0x0f = 0x02)"

definition IsLinkLocalUnicast :: "ip \<Rightarrow> bool" where
  "IsLinkLocalUnicast a \<longleftrightarrow>
     (case To4 a of
        Some v \<Rightarrow> v ! 0 = 169 \<and> v ! 1 = 254
      | None \<Rightarrow> length a = 16 \<and> a ! 0 = 0xfe \<and> a ! 1 AND 0xc0 = 0x80)"

section \<open>Networks\<close>

record IPNet =
  net_ip :: ip
  net_mask :: "u8 list"

text \<open>\<open>CIDRMask\<close>: \<open>ones\<close> one bits, as \<open>n\<close> bytes.\<close>

definition mask_byte :: "nat \<Rightarrow> u8" where
  "mask_byte k = (if 8 \<le> k then 0xff else of_nat (256 - 2 ^ (8 - k)))"

definition CIDRMask :: "nat \<Rightarrow> nat \<Rightarrow> u8 list" where
  "CIDRMask ones n = map (\<lambda>i. mask_byte (ones - 8 * i)) [0..<n]"

definition apply_mask :: "ip \<Rightarrow> u8 list \<Rightarrow> ip" where
  "apply_mask a m = map2 (AND) a m"

definition ParseCIDR :: "string \<Rightarrow> IPNet option" where
  "ParseCIDR s =
     (case Index s ''/'' of
        None \<Rightarrow> None
      | Some i \<Rightarrow>
          (case ParseAddr (take i s) of
             None \<Rightarrow> None
           | Some a \<Rightarrow>
               let d = drop (i + 1) s; m = CIDRMask (dec_value d) (length a)
               in if d \<noteq> [] \<and> list_all is_digit d \<and> dec_value d \<le> 8 * length a
                  then Some \<lparr>net_ip = apply_mask a m, net_mask = m\<rparr> else None))"

definition networkNumberAndMask :: "IPNet \<Rightarrow> ip \<times> u8 list" where
  "networkNumberAndMask n =
     (let i = (case To4 (net_ip n) of Some v \<Rightarrow> v | None \<Rightarrow> net_ip n)
      in (i, if length (net_mask n) = 16 \<and> length i = 4 then drop 12 (net_mask n) else net_mask n))"

definition Contains :: "IPNet \<Rightarrow> ip \<Rightarrow> bool" where
  "Contains n a =
     (let (nn, m) = networkNumberAndMask n;
          x = (case To4 a of Some v \<Rightarrow> v | None \<Rightarrow> a)
      in length x = length nn \<and> length m = length nn \<and> apply_mask x m = apply_mask nn m)"

section \<open>Host and port\<close>

definition SplitHostPort :: "string \<Rightarrow> (string \<times> string) option" where
  "SplitHostPort hp =
     (case LastIndex hp '':'' of
        None \<Rightarrow> None
      | Some i \<Rightarrow>
          if hasPrefix hp ''['' then
            (case Index hp '']'' of
               None \<Rightarrow> None
             | Some e \<Rightarrow>
                 if e + 1 \<noteq> i then None
                 else if CHR ''['' \<in> set (drop 1 hp) \<or> CHR '']'' \<in> set (drop (e + 1) hp) then None
                 else Some (drop 1 (take e hp), drop (i + 1) hp))
          else if CHR '':'' \<in> set (take i hp) \<or> CHR ''['' \<in> set hp \<or> CHR '']'' \<in> set hp then None
          else Some (take i hp, drop (i + 1) hp))"

definition JoinHostPort :: "string \<Rightarrow> string \<Rightarrow> string" where
  "JoinHostPort host port =
     (if CHR '':'' \<in> set host then ''['' @ host @ '']:'' @ port else host @ '':'' @ port)"

section \<open>Lemmas\<close>

lemma length_parseIPv4: "parseIPv4 s = Some a \<Longrightarrow> length a = 4"
  by (auto simp: parseIPv4_def split: list.splits option.splits)

lemma length_parseIPv6: "parseIPv6 s = Some a \<Longrightarrow> length a = 16"
  by (auto simp: parseIPv6_def split: if_splits option.splits)

lemma length_To16: "length a = 4 \<or> length a = 16 \<Longrightarrow> length (To16 a) = 16"
  by (auto simp: To16_def IPv4_def)

lemma length_ParseIP: "ParseIP s = Some a \<Longrightarrow> length a = 16"
  by (auto simp: ParseIP_def ParseAddr_def intro!: length_To16 dest: length_parseIPv4 length_parseIPv6
      split: option.splits if_splits)

lemma To4_IPv4 [simp]: "To4 (IPv4 a b c d) = Some [a, b, c, d]"
  by (simp add: To4_def IPv4_def)

lemma length_To4: "To4 a = Some v \<Longrightarrow> length v = 4"
  by (auto simp: To4_def split: if_splits)

lemma LastIndex_char_split:
  "LastIndex s [c] = Some i \<Longrightarrow> \<exists>x y. s = x @ c # y \<and> c \<notin> set y \<and> length x = i"
proof (induction s arbitrary: i)
  case (Cons a s)
  then show ?case
    by (cases "LastIndex s [c]")
      (auto simp: LastIndex_char_None hasPrefix_simps split: if_splits intro: exI [of _ "[]"], metis append_Cons length_Cons)
qed simp

lemma Index_char_split:
  "Index s [c] = Some i \<Longrightarrow> \<exists>x y. s = x @ c # y \<and> c \<notin> set x \<and> length x = i"
proof (induction s arbitrary: i)
  case (Cons a s)
  then show ?case
    by (cases "Index s [c]")
      (auto simp: hasPrefix_simps split: if_splits intro: exI [of _ "[]"], metis append_Cons length_Cons set_ConsD)
qed simp

text \<open>The brackets and the colon are the only delimiters.\<close>

definition no_delims :: "string \<Rightarrow> bool" where
  "no_delims s \<longleftrightarrow> CHR ''['' \<notin> set s \<and> CHR '']'' \<notin> set s"

lemma split_join_host_port:
  assumes "no_delims host" "no_delims port" "CHR '':'' \<notin> set port"
  shows "SplitHostPort (JoinHostPort host port) = Some (host, port)"
proof (cases "CHR '':'' \<in> set host")
  case True
  have l: "LastIndex (''['' @ host @ '']'' @ CHR '':'' # port) '':'' = Some (length host + 2)"
    using LastIndex_char_append [of "CHR '':''" port "''['' @ host @ '']''"] assms(3) by simp
  have "Index (''['' @ host @ CHR '']'' # '':'' @ port) '']'' = Some (length host + 1)"
    using Index_char_append [of "CHR '']''" "''['' @ host"] assms(1) by (simp add: no_delims_def)
  then show ?thesis
    using True l assms(1,2)
    by (simp add: SplitHostPort_def JoinHostPort_def no_delims_def hasPrefix_simps)
next
  case False
  have "LastIndex (host @ CHR '':'' # port) '':'' = Some (length host)"
    by (rule LastIndex_char_append [OF assms(3)])
  moreover have "\<not> hasPrefix (host @ '':'' @ port) ''[''"
    using assms(1) by (cases host) (auto simp: no_delims_def hasPrefix_simps)
  ultimately show ?thesis
    using False assms(1,2) by (simp add: SplitHostPort_def JoinHostPort_def no_delims_def)
qed

lemma SplitHostPort_parts:
  assumes "SplitHostPort hp = Some (host, port)"
  shows "no_delims host \<and> no_delims port \<and> CHR '':'' \<notin> set port"
proof -
  obtain i where i: "LastIndex hp '':'' = Some i"
    using assms by (cases "LastIndex hp '':''") (auto simp: SplitHostPort_def)
  obtain x y where xy: "hp = x @ CHR '':'' # y" "CHR '':'' \<notin> set y" "length x = i"
    using LastIndex_char_split [OF i] by blast
  show ?thesis
  proof (cases "hasPrefix hp ''[''")
    case True
    then obtain e where e: "Index hp '']'' = Some e" "e + 1 = i" "CHR ''['' \<notin> set (drop 1 hp)"
      "CHR '']'' \<notin> set (drop (e + 1) hp)" "host = drop 1 (take e hp)" "port = drop (i + 1) hp"
      using assms i by (auto simp: SplitHostPort_def split: option.splits if_splits)
    obtain u w where uw: "hp = u @ CHR '']'' # w" "CHR '']'' \<notin> set u" "length u = e"
      using Index_char_split [OF e(1)] by blast
    have "port = y" using e(6) xy by simp
    moreover have "host = drop 1 u" using e(5) uw by simp
    moreover have "set (drop 1 u) \<subseteq> set (drop 1 hp)" using uw by (cases u) auto
    moreover have "set y \<subseteq> set (drop 1 hp)" using xy by (cases x) auto
    moreover have "set y \<subseteq> set (drop (e + 1) hp)"
      using e(2) xy by (metis Suc_eq_plus1 append_eq_conv_conj drop_Suc_Cons e(6) \<open>port = y\<close> i set_drop_subset_set_drop le_add1)
    ultimately show ?thesis
      using e(3,4) uw(2) xy(2) by (auto simp: no_delims_def dest: in_set_dropD)
  next
    case False
    then show ?thesis using assms i xy by (auto simp: SplitHostPort_def no_delims_def split: if_splits)
  qed
qed

end
