(* ===== verification/Egress_Guard.thy ===== *)
theory Egress_Guard
  imports Go_Net Egress_Classify
begin

unbundle bit_operations_syntax

text \<open>
  The address guard of the egress proxy (\<open>src/proxy/proxy.go\<close>): which resolved addresses are
  internal, also when an IPv4 address is embedded in an IPv6 one, and the check at dial time.
  The guard is compared with the list of networks its comments name, and with the classes of
  the kernel hook: what the guard lets through the kernel calls public.
\<close>

section \<open>The guard\<close>

definition embeddedV4 :: "ip \<Rightarrow> ip option" where
  "embeddedV4 a =
     (let b = To16 a
      in if length b \<noteq> 16 \<or> To4 a \<noteq> None then None
         else if take 12 b = [0x00, 0x64, 0xff, 0x9b, 0, 0, 0, 0, 0, 0, 0, 0]
         then Some (IPv4 (b ! 12) (b ! 13) (b ! 14) (b ! 15))
         else if b ! 0 = 0x20 \<and> b ! 1 = 0x02 then Some (IPv4 (b ! 2) (b ! 3) (b ! 4) (b ! 5))
         else None)"

lemma To4_embeddedV4: "embeddedV4 a = Some e \<Longrightarrow> To4 e \<noteq> None"
  by (auto simp: embeddedV4_def Let_def split: if_splits)

definition reserved_v4 :: "u8 list \<Rightarrow> bool" where
  "reserved_v4 v \<longleftrightarrow>
     (v ! 0 = 100 \<and> v ! 1 AND 0xc0 = 64) \<or> v ! 0 AND 0xf0 = 0xf0 \<or>
     (v ! 0 = 198 \<and> v ! 1 AND 0xfe = 18) \<or> (v ! 0 = 192 \<and> v ! 1 = 0 \<and> v ! 2 = 0)"

function isInternalIP :: "ip \<Rightarrow> bool" where
  "isInternalIP a =
     (if IsLoopback a \<or> IsPrivate a \<or> IsLinkLocalUnicast a \<or> IsLinkLocalMulticast a \<or> IsMulticast a \<or> IsUnspecified a
      then True
      else
        (case To4 a of
           Some v \<Rightarrow> reserved_v4 v
         | None \<Rightarrow>
             if length (To16 a) = 16 \<and> To16 a ! 0 = 0xfe \<and> To16 a ! 1 AND 0xc0 = 0xc0 then True
             else (case embeddedV4 a of Some e \<Rightarrow> isInternalIP e | None \<Rightarrow> False)))"
  by pat_completeness auto
termination
  by (relation "measure (\<lambda>a. if To4 a = None then 1 else 0)") (auto dest: To4_embeddedV4)

declare isInternalIP.simps [simp del]

datatype dial_refusal = Unparseable string | Non_IP string | Internal ip

definition checkDialAddr :: "string \<Rightarrow> IPNet list \<Rightarrow> dial_refusal option" where
  "checkDialAddr address allow =
     (case SplitHostPort address of
        None \<Rightarrow> Some (Unparseable address)
      | Some (host, port) \<Rightarrow>
          (case ParseIP host of
             None \<Rightarrow> Some (Non_IP host)
           | Some a \<Rightarrow>
               if list_ex (\<lambda>n. Contains n a) allow then None
               else if isInternalIP a then Some (Internal a)
               else None))"

section \<open>Addresses byte by byte\<close>

lemma list_16:
  "length (a :: 'a list) = 16 \<Longrightarrow>
   \<exists>a0 a1 a2 a3 a4 a5 a6 a7 a8 a9 b0 b1 b2 b3 b4 b5.
     a = [a0, a1, a2, a3, a4, a5, a6, a7, a8, a9, b0, b1, b2, b3, b4, b5]"
  by (auto simp: length_Suc_conv numeral_eq_Suc)

lemma list_4: "length (a :: 'a list) = 4 \<Longrightarrow> \<exists>b0 b1 b2 b3. a = [b0, b1, b2, b3]"
  by (auto simp: length_Suc_conv numeral_eq_Suc)

lemma replicate_10: "replicate 10 (x :: 'a) = [x, x, x, x, x, x, x, x, x, x]"
  by (simp add: numeral_eq_Suc)

lemma replicate_15: "replicate 15 (x :: 'a) = [x, x, x, x, x, x, x, x, x, x, x, x, x, x, x]"
  by (simp add: numeral_eq_Suc)

lemma replicate_16: "replicate 16 (x :: 'a) = [x, x, x, x, x, x, x, x, x, x, x, x, x, x, x, x]"
  by (simp add: numeral_eq_Suc)

lemma replicate_12: "replicate 12 (x :: 'a) = [x, x, x, x, x, x, x, x, x, x, x, x]"
  by (simp add: numeral_eq_Suc)

lemma replicate_14: "replicate 14 (x :: 'a) = [x, x, x, x, x, x, x, x, x, x, x, x, x, x]"
  by (simp add: numeral_eq_Suc)

lemmas replicate_bytes = replicate_10 replicate_12 replicate_14 replicate_15 replicate_16

lemmas ip_predicates =
  IsUnspecified_def IsLoopback_def IsPrivate_def IsMulticast_def IsLinkLocalMulticast_def IsLinkLocalUnicast_def

text \<open>The guard on an IPv4 address and on an IPv6 address that is not a mapped one.\<close>

definition internal_v4 :: "u8 \<Rightarrow> u8 \<Rightarrow> u8 \<Rightarrow> u8 \<Rightarrow> bool" where
  "internal_v4 a b c d \<longleftrightarrow>
     a = 127 \<or> a = 10 \<or> (a = 172 \<and> b AND 0xf0 = 16) \<or> (a = 192 \<and> b = 168) \<or> (a = 169 \<and> b = 254) \<or>
     a AND 0xf0 = 0xe0 \<or> (a = 0 \<and> b = 0 \<and> c = 0 \<and> d = 0) \<or> (a = 100 \<and> b AND 0xc0 = 64) \<or> a AND 0xf0 = 0xf0 \<or>
     (a = 198 \<and> b AND 0xfe = 18) \<or> (a = 192 \<and> b = 0 \<and> c = 0)"

lemma isInternalIP_To4:
  assumes "To4 a = Some [b0, b1, b2, b3]"
  shows "isInternalIP a \<longleftrightarrow> internal_v4 b0 b1 b2 b3"
proof -
  have "To4 (replicate 16 (0 :: u8)) = None" by (simp add: To4_def replicate_bytes)
  then have "a \<noteq> replicate 16 0" using assms by auto
  then show ?thesis
    using assms by (subst isInternalIP.simps) (auto simp: ip_predicates reserved_v4_def internal_v4_def)
qed

lemma isInternalIP_v6:
  assumes "length a = 16" "To4 a = None"
  shows "isInternalIP a \<longleftrightarrow>
    a = replicate 15 0 @ [1] \<or> a = replicate 16 0 \<or> a ! 0 AND 0xfe = 0xfc \<or> a ! 0 = 0xff \<or>
    (a ! 0 = 0xfe \<and> (a ! 1 AND 0xc0 = 0x80 \<or> a ! 1 AND 0xc0 = 0xc0)) \<or>
    (take 12 a = [0x00, 0x64, 0xff, 0x9b, 0, 0, 0, 0, 0, 0, 0, 0] \<and> internal_v4 (a ! 12) (a ! 13) (a ! 14) (a ! 15)) \<or>
    (a ! 0 = 0x20 \<and> a ! 1 = 0x02 \<and> internal_v4 (a ! 2) (a ! 3) (a ! 4) (a ! 5))"
proof -
  have e: "isInternalIP (IPv4 w x y z) \<longleftrightarrow> internal_v4 w x y z" for w x y z
    by (simp add: isInternalIP_To4)
  have "embeddedV4 a = (if take 12 a = [0x00, 0x64, 0xff, 0x9b, 0, 0, 0, 0, 0, 0, 0, 0]
         then Some (IPv4 (a ! 12) (a ! 13) (a ! 14) (a ! 15))
         else if a ! 0 = 0x20 \<and> a ! 1 = 0x02 then Some (IPv4 (a ! 2) (a ! 3) (a ! 4) (a ! 5)) else None)"
    using assms by (simp add: embeddedV4_def To16_def)
  moreover have "a ! 0 = 0" if "take 12 a = [0x00, 0x64, 0xff, 0x9b, 0, 0, 0, 0, 0, 0, 0, 0]"
    using that assms(1) by (cases a) auto
  ultimately show ?thesis
    using assms by (subst isInternalIP.simps) (auto simp: ip_predicates To16_def e)
qed

section \<open>The networks of the guard\<close>

text \<open>The networks the guard is meant to keep out, as an operator would write them.\<close>

definition internal_nets_v4 :: "string list" where
  "internal_nets_v4 =
     [''127.0.0.0/8'', ''10.0.0.0/8'', ''172.16.0.0/12'', ''192.168.0.0/16'', ''169.254.0.0/16'', ''224.0.0.0/4'',
      ''0.0.0.0/32'', ''100.64.0.0/10'', ''240.0.0.0/4'', ''198.18.0.0/15'', ''192.0.0.0/24'']"

definition internal_nets_v6 :: "string list" where
  "internal_nets_v6 = [''::/128'', ''::1/128'', ''fc00::/7'', ''fe80::/10'', ''fec0::/10'', ''ff00::/8'']"

definition in_net :: "ip \<Rightarrow> string \<Rightarrow> bool" where
  "in_net a s \<longleftrightarrow> (case ParseCIDR s of Some n \<Rightarrow> Contains n a | None \<Rightarrow> False)"

definition internal_spec :: "ip \<Rightarrow> bool" where
  "internal_spec a \<longleftrightarrow>
     list_ex (in_net a) (internal_nets_v4 @ internal_nets_v6) \<or>
     (in_net a ''64:ff9b::/96'' \<and> list_ex (in_net (drop 12 a)) internal_nets_v4) \<or>
     (in_net a ''2002::/16'' \<and> list_ex (in_net (take 4 (drop 2 a))) internal_nets_v4)"

lemma and_all_ones: "(x :: u8) AND 255 = x"
proof -
  have "(255 :: u8) = - 1" by simp
  then show ?thesis by (simp only: and.right_neutral)
qed

lemma in_net_v4:
  assumes "ParseCIDR s = Some \<lparr>net_ip = [n0, n1, n2, n3], net_mask = [m0, m1, m2, m3]\<rparr>"
  shows "in_net a s \<longleftrightarrow>
    (case To4 a of
       Some v \<Rightarrow> v ! 0 AND m0 = n0 AND m0 \<and> v ! 1 AND m1 = n1 AND m1 \<and> v ! 2 AND m2 = n2 AND m2 \<and> v ! 3 AND m3 = n3 AND m3
     | None \<Rightarrow> length a = 4 \<and> False)"
proof (cases "To4 a")
  case (Some v)
  then obtain b0 b1 b2 b3 where "v = [b0, b1, b2, b3]" using list_4 [OF length_To4 [OF Some]] by auto
  then show ?thesis
    using Some assms by (simp add: in_net_def Contains_def networkNumberAndMask_def To4_def [of "[n0, n1, n2, n3]"] apply_mask_def)
next
  case None
  then show ?thesis
    using assms by (auto simp: in_net_def Contains_def networkNumberAndMask_def To4_def split: if_splits)
qed

lemmas eval_cidr =
  ParseCIDR_def hasPrefix_simps ParseAddr_def parseIPv4_def parse_octet_def is_digit_def dec_value_def digit_val_def
  CIDRMask_def mask_byte_def apply_mask_def upt_rec Let_def

lemma cidr_v4:
  "ParseCIDR ''127.0.0.0/8'' = Some \<lparr>net_ip = [127, 0, 0, 0], net_mask = [255, 0, 0, 0]\<rparr>"
  "ParseCIDR ''10.0.0.0/8'' = Some \<lparr>net_ip = [10, 0, 0, 0], net_mask = [255, 0, 0, 0]\<rparr>"
  "ParseCIDR ''172.16.0.0/12'' = Some \<lparr>net_ip = [172, 16, 0, 0], net_mask = [255, 240, 0, 0]\<rparr>"
  "ParseCIDR ''192.168.0.0/16'' = Some \<lparr>net_ip = [192, 168, 0, 0], net_mask = [255, 255, 0, 0]\<rparr>"
  "ParseCIDR ''169.254.0.0/16'' = Some \<lparr>net_ip = [169, 254, 0, 0], net_mask = [255, 255, 0, 0]\<rparr>"
  "ParseCIDR ''224.0.0.0/4'' = Some \<lparr>net_ip = [224, 0, 0, 0], net_mask = [240, 0, 0, 0]\<rparr>"
  "ParseCIDR ''0.0.0.0/32'' = Some \<lparr>net_ip = [0, 0, 0, 0], net_mask = [255, 255, 255, 255]\<rparr>"
  "ParseCIDR ''100.64.0.0/10'' = Some \<lparr>net_ip = [100, 64, 0, 0], net_mask = [255, 192, 0, 0]\<rparr>"
  "ParseCIDR ''240.0.0.0/4'' = Some \<lparr>net_ip = [240, 0, 0, 0], net_mask = [240, 0, 0, 0]\<rparr>"
  "ParseCIDR ''198.18.0.0/15'' = Some \<lparr>net_ip = [198, 18, 0, 0], net_mask = [255, 254, 0, 0]\<rparr>"
  "ParseCIDR ''192.0.0.0/24'' = Some \<lparr>net_ip = [192, 0, 0, 0], net_mask = [255, 255, 255, 0]\<rparr>"
  by (simp_all add: eval_cidr)

lemmas in_nets_v4 = cidr_v4 [THEN in_net_v4]

lemma list_ex_nets_v4:
  "To4 a = Some [b0, b1, b2, b3] \<Longrightarrow> list_ex (in_net a) internal_nets_v4 \<longleftrightarrow> internal_v4 b0 b1 b2 b3"
  by (simp add: internal_nets_v4_def in_nets_v4 internal_v4_def and_all_ones)

lemma list_ex_nets_v4_None: "To4 a = None \<Longrightarrow> \<not> list_ex (in_net a) internal_nets_v4"
  by (simp add: internal_nets_v4_def in_nets_v4)

lemma in_net_v6:
  assumes "ParseCIDR s = Some \<lparr>net_ip = n, net_mask = m\<rparr>" "length n = 16" "length m = 16" "n ! 10 \<noteq> 0xff"
  shows "in_net a s \<longleftrightarrow> length a = 16 \<and> To4 a = None \<and> apply_mask a m = apply_mask n m"
proof -
  have "To4 n = None" using assms(2,4) list_16 [OF assms(2)] by (auto simp: To4_def replicate_bytes)
  then show ?thesis
    using assms
    by (cases "To4 a") (auto simp: in_net_def Contains_def networkNumberAndMask_def dest: length_To4)
qed

lemma cidr_v6:
  "ParseCIDR ''::/128'' = Some \<lparr>net_ip = [0, 0, 0, 0, 0, 0, 0, 0, 0, 0, 0, 0, 0, 0, 0, 0], net_mask = [255, 255, 255, 255, 255, 255, 255, 255, 255, 255, 255, 255, 255, 255, 255, 255]\<rparr>"
  "ParseCIDR ''::1/128'' = Some \<lparr>net_ip = [0, 0, 0, 0, 0, 0, 0, 0, 0, 0, 0, 0, 0, 0, 0, 1], net_mask = [255, 255, 255, 255, 255, 255, 255, 255, 255, 255, 255, 255, 255, 255, 255, 255]\<rparr>"
  "ParseCIDR ''fc00::/7'' = Some \<lparr>net_ip = [252, 0, 0, 0, 0, 0, 0, 0, 0, 0, 0, 0, 0, 0, 0, 0], net_mask = [254, 0, 0, 0, 0, 0, 0, 0, 0, 0, 0, 0, 0, 0, 0, 0]\<rparr>"
  "ParseCIDR ''fe80::/10'' = Some \<lparr>net_ip = [254, 128, 0, 0, 0, 0, 0, 0, 0, 0, 0, 0, 0, 0, 0, 0], net_mask = [255, 192, 0, 0, 0, 0, 0, 0, 0, 0, 0, 0, 0, 0, 0, 0]\<rparr>"
  "ParseCIDR ''fec0::/10'' = Some \<lparr>net_ip = [254, 192, 0, 0, 0, 0, 0, 0, 0, 0, 0, 0, 0, 0, 0, 0], net_mask = [255, 192, 0, 0, 0, 0, 0, 0, 0, 0, 0, 0, 0, 0, 0, 0]\<rparr>"
  "ParseCIDR ''ff00::/8'' = Some \<lparr>net_ip = [255, 0, 0, 0, 0, 0, 0, 0, 0, 0, 0, 0, 0, 0, 0, 0], net_mask = [255, 0, 0, 0, 0, 0, 0, 0, 0, 0, 0, 0, 0, 0, 0, 0]\<rparr>"
  "ParseCIDR ''64:ff9b::/96'' = Some \<lparr>net_ip = [0, 100, 255, 155, 0, 0, 0, 0, 0, 0, 0, 0, 0, 0, 0, 0], net_mask = [255, 255, 255, 255, 255, 255, 255, 255, 255, 255, 255, 255, 0, 0, 0, 0]\<rparr>"
  "ParseCIDR ''2002::/16'' = Some \<lparr>net_ip = [32, 2, 0, 0, 0, 0, 0, 0, 0, 0, 0, 0, 0, 0, 0, 0], net_mask = [255, 255, 0, 0, 0, 0, 0, 0, 0, 0, 0, 0, 0, 0, 0, 0]\<rparr>"
  by (simp_all add: eval_cidr parseIPv6_def parse_groups.simps [of "[]"] parse_groups.simps [of "[_, _]"]
      is_hex_def hex_val_def hex_value_def replicate_bytes hasPrefix_Nil)

lemmas in_nets_v6 = cidr_v6 [THEN in_net_v6, simplified]

lemma list_ex_nets_v6:
  assumes "length a = 16" "To4 a = None"
  shows "list_ex (in_net a) internal_nets_v6 \<longleftrightarrow>
    a = replicate 15 0 @ [1] \<or> a = replicate 16 0 \<or> a ! 0 AND 0xfe = 0xfc \<or> a ! 0 = 0xff \<or>
    (a ! 0 = 0xfe \<and> (a ! 1 AND 0xc0 = 0x80 \<or> a ! 1 AND 0xc0 = 0xc0))"
proof -
  obtain a0 a1 a2 a3 a4 a5 a6 a7 a8 a9 b0 b1 b2 b3 b4 b5
    where a: "a = [a0, a1, a2, a3, a4, a5, a6, a7, a8, a9, b0, b1, b2, b3, b4, b5]"
    using list_16 [OF assms(1)] by blast
  have "in_net a ''::/128'' \<longleftrightarrow> a = replicate 16 0" "in_net a ''::1/128'' \<longleftrightarrow> a = replicate 15 0 @ [1]"
    "in_net a ''fc00::/7'' \<longleftrightarrow> a ! 0 AND 0xfe = 0xfc" "in_net a ''fe80::/10'' \<longleftrightarrow> a ! 0 = 0xfe \<and> a ! 1 AND 0xc0 = 0x80"
    "in_net a ''fec0::/10'' \<longleftrightarrow> a ! 0 = 0xfe \<and> a ! 1 AND 0xc0 = 0xc0" "in_net a ''ff00::/8'' \<longleftrightarrow> a ! 0 = 0xff"
    using assms(2) by (simp_all add: a in_nets_v6 apply_mask_def and_all_ones replicate_bytes)
  then show ?thesis by (auto simp: internal_nets_v6_def)
qed

lemma in_net_embedded:
  assumes "length a = 16" "To4 a = None"
  shows "in_net a ''64:ff9b::/96'' \<longleftrightarrow> take 12 a = [0x00, 0x64, 0xff, 0x9b, 0, 0, 0, 0, 0, 0, 0, 0]"
    "in_net a ''2002::/16'' \<longleftrightarrow> a ! 0 = 0x20 \<and> a ! 1 = 0x02"
  using list_16 [OF assms(1)] assms(2) by (auto simp: in_nets_v6 apply_mask_def and_all_ones)

text \<open>
  C25: the guard keeps out exactly the networks it is meant to. An address is internal if it
  lies in one of the listed networks, also in IPv4-mapped form, or if it is a NAT64 or 6to4
  address whose embedded IPv4 address does.
\<close>

theorem internal_as_networks:
  assumes "length a = 16"
  shows "isInternalIP a \<longleftrightarrow> internal_spec a"
proof (cases "To4 a")
  case (Some v)
  obtain b0 b1 b2 b3 where v: "v = [b0, b1, b2, b3]" using list_4 [OF length_To4 [OF Some]] by blast
  have "\<not> list_ex (in_net a) internal_nets_v6" "\<not> in_net a ''64:ff9b::/96''" "\<not> in_net a ''2002::/16''"
    using Some by (auto simp: internal_nets_v6_def in_nets_v6)
  then show ?thesis
    using Some v by (simp add: internal_spec_def isInternalIP_To4 list_ex_nets_v4)
next
  case None
  have "To4 (drop 12 a) = Some [a ! 12, a ! 13, a ! 14, a ! 15]"
    "To4 (take 4 (drop 2 a)) = Some [a ! 2, a ! 3, a ! 4, a ! 5]"
    using list_16 [OF assms] by (auto simp: To4_def)
  then show ?thesis
    unfolding internal_spec_def isInternalIP_v6 [OF assms None] in_net_embedded [OF assms None]
    using list_ex_nets_v6 [OF assms None] list_ex_nets_v4_None [OF None] by (auto simp: list_ex_nets_v4)
qed

section \<open>What the guard lets through is public to the kernel\<close>

lemma be_nat_4: "be_nat [a, b, c, d] = ((unat a * 256 + unat b) * 256 + unat c) * 256 + unat d"
  by (simp add: be_nat_def)

lemma octets_of_be_nat:
  "(ucast (drop_bit 24 (of_nat (be_nat [a, b, c, d]) :: u32)) :: u8) = a"
  "(ucast (drop_bit 16 (of_nat (be_nat [a, b, c, d]) :: u32) AND 0xff) :: u8) = b"
  "(of_nat (be_nat [a, b, c, d]) :: u32) = 0 \<longleftrightarrow> a = 0 \<and> b = 0 \<and> c = 0 \<and> d = 0"
proof -
  have "be_nat [a, b, c, d] < 2 ^ 32" using be_nat_less [of "[a, b, c, d]"] by simp
  then have u: "unat (of_nat (be_nat [a, b, c, d]) :: u32) = ((unat a * 256 + unat b) * 256 + unat c) * 256 + unat d"
    by (simp only: be_nat_4 [symmetric]) (simp add: unat_of_nat_small)
  have h: "(((unat a * 256 + unat b) * 256 + unat c) * 256 + unat d) div 2 ^ 16 = unat a * 256 + unat b"
  proof -
    have "((unat a * 256 + unat b) * 256 + unat c) * 256 + unat d = (unat a * 256 + unat b) * 65536 + (unat c * 256 + unat d)"
      by simp
    moreover have "unat c * 256 + unat d < 65536" using unat_u8_less [of c] unat_u8_less [of d] by linarith
    ultimately have "(((unat a * 256 + unat b) * 256 + unat c) * 256 + unat d) div 65536 = unat a * 256 + unat b"
      by (metis add.right_neutral div_less div_mult_self3 zero_neq_numeral)
    then show ?thesis by simp
  qed
  show "(ucast (drop_bit 24 (of_nat (be_nat [a, b, c, d]) :: u32)) :: u8) = a"
    unfolding word_unat_eq_iff unat_octet1 u using h unat_u8_less [of b]
    by (simp add: v4_div_split(1) [simplified])
  show "(ucast (drop_bit 16 (of_nat (be_nat [a, b, c, d]) :: u32) AND 0xff) :: u8) = b"
    unfolding word_unat_eq_iff unat_octet2 u h using unat_u8_less [of b] by simp
  show "(of_nat (be_nat [a, b, c, d]) :: u32) = 0 \<longleftrightarrow> a = 0 \<and> b = 0 \<and> c = 0 \<and> d = 0"
    unfolding word_unat_eq_iff u by auto
qed

lemma word_of_bytes_inject:
  "(of_nat (be_nat [x, y, z, u]) :: u32) = of_nat (be_nat [x', y', z', u']) \<longleftrightarrow> [x, y, z, u] = [x', y', z', u']"
proof
  assume "(of_nat (be_nat [x, y, z, u]) :: u32) = of_nat (be_nat [x', y', z', u'])"
  moreover have "be_nat [p, q, r, s] < 2 ^ LENGTH(32)" for p q r s using be_nat_less [of "[p, q, r, s]"] by simp
  ultimately have "be_nat [x, y, z, u] = be_nat [x', y', z', u']" by (metis unat_of_nat_small)
  then show "[x, y, z, u] = [x', y', z', u']"
    using be_bytes_be_nat [of "[x, y, z, u]"] be_bytes_be_nat [of "[x', y', z', u']"] by simp
qed simp

lemma classify_v4_octets:
  "classify_v4 (of_nat (be_nat [a, b, c, d])) =
     (if a = 0 \<and> b = 0 \<and> c = 0 \<and> d = 0 then DST_LOOPBACK
      else if a = 127 then DST_LOOPBACK
      else if a = 169 \<and> b = 254 then DST_LINKLOCAL
      else if a = 10 then DST_PRIVATE
      else if a = 172 \<and> b AND 0xf0 = 16 then DST_PRIVATE
      else if a = 192 \<and> b = 168 then DST_PRIVATE
      else if a = 100 \<and> b AND 0xc0 = 64 then DST_PRIVATE
      else DST_PUBLIC)"
  by (simp add: classify_v4_def octets_of_be_nat Let_def)

lemma not_internal_v4_public: "\<not> internal_v4 a b c d \<Longrightarrow> classify_v4 (of_nat (be_nat [a, b, c, d])) = DST_PUBLIC"
  by (auto simp: classify_v4_octets internal_v4_def)

lemma v6_class_octets:
  assumes "length a = 16"
  shows "v6_class (of_nat (be_nat a)) =
    (case To4 a of
       Some v \<Rightarrow> classify_v4 (of_nat (be_nat v))
     | None \<Rightarrow>
         if a = replicate 16 0 \<or> a = replicate 15 0 @ [1] then DST_LOOPBACK
         else if a ! 0 = 0xfe \<and> a ! 1 AND 0xc0 = 0x80 then DST_LINKLOCAL
         else if a ! 0 AND 0xfe = 0xfc then DST_PRIVATE
         else DST_PUBLIC)"
proof -
  obtain a0 a1 a2 a3 a4 a5 a6 a7 a8 a9 b0 b1 b2 b3 b4 b5
    where a: "a = [a0, a1, a2, a3, a4, a5, a6, a7, a8, a9, b0, b1, b2, b3, b4, b5]"
    using list_16 [OF assms] by blast
  let ?w = "\<lambda>a b c d. of_nat (be_nat [a, b, c, d]) :: u32"
  have w1: "?w x y z u = 1 \<longleftrightarrow> x = 0 \<and> y = 0 \<and> z = 0 \<and> u = 1"
    and wm: "?w x y z u = 0xffff \<longleftrightarrow> x = 0 \<and> y = 0 \<and> z = 0xff \<and> u = 0xff" for x y z u
    using word_of_bytes_inject [where x' = 0 and y' = 0 and z' = 0 and u' = 1, of x y z u]
      word_of_bytes_inject [where x' = 0 and y' = 0 and z' = 255 and u' = 255, of x y z u]
    by (simp_all add: be_nat_4 [where a = 0])
  have "of_nat (be_nat a) = v6_words (?w a0 a1 a2 a3) (?w a4 a5 a6 a7) (?w a8 a9 b0 b1) (?w b2 b3 b4 b5)"
    using be_nat_four_words [OF assms] by (simp add: a seg_at_def)
  then show ?thesis
    by (simp add: v6_ladder [symmetric] octets_of_be_nat w1 wm) (auto simp: a To4_def replicate_bytes)
qed

lemma not_internal_public:
  assumes "length a = 16" "\<not> isInternalIP a"
  shows "v6_class (of_nat (be_nat a)) = DST_PUBLIC"
proof (cases "To4 a")
  case (Some v)
  obtain b0 b1 b2 b3 where v: "v = [b0, b1, b2, b3]" using list_4 [OF length_To4 [OF Some]] by blast
  then show ?thesis
    using assms(2) Some by (simp add: v6_class_octets [OF assms(1)] isInternalIP_To4 not_internal_v4_public)
next
  case None
  then show ?thesis
    using assms(2) unfolding v6_class_octets [OF assms(1)] isInternalIP_v6 [OF assms(1) None] by auto
qed

text \<open>
  C15: what the proxy's guard lets through, the kernel hook calls public. If the proxy dials an
  address that no opt-in network covers, then a connect to it, by an IPv6 or by an IPv4 socket
  address, is classified \<open>DST_PUBLIC\<close>.
\<close>

theorem dialled_is_public:
  assumes "checkDialAddr address allow = None" "SplitHostPort address = Some (host, port)"
    "ParseIP host = Some a" "\<not> list_ex (\<lambda>n. Contains n a) allow" "p \<noteq> 0"
    "length sport = 2" "length flow = 4" "length scope = 4" "length pad = 8"
  shows "(env_reads env p (store_word (target_order env) AF_INET6 @ sport @ flow @ a @ scope) \<longrightarrow>
      classify_dest env p 28 = DST_PUBLIC) \<and>
    (\<forall>v. To4 a = Some v \<and> env_reads env p (store_word (target_order env) AF_INET @ sport @ v @ pad) \<longrightarrow>
      classify_dest env p 16 = DST_PUBLIC)"
proof -
  have len: "length a = 16" by (rule length_ParseIP [OF assms(3)])
  have ni: "\<not> isInternalIP a" using assms(1-4) by (simp add: checkDialAddr_def split: if_splits)
  have fam: "load_word ord (store_word ord (x :: u16)) = x" for ord x
    by (rule load_store_word) simp
  have "classify_dest env p 28 = DST_PUBLIC"
    if "env_reads env p (store_word (target_order env) AF_INET6 @ sport @ flow @ a @ scope)"
    using classify_dest_bytes [OF assms(5) that, of 28] assms(6-9) len not_internal_public [OF len ni]
      seg_at_all [of a 16] seg_at_append_left [of 0 16 a scope]
    by (simp add: dest_class_def fam AF_INET_def AF_INET6_def)
  moreover have "classify_dest env p 16 = DST_PUBLIC"
    if t: "To4 a = Some v" "env_reads env p (store_word (target_order env) AF_INET @ sport @ v @ pad)" for v
  proof -
    obtain b0 b1 b2 b3 where v: "v = [b0, b1, b2, b3]" using list_4 [OF length_To4 [OF t(1)]] by blast
    have "v4_class (of_nat (be_nat v)) = DST_PUBLIC"
      using ni t(1) v by (simp add: isInternalIP_To4 not_internal_v4_public classify_v4_prefixes [symmetric])
    then show ?thesis
      using classify_dest_bytes [OF assms(5) t(2), of 16] assms(6-9) length_To4 [OF t(1)]
      by (simp add: dest_class_def fam)
  qed
  ultimately show ?thesis by blast
qed

theorem internal_as_networks_witness:
  "length (IPv4 169 254 169 254) = 16 \<and> isInternalIP (IPv4 169 254 169 254) \<and> internal_spec (IPv4 169 254 169 254)"
proof -
  have l: "length (IPv4 169 254 169 254) = 16" by (simp add: IPv4_def)
  have "isInternalIP (IPv4 169 254 169 254)" by (simp add: isInternalIP_To4 internal_v4_def)
  then show ?thesis using internal_as_networks [OF l] l by simp
qed

definition demo_sockaddr :: "u8 list" where
  "demo_sockaddr = store_word Little AF_INET6 @ [0, 53] @ [0, 0, 0, 0] @ IPv4 8 8 8 8 @ [0, 0, 0, 0]"

theorem dialled_is_public_witness:
  "checkDialAddr ''8.8.8.8:53'' [] = None \<and>
   classify_dest (region_env Little 4096 demo_sockaddr) 4096 28 = DST_PUBLIC"
proof -
  have s: "SplitHostPort ''8.8.8.8:53'' = Some (''8.8.8.8'', ''53'')"
    by (simp add: SplitHostPort_def hasPrefix_simps hasPrefix_Nil)
  have a: "ParseIP ''8.8.8.8'' = Some (IPv4 8 8 8 8)"
    by (simp add: ParseIP_def To16_def eval_cidr)
  have c: "checkDialAddr ''8.8.8.8:53'' [] = None"
    by (simp add: checkDialAddr_def s a isInternalIP_To4 internal_v4_def)
  have r: "env_reads (region_env Little 4096 demo_sockaddr) 4096 demo_sockaddr"
    by (rule env_reads_region_env) (simp add: demo_sockaddr_def IPv4_def)
  have "classify_dest (region_env Little 4096 demo_sockaddr) 4096 28 = DST_PUBLIC"
    using dialled_is_public [OF c s a, of 4096 "[0, 53]" "[0, 0, 0, 0]" "[0, 0, 0, 0]" "replicate 8 0"
        "region_env Little 4096 demo_sockaddr"] r
    by (simp add: demo_sockaddr_def)
  then show ?thesis using c by simp
qed

end
