(* ===== verification/Egress_Allowlist.thy ===== *)
theory Egress_Allowlist
  imports Go_Net
begin

text \<open>
  The allowlist of the egress proxy (\<open>src/proxy/allowlist.go\<close>): loading the file, which hosts it
  allows, and whether an allowed host is inspected. The reference is the list of entries the
  file denotes, with a matching relation of its own; the loaded structure is shown to decide
  as the entries say. The environment variable and the Unicode case tables are parameters.
\<close>

section \<open>Modes and rules\<close>

definition modeInspect :: string where "modeInspect = ''inspect''"
definition modePassthrough :: string where "modePassthrough = ''passthrough''"
definition modePinned :: string where "modePinned = ''pinned''"

lemmas mode_defs = modeInspect_def modePassthrough_def modePinned_def

definition validMode :: "string \<Rightarrow> bool" where
  "validMode m \<longleftrightarrow> m = modeInspect \<or> m = modePassthrough \<or> m = modePinned"

definition defaultEgressMode :: "(string \<Rightarrow> string) \<Rightarrow> string \<Rightarrow> string" where
  "defaultEgressMode lower env_mode =
     (let m = ToLower lower env_mode in if validMode m then m else modePassthrough)"

record suffixRule =
  sr_suffix :: string
  sr_mode :: string

record cidrRule =
  cr_net :: IPNet
  cr_mode :: string

record Allowlist =
  al_all :: bool
  al_allMode :: string
  al_defMode :: string
  al_exact :: "string \<Rightarrow> string option"
  al_suffix :: "suffixRule list"
  al_cidrs :: "cidrRule list"

section \<open>Loading\<close>

datatype load_error = Bad_mode string string | Bad_CIDR string | Read_error string

text \<open>One line of the file: its pattern and mode, nothing for a blank one or a comment.\<close>

definition parse_entry ::
  "(string \<Rightarrow> string) \<Rightarrow> string \<Rightarrow> string \<Rightarrow> load_error + (string \<times> string) option" where
  "parse_entry lower defMode text =
     (let l = trimSpace text;
          line = (case Index l ''#'' of Some i \<Rightarrow> trimSpace (take i l) | None \<Rightarrow> l)
      in if line = '''' then Inr None
         else
           let fields = Fields line; pat = hd fields
           in if length fields \<ge> 2 then
                let mode = ToLower lower (fields ! 1)
                in if \<not> validMode mode then Inl (Bad_mode (fields ! 1) pat) else Inr (Some (pat, mode))
              else Inr (Some (pat, defMode)))"

definition add_entry :: "(string \<Rightarrow> string) \<Rightarrow> string \<Rightarrow> string \<Rightarrow> Allowlist \<Rightarrow> load_error + Allowlist" where
  "add_entry lower pat mode a =
     (if pat = ''*'' then Inr (a\<lparr>al_all := True, al_allMode := mode\<rparr>)
      else if CHR ''/'' \<in> set pat then
        (case ParseCIDR pat of
           None \<Rightarrow> Inl (Bad_CIDR pat)
         | Some n \<Rightarrow> Inr (a\<lparr>al_cidrs := al_cidrs a @ [\<lparr>cr_net = n, cr_mode = mode\<rparr>]\<rparr>))
      else if hasPrefix pat ''.'' then
        Inr (a\<lparr>al_suffix := al_suffix a @ [\<lparr>sr_suffix = ToLower lower pat, sr_mode = mode\<rparr>]\<rparr>)
      else Inr (a\<lparr>al_exact := (al_exact a)(ToLower lower pat \<mapsto> mode)\<rparr>))"

text \<open>The longest token of \<open>bufio.Scanner\<close>; a longer line ends the scan with an error.\<close>

definition maxScanTokenSize :: nat where
  "maxScanTokenSize = 64 * 1024"

fun load_lines :: "(string \<Rightarrow> string) \<Rightarrow> string list \<Rightarrow> Allowlist \<Rightarrow> load_error + Allowlist" where
  "load_lines lower [] a = Inr a"
| "load_lines lower (text # texts) a =
     (if maxScanTokenSize \<le> length text then Inl (Read_error ''bufio.Scanner: token too long'')
      else
        (case parse_entry lower (al_defMode a) text of
           Inl e \<Rightarrow> Inl e
         | Inr None \<Rightarrow> load_lines lower texts a
         | Inr (Some (pat, mode)) \<Rightarrow>
             (case add_entry lower pat mode a of
                Inl e \<Rightarrow> Inl e
              | Inr a' \<Rightarrow> load_lines lower texts a')))"

text \<open>The lines of a text: what follows the last newline counts unless it is empty.\<close>

definition scanner_lines :: "string \<Rightarrow> string list" where
  "scanner_lines b =
     (let ls = split_on (CHR 0x0A) b in if last ls = [] then butlast ls else ls)"

definition empty_allowlist :: "string \<Rightarrow> Allowlist" where
  "empty_allowlist dm =
     \<lparr>al_all = False, al_allMode = dm, al_defMode = dm, al_exact = Map.empty, al_suffix = [], al_cidrs = []\<rparr>"

text \<open>The file is absent, unreadable, or has the given bytes.\<close>

datatype file_result = Absent | Unreadable string | Bytes string

definition LoadAllowlist :: "(string \<Rightarrow> string) \<Rightarrow> string \<Rightarrow> file_result \<Rightarrow> load_error + Allowlist" where
  "LoadAllowlist lower env_mode f =
     (let a = empty_allowlist (defaultEgressMode lower env_mode)
      in case f of
           Absent \<Rightarrow> Inr a
         | Unreadable e \<Rightarrow> Inl (Read_error e)
         | Bytes b \<Rightarrow> load_lines lower (scanner_lines b) a)"

section \<open>Deciding\<close>

definition suffix_matches :: "string \<Rightarrow> suffixRule \<Rightarrow> bool" where
  "suffix_matches h s \<longleftrightarrow> h = drop 1 (sr_suffix s) \<or> hasSuffix h (sr_suffix s)"

definition Allows :: "(string \<Rightarrow> string) \<Rightarrow> Allowlist \<Rightarrow> string \<Rightarrow> bool" where
  "Allows lower a host \<longleftrightarrow>
     (if al_all a then True
      else
        let h = ToLower lower host
        in if al_exact a h \<noteq> None then True
           else if list_ex (suffix_matches h) (al_suffix a) then True
           else case ParseIP host of
                  Some ip \<Rightarrow> list_ex (\<lambda>c. Contains (cr_net c) ip) (al_cidrs a)
                | None \<Rightarrow> False)"

definition mode_of :: "(string \<Rightarrow> string) \<Rightarrow> Allowlist \<Rightarrow> string \<Rightarrow> string" where
  "mode_of lower a host =
     (let h = ToLower lower host
      in case al_exact a h of
           Some m \<Rightarrow> m
         | None \<Rightarrow>
             (case find (suffix_matches h) (al_suffix a) of
                Some s \<Rightarrow> sr_mode s
              | None \<Rightarrow>
                  (case (case ParseIP host of
                           Some ip \<Rightarrow> find (\<lambda>c. Contains (cr_net c) ip) (al_cidrs a)
                         | None \<Rightarrow> None) of
                     Some c \<Rightarrow> cr_mode c
                   | None \<Rightarrow> if al_all a then al_allMode a else al_defMode a)))"

section \<open>The entries of a file\<close>

datatype pattern = P_any | P_cidr IPNet | P_suffix string | P_exact string

definition pattern_of :: "(string \<Rightarrow> string) \<Rightarrow> string \<Rightarrow> pattern option" where
  "pattern_of lower pat =
     (if pat = ''*'' then Some P_any
      else if CHR ''/'' \<in> set pat then map_option P_cidr (ParseCIDR pat)
      else if hasPrefix pat ''.'' then Some (P_suffix (ToLower lower pat))
      else Some (P_exact (ToLower lower pat)))"

fun matches :: "(string \<Rightarrow> string) \<Rightarrow> string \<Rightarrow> pattern \<Rightarrow> bool" where
  "matches lower host P_any \<longleftrightarrow> True"
| "matches lower host (P_cidr n) \<longleftrightarrow> (case ParseIP host of Some ip \<Rightarrow> Contains n ip | None \<Rightarrow> False)"
| "matches lower host (P_suffix s) \<longleftrightarrow> ToLower lower host = drop 1 s \<or> hasSuffix (ToLower lower host) s"
| "matches lower host (P_exact h) \<longleftrightarrow> ToLower lower host = h"

fun is_any :: "pattern \<Rightarrow> bool" where "is_any P_any = True" | "is_any _ = False"
fun is_cidr :: "pattern \<Rightarrow> bool" where "is_cidr (P_cidr n) = True" | "is_cidr _ = False"
fun is_suffix :: "pattern \<Rightarrow> bool" where "is_suffix (P_suffix s) = True" | "is_suffix _ = False"
fun is_exact :: "pattern \<Rightarrow> bool" where "is_exact (P_exact h) = True" | "is_exact _ = False"

fun entries_of :: "(string \<Rightarrow> string) \<Rightarrow> string \<Rightarrow> string list \<Rightarrow> (pattern \<times> string) list option" where
  "entries_of lower dm [] = Some []"
| "entries_of lower dm (text # texts) =
     (if maxScanTokenSize \<le> length text then None
      else
        (case parse_entry lower dm text of
           Inl e \<Rightarrow> None
         | Inr None \<Rightarrow> entries_of lower dm texts
         | Inr (Some (pat, mode)) \<Rightarrow>
             (case (pattern_of lower pat, entries_of lower dm texts) of
                (Some p, Some es) \<Rightarrow> Some ((p, mode) # es)
              | _ \<Rightarrow> None)))"

text \<open>
  The disposition the entries give a host: by kind, the exact ones first, then suffixes, then
  networks, then the wildcard. Of several exact entries for a host, or several wildcards, the
  last counts; of several suffixes or networks the first.
\<close>

definition first_of ::
  "(pattern \<Rightarrow> bool) \<Rightarrow> (string \<Rightarrow> string) \<Rightarrow> string \<Rightarrow> (pattern \<times> string) list \<Rightarrow> string option" where
  "first_of k lower host es = map_option snd (find (\<lambda>(p, m). k p \<and> matches lower host p) es)"

definition entries_mode :: "(string \<Rightarrow> string) \<Rightarrow> string \<Rightarrow> (pattern \<times> string) list \<Rightarrow> string \<Rightarrow> string" where
  "entries_mode lower dm es host =
     (case (first_of is_exact lower host (rev es), first_of is_suffix lower host es,
            first_of is_cidr lower host es, first_of is_any lower host (rev es)) of
        (Some m, _) \<Rightarrow> m
      | (None, Some m, _) \<Rightarrow> m
      | (None, None, Some m, _) \<Rightarrow> m
      | (None, None, None, Some m) \<Rightarrow> m
      | _ \<Rightarrow> dm)"

section \<open>The loaded list decides as its entries say\<close>

fun insert_entry :: "Allowlist \<Rightarrow> pattern \<times> string \<Rightarrow> Allowlist" where
  "insert_entry a (P_any, m) = a\<lparr>al_all := True, al_allMode := m\<rparr>"
| "insert_entry a (P_cidr n, m) = a\<lparr>al_cidrs := al_cidrs a @ [\<lparr>cr_net = n, cr_mode = m\<rparr>]\<rparr>"
| "insert_entry a (P_suffix s, m) = a\<lparr>al_suffix := al_suffix a @ [\<lparr>sr_suffix = s, sr_mode = m\<rparr>]\<rparr>"
| "insert_entry a (P_exact h, m) = a\<lparr>al_exact := (al_exact a)(h \<mapsto> m)\<rparr>"

definition of_entries :: "Allowlist \<Rightarrow> (pattern \<times> string) list \<Rightarrow> Allowlist" where
  "of_entries a es = foldl insert_entry a es"

lemma of_entries_simps [simp]:
  "of_entries a [] = a" "of_entries a (e # es) = of_entries (insert_entry a e) es"
  by (simp_all add: of_entries_def)

lemma insert_entry_defMode [simp]: "al_defMode (insert_entry a e) = al_defMode a"
  by (cases "(a, e)" rule: insert_entry.cases) simp_all

lemma add_entry_pattern:
  "add_entry lower pat mode a = (case pattern_of lower pat of Some p \<Rightarrow> Inr (insert_entry a (p, mode)) | None \<Rightarrow> Inl (Bad_CIDR pat))"
  by (auto simp: add_entry_def pattern_of_def split: option.splits)

lemma load_lines_entries:
  "load_lines lower texts a = Inr b \<longleftrightarrow>
   (\<exists>es. entries_of lower (al_defMode a) texts = Some es \<and> b = of_entries a es)"
proof (induction texts arbitrary: a)
  case (Cons l ls)
  show ?case
  proof (cases "parse_entry lower (al_defMode a) l")
    case (Inr r)
    then show ?thesis
      using Cons.IH by (cases r) (auto simp: add_entry_pattern split: option.splits)
  qed auto
qed auto

text \<open>What each kind of entry contributes.\<close>

lemma find_append: "find P (xs @ ys) = (case find P xs of Some x \<Rightarrow> Some x | None \<Rightarrow> find P ys)"
  by (induction xs) auto

lemma first_of_Cons:
  "first_of k lower host ((p, m) # es) = (if k p \<and> matches lower host p then Some m else first_of k lower host es)"
  by (simp add: first_of_def)

lemma first_of_snoc:
  "first_of k lower host (es @ [(p, m)]) =
     (case first_of k lower host es of Some x \<Rightarrow> Some x | None \<Rightarrow> if k p \<and> matches lower host p then Some m else None)"
  by (auto simp: first_of_def find_append split: option.splits)

lemma first_of_Nil [simp]: "first_of k lower host [] = None"
  by (simp add: first_of_def)

lemma of_entries_exact:
  "al_exact (of_entries a es) (ToLower lower host) =
     (case first_of is_exact lower host (rev es) of Some m \<Rightarrow> Some m | None \<Rightarrow> al_exact a (ToLower lower host))"
proof (induction es arbitrary: a)
  case (Cons e es)
  then show ?case
    by (cases "(a, e)" rule: insert_entry.cases) (auto simp: first_of_snoc split: option.splits)
qed simp

lemma of_entries_all:
  "al_all (of_entries a es) = (al_all a \<or> first_of is_any lower host (rev es) \<noteq> None)"
  "al_allMode (of_entries a es) =
     (case first_of is_any lower host (rev es) of Some m \<Rightarrow> m | None \<Rightarrow> al_allMode a)"
proof (induction es arbitrary: a)
  case (Cons e es)
  { case 1
    show ?case using Cons(1) by (cases "(a, e)" rule: insert_entry.cases) (auto simp: first_of_snoc split: option.splits)
  next
    case 2
    show ?case using Cons(2) by (cases "(a, e)" rule: insert_entry.cases) (auto simp: first_of_snoc split: option.splits) }
qed simp_all

lemma of_entries_suffix:
  "map_option sr_mode (find (suffix_matches (ToLower lower host)) (al_suffix (of_entries a es))) =
     (case find (suffix_matches (ToLower lower host)) (al_suffix a) of
        Some s \<Rightarrow> Some (sr_mode s)
      | None \<Rightarrow> first_of is_suffix lower host es)"
proof (induction es arbitrary: a)
  case (Cons e es)
  then show ?case
    by (cases "(a, e)" rule: insert_entry.cases)
      (auto simp: first_of_Cons find_append suffix_matches_def split: option.splits)
qed (simp split: option.splits)

lemma of_entries_cidrs:
  assumes "ParseIP host = Some ip"
  shows "map_option cr_mode (find (\<lambda>c. Contains (cr_net c) ip) (al_cidrs (of_entries a es))) =
     (case find (\<lambda>c. Contains (cr_net c) ip) (al_cidrs a) of
        Some c \<Rightarrow> Some (cr_mode c)
      | None \<Rightarrow> first_of is_cidr lower host es)"
proof (induction es arbitrary: a)
  case (Cons e es)
  then show ?case
    using assms
    by (cases "(a, e)" rule: insert_entry.cases)
      (auto simp: first_of_Cons find_append split: option.splits)
qed (simp split: option.splits)

lemma list_ex_find: "list_ex P xs \<longleftrightarrow> (\<exists>y. find P xs = Some y)"
  by (induction xs) auto

lemma first_of_None:
  "first_of k lower host es = None \<longleftrightarrow> \<not> (\<exists>(p, m)\<in>set es. k p \<and> matches lower host p)"
  by (auto simp: first_of_def find_None_iff)

lemma pattern_kinds: "is_exact p \<or> is_suffix p \<or> is_cidr p \<or> is_any p"
  by (cases p) simp_all

lemma empty_allowlist_sel [simp]:
  "al_exact (empty_allowlist dm) = Map.empty" "al_suffix (empty_allowlist dm) = []"
  "al_cidrs (empty_allowlist dm) = []" "\<not> al_all (empty_allowlist dm)"
  "al_allMode (empty_allowlist dm) = dm" "al_defMode (empty_allowlist dm) = dm"
  by (simp_all add: empty_allowlist_def)

lemma of_entries_defMode [simp]: "al_defMode (of_entries a es) = al_defMode a"
  by (induction es arbitrary: a) simp_all

text \<open>The four lookups of the loaded structure, as lookups among the entries.\<close>

lemma loaded_lookups:
  fixes dm :: string and es :: "(pattern \<times> string) list"
  defines "a \<equiv> of_entries (empty_allowlist dm) es"
  shows "al_exact a (ToLower lower host) = first_of is_exact lower host (rev es)"
    "map_option sr_mode (find (suffix_matches (ToLower lower host)) (al_suffix a)) = first_of is_suffix lower host es"
    "map_option cr_mode (case ParseIP host of
        Some ip \<Rightarrow> find (\<lambda>c. Contains (cr_net c) ip) (al_cidrs a) | None \<Rightarrow> None) = first_of is_cidr lower host es"
    "al_all a = (first_of is_any lower host (rev es) \<noteq> None)"
    "al_all a \<Longrightarrow> Some (al_allMode a) = first_of is_any lower host (rev es)"
proof -
  show "al_exact a (ToLower lower host) = first_of is_exact lower host (rev es)"
    unfolding a_def of_entries_exact by (simp split: option.splits)
  show "map_option sr_mode (find (suffix_matches (ToLower lower host)) (al_suffix a)) = first_of is_suffix lower host es"
    unfolding a_def of_entries_suffix by simp
  show "map_option cr_mode (case ParseIP host of
        Some ip \<Rightarrow> find (\<lambda>c. Contains (cr_net c) ip) (al_cidrs a) | None \<Rightarrow> None) = first_of is_cidr lower host es"
  proof (cases "ParseIP host")
    case None
    then have "\<not> (is_cidr p \<and> matches lower host p)" for p by (cases p) simp_all
    then show ?thesis using None by (auto simp: first_of_def find_None_iff)
  qed (simp add: a_def of_entries_cidrs [where lower = lower])
  show "al_all a = (first_of is_any lower host (rev es) \<noteq> None)"
    unfolding a_def of_entries_all(1) [of _ _ lower host] by simp
  then show "Some (al_allMode a) = first_of is_any lower host (rev es)" if "al_all a"
    using that unfolding a_def of_entries_all(2) [of _ _ lower host] by auto
qed

lemma Allows_entries:
  "Allows lower (of_entries (empty_allowlist dm) es) host = list_ex (\<lambda>(p, m). matches lower host p) es"
proof -
  let ?a = "of_entries (empty_allowlist dm) es"
  have "Allows lower ?a host \<longleftrightarrow>
      first_of is_any lower host (rev es) \<noteq> None \<or> first_of is_exact lower host (rev es) \<noteq> None \<or>
      first_of is_suffix lower host es \<noteq> None \<or> first_of is_cidr lower host es \<noteq> None"
    unfolding loaded_lookups [symmetric, where dm = dm] Allows_def
    by (auto simp: Let_def list_ex_find split: option.splits)
  also have "\<dots> \<longleftrightarrow> list_ex (\<lambda>(p, m). matches lower host p) es"
    unfolding first_of_None list_ex_iff set_rev using pattern_kinds by (auto split: prod.splits) blast+
  finally show ?thesis .
qed

lemma mode_of_entries:
  "mode_of lower (of_entries (empty_allowlist dm) es) host = entries_mode lower dm es host"
proof -
  let ?a = "of_entries (empty_allowlist dm) es"
  note l = loaded_lookups [where dm = dm and es = es and lower = lower and host = host]
  show ?thesis
    unfolding mode_of_def entries_mode_def Let_def l(1) l(2,3) [symmetric]
    using l(4,5) by (auto split: option.splits)
qed

text \<open>
  C26: the loaded allowlist decides as the entries of the file say. If the file loads, it has a
  list of entries; a host is allowed exactly if some entry matches it, and its disposition is
  that of the most specific kind of matching entry. A missing file allows nothing.
\<close>

theorem allowlist_as_entries:
  "(\<forall>a. LoadAllowlist lower env_mode (Bytes b) = Inr a \<longleftrightarrow>
      (\<exists>es. entries_of lower (defaultEgressMode lower env_mode) (scanner_lines b) = Some es \<and>
         a = of_entries (empty_allowlist (defaultEgressMode lower env_mode)) es)) \<and>
   (\<forall>es host. Allows lower (of_entries (empty_allowlist dm) es) host = list_ex (\<lambda>(p, m). matches lower host p) es) \<and>
   (\<forall>es host. mode_of lower (of_entries (empty_allowlist dm) es) host = entries_mode lower dm es host) \<and>
   (\<forall>host. \<not> Allows lower (projr (LoadAllowlist lower env_mode Absent)) host)"
  using load_lines_entries [of lower "scanner_lines b" "empty_allowlist (defaultEgressMode lower env_mode)"]
  by (auto simp: LoadAllowlist_def Allows_entries mode_of_entries) (auto simp: Allows_def empty_allowlist_def split: option.splits)

section \<open>Spellings of an address\<close>

definition spelling_file :: string where
  "spelling_file = ''*'' @ [CHR 0x0A] @ ''192.0.2.7 inspect''"

lemma spelling_lines: "scanner_lines spelling_file = [''*'', ''192.0.2.7 inspect'']"
  by (simp add: spelling_file_def scanner_lines_def)

lemma spelling_entries:
  "parse_entry id dm ''*'' = Inr (Some (''*'', dm))"
  "parse_entry id dm ''192.0.2.7 inspect'' = Inr (Some (''192.0.2.7'', modeInspect))"
  by (simp_all add: parse_entry_def Let_def trimSpace_graphic graphic_def hasPrefix_simps Fields_def match_any_graphic
      match_any_blank emit_field_def validMode_def mode_defs ToLower_def ascii_def lower_char_def)

lemma spelling_loads:
  "LoadAllowlist id '''' (Bytes spelling_file) =
     Inr (of_entries (empty_allowlist modePassthrough) [(P_any, modePassthrough), (P_exact ''192.0.2.7'', modeInspect)])"
proof -
  have "defaultEgressMode id '''' = modePassthrough"
    by (simp add: defaultEgressMode_def ToLower_def validMode_def mode_defs)
  then show ?thesis
    by (simp add: LoadAllowlist_def spelling_lines spelling_entries add_entry_pattern pattern_of_def hasPrefix_simps
        maxScanTokenSize_def ToLower_def ascii_def lower_char_def)
qed

lemma spelling_v4: "parseIPv4 ''192.0.2.7'' = Some [192, 0, 2, 7]"
  by (simp add: parseIPv4_def parse_octet_def is_digit_def hasPrefix_simps dec_value_def digit_val_def)

lemma spelling_mapped: "parseIPv6 ''::ffff:192.0.2.7'' = Some (IPv4 192 0 2 7)"
  by (simp add: parseIPv6_def hasPrefix_simps parse_groups.simps [of "[]"] parse_groups.simps [of "[_, _]"]
      is_hex_def hex_val_def hex_value_def Let_def spelling_v4 IPv4_def)

lemma spelling_same: "ParseIP ''::ffff:192.0.2.7'' = ParseIP ''192.0.2.7''"
  by (simp add: ParseIP_def ParseAddr_def spelling_v4 spelling_mapped To16_def IPv4_def)


end
