(* ===== verification/Egress_Proxy.thy ===== *)
theory Egress_Proxy
  imports Egress_Guard Egress_Allowlist "HOL-Library.Sublist"
begin

text \<open>
  The egress proxy (\<open>src/proxy/proxy.go\<close>, \<open>mitm.go\<close>, and the records of \<open>audit.go\<close>): one
  connection of an agent from its request line to the splice or to the inspected relay. What
  the proxy does is a list of actions in order. The request bytes, name resolution, the
  outcome of each connect, of each append to the signed chain and of each TLS handshake, and
  the requests \<open>net/http\<close> reads from an inspected stream, are fields of the environment.
\<close>

section \<open>Records\<close>

record auditEvent =
  evt_comm :: string
  evt_hook :: string
  evt_decision :: string
  evt_mode :: string

definition maxAuditDstLen :: nat where
  "maxAuditDstLen = 260"

definition RuneStart :: "char \<Rightarrow> bool" where
  "RuneStart c \<longleftrightarrow> \<not> (128 \<le> (of_char c :: nat) \<and> (of_char c :: nat) < 192)"

fun rune_cut :: "string \<Rightarrow> nat \<Rightarrow> nat" where
  "rune_cut s 0 = 0"
| "rune_cut s (Suc k) = (if RuneStart (s ! Suc k) then Suc k else rune_cut s k)"

definition boundMode :: "string \<Rightarrow> string" where
  "boundMode s =
     (if length s \<le> maxAuditDstLen then s else take (rune_cut s maxAuditDstLen) s @ ''...(truncated)'')"

definition dst_of :: "string \<Rightarrow> string \<Rightarrow> string" where
  "dst_of host port = (if port \<noteq> '''' then host @ '':'' @ port else host)"

definition recordEgress :: "string \<Rightarrow> string \<Rightarrow> string \<Rightarrow> string \<Rightarrow> auditEvent" where
  "recordEgress host port decision reason =
     (let mode = ''dst='' @ boundMode (dst_of host port)
      in \<lparr>evt_comm = ''egress-proxy'', evt_hook = ''connect'', evt_decision = decision,
          evt_mode = (if reason \<noteq> '''' then mode @ '' reason='' @ reason else mode)\<rparr>)"

definition recordPassthrough :: "string \<Rightarrow> string \<Rightarrow> string \<Rightarrow> auditEvent" where
  "recordPassthrough host port reason =
     \<lparr>evt_comm = ''egress-proxy'', evt_hook = ''passthrough'', evt_decision = ''allow'',
      evt_mode = boundMode (''dst='' @ dst_of host port @ '' reason='' @ reason)\<rparr>"

definition recordInspect :: "string \<Rightarrow> string \<Rightarrow> string \<Rightarrow> nat \<Rightarrow> nat \<Rightarrow> string \<Rightarrow> string \<Rightarrow> auditEvent" where
  "recordInspect host method path reqBytes respBytes decision reason =
     (let mode = ''host='' @ host @ '' method='' @ method @ '' path='' @ path @
                 '' reqb='' @ itoa reqBytes @ '' respb='' @ itoa respBytes
      in \<lparr>evt_comm = ''egress-proxy'', evt_hook = ''inspect'', evt_decision = decision,
          evt_mode = boundMode (if reason \<noteq> '''' then mode @ '' reason='' @ reason else mode)\<rparr>)"

section \<open>The request line\<close>

definition maxRequestLen :: nat where
  "maxRequestLen = 300"

datatype request_error =
    Stream_ended | Line_too_long | Control_byte char | Malformed | Bad_host_port
  | Empty_host | Numeric_alias string | Host_too_long | Label_length | Illegal_char char | Label_hyphen | Bad_port string

fun readLine :: "nat \<Rightarrow> string \<Rightarrow> request_error + string \<times> string" where
  "readLine 0 input = Inl Line_too_long"
| "readLine (Suc k) [] = Inl Stream_ended"
| "readLine (Suc k) (c # cs) =
     (if c = CHR 0x0A then Inr ('''', cs)
      else case readLine k cs of Inl e \<Rightarrow> Inl e | Inr (l, rest) \<Rightarrow> Inr (c # l, rest))"

definition isNumericAlias :: "string \<Rightarrow> bool" where
  "isNumericAlias h \<longleftrightarrow>
     hasPrefix h ''0x'' \<or> hasPrefix h ''0X'' \<or> list_all (\<lambda>c. is_digit c \<or> c = CHR ''.'') h"

definition host_char :: "char \<Rightarrow> bool" where
  "host_char c \<longleftrightarrow>
     (let n = of_char c :: nat
      in c = CHR ''-'' \<or> 48 \<le> n \<and> n \<le> 57 \<or> 97 \<le> n \<and> n \<le> 122 \<or> 65 \<le> n \<and> n \<le> 90)"

fun validate_labels :: "string list \<Rightarrow> request_error option" where
  "validate_labels [] = None"
| "validate_labels (l # ls) =
     (if l = '''' \<or> 63 < length l then Some Label_length
      else
        (case find (\<lambda>c. \<not> host_char c) l of
           Some c \<Rightarrow> Some (Illegal_char c)
         | None \<Rightarrow>
             if hd l = CHR ''-'' \<or> last l = CHR ''-'' then Some Label_hyphen else validate_labels ls))"

definition validateHost :: "string \<Rightarrow> request_error option" where
  "validateHost h =
     (if h = '''' then Some Empty_host
      else if ParseIP h \<noteq> None then None
      else if isNumericAlias h then Some (Numeric_alias h)
      else if 253 < length h then Some Host_too_long
      else validate_labels (split_on (CHR ''.'') h))"

definition validatePort :: "string \<Rightarrow> request_error option" where
  "validatePort p =
     (case Atoi p of
        Some n \<Rightarrow> if n < 1 \<or> 65535 < n then Some (Bad_port p) else None
      | None \<Rightarrow> Some (Bad_port p))"

definition control_byte :: "char \<Rightarrow> bool" where
  "control_byte c \<longleftrightarrow> (of_char c :: nat) < 32 \<or> (of_char c :: nat) = 127"

definition readRequest :: "string \<Rightarrow> request_error + (string \<times> string) \<times> string" where
  "readRequest input =
     (case readLine maxRequestLen input of
        Inl e \<Rightarrow> Inl e
      | Inr (line, rest) \<Rightarrow>
          (case find control_byte line of
             Some c \<Rightarrow> Inl (Control_byte c)
           | None \<Rightarrow>
               if \<not> hasPrefix line ''CONNECT '' then Inl Malformed
               else
                 (case SplitHostPort (trimPrefix line ''CONNECT '') of
                    None \<Rightarrow> Inl Bad_host_port
                  | Some (host, port) \<Rightarrow>
                      (case validateHost host of
                         Some e \<Rightarrow> Inl e
                       | None \<Rightarrow>
                           (case validatePort port of
                              Some e \<Rightarrow> Inl e
                            | None \<Rightarrow> Inr ((host, port), rest))))))"

section \<open>Inspection of parsed requests\<close>

text \<open>
  A request as \<open>net/http\<close> parsed it. \<open>hr_write\<close> is its serialisation with a given body and
  fixed-length framing, if it can be serialised.
\<close>

record http_request =
  hr_method :: string
  hr_host :: string
  hr_uri :: string
  hr_body :: string
  hr_write :: "string \<Rightarrow> string option"

datatype read_result = Stream_end | Unparseable_request | Request http_request

record Proxy =
  px_allow :: Allowlist
  px_internal :: "IPNet list"
  px_audited :: bool
  px_mitm :: bool
  px_tlsPorts :: "string list"
  px_maxReqBytes :: int
  px_denyNeedles :: "string list"
  px_allowMethods :: "string list"

definition maxInspectBody :: int where
  "maxInspectBody = 8 * 2 ^ 20"

definition inspect_limit :: "Proxy \<Rightarrow> int" where
  "inspect_limit p =
     (if px_maxReqBytes p \<le> 0 \<or> maxInspectBody < px_maxReqBytes p then maxInspectBody else px_maxReqBytes p)"

definition readInspectBody :: "Proxy \<Rightarrow> string \<Rightarrow> string \<times> bool" where
  "readInspectBody p body =
     (let data = take (nat (inspect_limit p + 1)) body
      in if inspect_limit p < int (length data) then (take (nat (inspect_limit p)) data, True) else (data, False))"

definition inspectRequest :: "(string \<Rightarrow> string) \<Rightarrow> Proxy \<Rightarrow> http_request \<Rightarrow> string \<Rightarrow> nat \<Rightarrow> string" where
  "inspectRequest upper p req serialized reqBytes =
     (if px_allowMethods p \<noteq> [] \<and> ToUpper upper (hr_method req) \<notin> set (px_allowMethods p)
      then ''method:'' @ hr_method req
      else if 0 < px_maxReqBytes p \<and> px_maxReqBytes p < int reqBytes then ''req-byte-cap''
      else if list_ex (Contains_str serialized) (px_denyNeedles p) then ''needle''
      else '''')"

definition stripPort :: "string \<Rightarrow> string" where
  "stripPort h = (case SplitHostPort h of Some (host, port) \<Rightarrow> host | None \<Rightarrow> h)"

record inspectState =
  is_host :: string
  is_method :: string
  is_path :: string
  is_reqBytes :: nat
  is_denied :: bool
  is_reason :: string

section \<open>One connection\<close>

record conn_env =
  ce_lower :: "string \<Rightarrow> string"
  ce_upper :: "string \<Rightarrow> string"
  ce_equalFold :: "string \<Rightarrow> string \<Rightarrow> bool"
  ce_quote :: "string \<Rightarrow> string"
  ce_ipString :: "ip \<Rightarrow> string"
  ce_busy :: bool
  ce_input :: string
  ce_resolve :: "string \<Rightarrow> string list"
  ce_connect :: "string \<Rightarrow> string option"
  ce_append :: "auditEvent \<Rightarrow> bool"
  ce_reply_ok :: bool
  ce_leaf :: bool
  ce_agent_tls :: bool
  ce_upstream_tls :: bool
  ce_requests :: "read_result list"
  ce_write_ok :: "nat \<Rightarrow> bool"
  ce_resp_bytes :: nat

datatype pact =
    Dialled string
  | Logged auditEvent
  | Log_failed auditEvent
  | Replied string
  | Spliced string
  | Forwarded string

definition log_event :: "conn_env \<Rightarrow> Proxy \<Rightarrow> auditEvent \<Rightarrow> pact list" where
  "log_event env p e = (if px_audited p then [if ce_append env e then Logged e else Log_failed e] else [])"

definition log_ok :: "conn_env \<Rightarrow> Proxy \<Rightarrow> auditEvent \<Rightarrow> bool" where
  "log_ok env p e \<longleftrightarrow> px_audited p \<longrightarrow> ce_append env e"

text \<open>
  The agent-to-upstream direction of \<open>inspectRelay\<close>: the bytes written upstream, and the
  state for the record. The number counts the writes made.
\<close>

fun inspect_loop ::
  "conn_env \<Rightarrow> Proxy \<Rightarrow> read_result list \<Rightarrow> bool \<Rightarrow> nat \<Rightarrow> inspectState \<Rightarrow> string list \<times> inspectState" where
  "inspect_loop env p [] first k st = ([], st)"
| "inspect_loop env p (Stream_end # rs) first k st = ([], st)"
| "inspect_loop env p (Unparseable_request # rs) first k st =
     ([], st\<lparr>is_denied := True, is_reason := ''malformed-request''\<rparr>)"
| "inspect_loop env p (Request req # rs) first k st =
     (case readInspectBody p (hr_body req) of
        (body, True) \<Rightarrow> ([], st\<lparr>is_denied := True, is_reason := ''req-byte-cap''\<rparr>)
      | (body, False) \<Rightarrow>
          (case hr_write req body of
             None \<Rightarrow> ([], st)
           | Some out \<Rightarrow>
               let st1 = st\<lparr>is_reqBytes := is_reqBytes st + length out\<rparr>;
                   st2 = (if first then st1\<lparr>is_method := hr_method req, is_path := hr_uri req\<rparr> else st1);
                   h = stripPort (hr_host req);
                   st3 = (if h \<noteq> '''' \<and> \<not> ce_equalFold env h (is_host st) \<and> is_reason st = ''''
                          then st2\<lparr>is_reason := ''finding:host-mismatch('' @ h @ '')''\<rparr> else st2);
                   reason = inspectRequest (ce_upper env) p req out (is_reqBytes st1)
               in if reason \<noteq> '''' then ([], st3\<lparr>is_denied := True, is_reason := reason\<rparr>)
                  else if \<not> ce_write_ok env k then ([], st3)
                  else let (outs, st') = inspect_loop env p rs False (k + 1) st3 in (out # outs, st')))"

definition inspectRelay :: "conn_env \<Rightarrow> Proxy \<Rightarrow> string \<Rightarrow> pact list" where
  "inspectRelay env p host =
     (let (outs, st) = inspect_loop env p (ce_requests env) True 0
            \<lparr>is_host = host, is_method = '''', is_path = '''', is_reqBytes = 0, is_denied = False, is_reason = ''''\<rparr>
      in map Forwarded outs @
         log_event env p
           (recordInspect host (is_method st) (is_path st) (is_reqBytes st) (ce_resp_bytes env)
              (if is_denied st then ''deny'' else ''allow'') (is_reason st)))"

definition terminate :: "conn_env \<Rightarrow> Proxy \<Rightarrow> string \<Rightarrow> string \<Rightarrow> pact list" where
  "terminate env p host port =
     Replied ''OK'' #
     (if \<not> ce_reply_ok env then []
      else if \<not> ce_leaf env then log_event env p (recordInspect host '''' '''' 0 0 ''deny'' ''leaf-mint-fail'')
      else if \<not> ce_agent_tls env then log_event env p (recordInspect host '''' '''' 0 0 ''deny'' ''tls-handshake-fail'')
      else if \<not> ce_upstream_tls env then log_event env p (recordInspect host '''' '''' 0 0 ''deny'' ''upstream-verify-fail'')
      else inspectRelay env p host)"

text \<open>
  \<open>Dial\<close> with the guard as its control function: the resolved addresses are tried in turn,
  and the error is that of the first.
\<close>

definition refusal_text :: "conn_env \<Rightarrow> dial_refusal \<Rightarrow> string" where
  "refusal_text env r =
     (case r of
        Unparseable a \<Rightarrow> ''egress: unparseable dial address '' @ ce_quote env a
      | Non_IP h \<Rightarrow> ''egress: non-IP dial address '' @ ce_quote env h
      | Internal a \<Rightarrow> ''egress: destination '' @ ce_ipString env a @ '' is an internal address (denied)'')"

fun dial_serial :: "conn_env \<Rightarrow> Proxy \<Rightarrow> string option \<Rightarrow> string list \<Rightarrow> string + string" where
  "dial_serial env p first [] = Inl (case first of Some e \<Rightarrow> e | None \<Rightarrow> ''missing address'')"
| "dial_serial env p first (a # as) =
     (let failed = (\<lambda>e. dial_serial env p (case first of Some e' \<Rightarrow> Some e' | None \<Rightarrow> Some (''dial tcp '' @ a @ '': '' @ e)) as)
      in case checkDialAddr a (px_internal p) of
           Some r \<Rightarrow> failed (refusal_text env r)
         | None \<Rightarrow> (case ce_connect env a of Some e \<Rightarrow> failed e | None \<Rightarrow> Inr a))"

definition handleConn :: "conn_env \<Rightarrow> Proxy \<Rightarrow> pact list" where
  "handleConn env p =
     (if ce_busy env then [Replied ''ERR busy'']
      else
        (case readRequest (ce_input env) of
           Inl e \<Rightarrow> [Replied ''ERR badrequest'']
         | Inr ((host, port), rest) \<Rightarrow>
             if \<not> Allows (ce_lower env) (px_allow p) host then
               log_event env p (recordEgress host port ''deny'' ''allowlist'') @ [Replied ''ERR denied'']
             else
               let mode = mode_of (ce_lower env) (px_allow p) host
               in if mode = modeInspect \<and> \<not> (px_mitm p \<and> port \<in> set (px_tlsPorts p)) then
                    log_event env p (recordEgress host port ''deny'' ''inspect-unavailable'') @ [Replied ''ERR denied'']
                  else
                    (case dial_serial env p None (ce_resolve env (JoinHostPort host port)) of
                       Inl e \<Rightarrow>
                         log_event env p
                           (recordEgress host port ''deny''
                              (if Contains_str e ''internal address'' then ''internal-denied'' else ''upstream-unreachable'')) @
                         [Replied ''ERR upstream'']
                     | Inr addr \<Rightarrow>
                         Dialled addr # log_event env p (recordEgress host port ''allow'' '''') @
                         (if \<not> log_ok env p (recordEgress host port ''allow'' '''') then [Replied ''ERR audit'']
                          else if mode = modeInspect then terminate env p host port
                          else
                            let e = recordPassthrough host port (if mode = modePinned then ''pinned'' else ''default'')
                            in log_event env p e @
                               (if \<not> log_ok env p e then [Replied ''ERR audit'']
                                else Replied ''OK'' # (if ce_reply_ok env then [Spliced addr] else []))))))"

section \<open>One parse of the destination\<close>

lemma readLine_split:
  "readLine k input = Inr (line, rest) \<Longrightarrow> input = line @ CHR 0x0A # rest \<and> CHR 0x0A \<notin> set line \<and> length line < k"
  by (induction k input arbitrary: line rule: readLine.induct) (auto split: if_splits sum.splits)

definition dns_label :: "string \<Rightarrow> bool" where
  "dns_label l \<longleftrightarrow>
     l \<noteq> [] \<and> length l \<le> 63 \<and> list_all host_char l \<and> hd l \<noteq> CHR ''-'' \<and> last l \<noteq> CHR ''-''"

lemma validate_label_ok:
  "validate_labels (l # ls) = None \<longleftrightarrow> dns_label l \<and> validate_labels ls = None"
proof -
  have "find (\<lambda>c. \<not> host_char c) l = None \<longleftrightarrow> list_all host_char l" by (auto simp: find_None_iff list_all_iff)
  then show ?thesis
    by (cases "find (\<lambda>c. \<not> host_char c) l") (auto simp: dns_label_def simp del: list.pred_inject)
qed

lemma validate_labels_ok: "validate_labels ls = None \<longleftrightarrow> list_all dns_label ls"
  by (induction ls) (simp_all only: validate_label_ok list.pred_inject validate_labels.simps(1) simp_thms)

text \<open>A host the proxy accepts: an address, or a DNS name that is no plain number.\<close>

definition canonical_host :: "string \<Rightarrow> bool" where
  "canonical_host h \<longleftrightarrow>
     ParseIP h \<noteq> None \<or>
     (\<not> isNumericAlias h \<and> length h \<le> 253 \<and>
      list_all dns_label (split_on (CHR ''.'') h))"

lemma validateHost_canonical: "validateHost h = None \<Longrightarrow> canonical_host h"
  using validate_labels_ok [of "split_on (CHR ''.'') h"]
  by (auto simp: validateHost_def canonical_host_def split: if_splits)

text \<open>
  C27: the destination is parsed once and means one thing. An accepted request is the bytes up
  to the first newline, at most 300 of them, and nothing after it is consumed; its host is an
  address or a DNS name in the strict syntax, and the \<open>host:port\<close> given to the dialer splits
  back into exactly the host and port the allowlist saw.
\<close>

theorem request_parsed_once:
  assumes "readRequest input = Inr ((host, port), rest)"
  shows "(\<exists>line. input = line @ CHR 0x0A # rest \<and> CHR 0x0A \<notin> set line \<and> length line < maxRequestLen \<and>
      hasPrefix line ''CONNECT '') \<and>
    canonical_host host \<and> (\<exists>n. Atoi port = Some n \<and> 1 \<le> n \<and> n \<le> 65535) \<and>
    SplitHostPort (JoinHostPort host port) = Some (host, port)"
proof -
  obtain line where l: "readLine maxRequestLen input = Inr (line, rest)" "hasPrefix line ''CONNECT ''"
    "SplitHostPort (trimPrefix line ''CONNECT '') = Some (host, port)" "validateHost host = None" "validatePort port = None"
    using assms by (auto simp: readRequest_def split: sum.splits option.splits if_splits)
  have "\<exists>n. Atoi port = Some n \<and> 1 \<le> n \<and> n \<le> 65535"
    using l(5) by (auto simp: validatePort_def split: option.splits if_splits)
  then show ?thesis
    using readLine_split [OF l(1)] l(2) validateHost_canonical [OF l(4)] SplitHostPort_parts [OF l(3)]
      split_join_host_port [of host port] by blast
qed

section \<open>What flows\<close>

fun flows :: "pact \<Rightarrow> bool" where
  "flows (Replied r) \<longleftrightarrow> r = ''OK''"
| "flows (Spliced a) \<longleftrightarrow> True"
| "flows (Forwarded x) \<longleftrightarrow> True"
| "flows _ \<longleftrightarrow> False"

lemma log_event_quiet: "\<not> list_ex flows (log_event env p e)"
  by (simp add: log_event_def)

lemma log_event_acts: "a \<in> set (log_event env p e) \<Longrightarrow> a = Logged e \<or> a = Log_failed e"
  by (auto simp: log_event_def split: if_splits)

lemma dial_serial_checked:
  "dial_serial env p first as = Inr a \<Longrightarrow> a \<in> set as \<and> checkDialAddr a (px_internal p) = None \<and> ce_connect env a = None"
  by (induction as arbitrary: first) (auto simp: Let_def split: option.splits)

lemma inspectRelay_not_spliced: "Spliced a \<notin> set (inspectRelay env p host)"
  by (auto simp: inspectRelay_def Let_def dest: log_event_acts split: prod.splits)

lemma terminate_not_spliced: "Spliced a \<notin> set (terminate env p host port)"
  by (auto simp: terminate_def inspectRelay_not_spliced dest: log_event_acts)

text \<open>The connection got past every check: the state in which bytes may flow.\<close>

definition admitted :: "conn_env \<Rightarrow> Proxy \<Rightarrow> string \<Rightarrow> string \<Rightarrow> string \<Rightarrow> bool" where
  "admitted env p host port addr \<longleftrightarrow>
     (\<exists>rest. readRequest (ce_input env) = Inr ((host, port), rest)) \<and>
     Allows (ce_lower env) (px_allow p) host \<and>
     addr \<in> set (ce_resolve env (JoinHostPort host port)) \<and>
     checkDialAddr addr (px_internal p) = None \<and>
     log_ok env p (recordEgress host port ''allow'' '''')"

lemma handleConn_admitted:
  assumes "list_ex flows (handleConn env p)"
  obtains host port addr where "admitted env p host port addr"
    "handleConn env p = Dialled addr # log_event env p (recordEgress host port ''allow'' '''') @
       (if mode_of (ce_lower env) (px_allow p) host = modeInspect then terminate env p host port
        else let e = recordPassthrough host port
                   (if mode_of (ce_lower env) (px_allow p) host = modePinned then ''pinned'' else ''default'')
             in log_event env p e @
                (if \<not> log_ok env p e then [Replied ''ERR audit'']
                 else Replied ''OK'' # (if ce_reply_ok env then [Spliced addr] else [])))"
    "mode_of (ce_lower env) (px_allow p) host = modeInspect \<Longrightarrow> px_mitm p \<and> port \<in> set (px_tlsPorts p)"
  using assms
  by (auto simp: handleConn_def Let_def log_event_quiet admitted_def dest: dial_serial_checked
      split: sum.splits prod.splits if_splits)

text \<open>
  C4: nothing leaves unmediated or unaudited. If an agent is answered \<open>OK\<close>, or any byte flows
  to an upstream, then the host it asked for is allowed, the address dialled is one its name
  resolved to and passed the guard, and the allow record of exactly that destination is in
  the chain before anything flows. An opaque splice goes to the dialled address, only for a
  host that is not to be inspected, and only after its own record; inspected bytes flow only
  where a certificate authority is loaded and the port is a TLS port.
\<close>

theorem egress_mediated:
  assumes "list_ex flows (handleConn env p)"
  shows "\<exists>host port addr tail. admitted env p host port addr \<and>
    handleConn env p = Dialled addr # log_event env p (recordEgress host port ''allow'' '''') @ tail \<and>
    (\<forall>a. Spliced a \<in> set (handleConn env p) \<longrightarrow>
       a = addr \<and> mode_of (ce_lower env) (px_allow p) host \<noteq> modeInspect \<and>
       (\<exists>reason rest. tail = log_event env p (recordPassthrough host port reason) @ rest \<and>
          log_ok env p (recordPassthrough host port reason))) \<and>
    (\<forall>x. Forwarded x \<in> set (handleConn env p) \<longrightarrow>
       mode_of (ce_lower env) (px_allow p) host = modeInspect \<and> px_mitm p \<and> port \<in> set (px_tlsPorts p))"
proof -
  obtain host port addr where a: "admitted env p host port addr"
    "handleConn env p = Dialled addr # log_event env p (recordEgress host port ''allow'' '''') @
       (if mode_of (ce_lower env) (px_allow p) host = modeInspect then terminate env p host port
        else let e = recordPassthrough host port
                   (if mode_of (ce_lower env) (px_allow p) host = modePinned then ''pinned'' else ''default'')
             in log_event env p e @
                (if \<not> log_ok env p e then [Replied ''ERR audit'']
                 else Replied ''OK'' # (if ce_reply_ok env then [Spliced addr] else [])))"
    "mode_of (ce_lower env) (px_allow p) host = modeInspect \<Longrightarrow> px_mitm p \<and> port \<in> set (px_tlsPorts p)"
    using handleConn_admitted [OF assms] by metis
  show ?thesis
  proof (cases "mode_of (ce_lower env) (px_allow p) host = modeInspect")
    case True
    then have h: "handleConn env p =
        Dialled addr # log_event env p (recordEgress host port ''allow'' '''') @ terminate env p host port"
      using a(2) by simp
    have "Spliced x \<notin> set (handleConn env p)" for x
      unfolding h by (auto simp: terminate_not_spliced dest: log_event_acts)
    then show ?thesis using a(1,3) h True by blast
  next
    case False
    let ?e = "recordPassthrough host port (if mode_of (ce_lower env) (px_allow p) host = modePinned then ''pinned'' else ''default'')"
    let ?tail = "log_event env p ?e @ (if \<not> log_ok env p ?e then [Replied ''ERR audit'']
      else Replied ''OK'' # (if ce_reply_ok env then [Spliced addr] else []))"
    have h: "handleConn env p = Dialled addr # log_event env p (recordEgress host port ''allow'' '''') @ ?tail"
      using a(2) False by (simp add: Let_def)
    have "Forwarded x \<notin> set (handleConn env p)" for x
      unfolding h by (auto dest: log_event_acts split: if_splits)
    moreover have "x = addr \<and> log_ok env p ?e" if "Spliced x \<in> set (handleConn env p)" for x
      using that unfolding h by (auto dest: log_event_acts split: if_splits)
    ultimately show ?thesis using a(1) h False by blast
  qed
qed

section \<open>What is inspected\<close>

text \<open>A request the rules let through, with the bytes that went upstream for it.\<close>

definition vetted :: "conn_env \<Rightarrow> Proxy \<Rightarrow> http_request \<Rightarrow> string \<Rightarrow> bool" where
  "vetted env p req out \<longleftrightarrow>
     int (length (hr_body req)) \<le> inspect_limit p \<and> hr_write req (hr_body req) = Some out \<and>
     (if px_allowMethods p = [] then True else ToUpper (ce_upper env) (hr_method req) \<in> set (px_allowMethods p)) \<and>
     list_all (\<lambda>nd. \<not> Contains_str out nd) (px_denyNeedles p)"

lemma inspect_limit_pos: "0 < inspect_limit p"
  by (simp add: inspect_limit_def maxInspectBody_def)

lemma readInspectBody_whole:
  "readInspectBody p body = (b, False) \<Longrightarrow> b = body \<and> int (length body) \<le> inspect_limit p"
  using inspect_limit_pos [of p] by (auto simp: readInspectBody_def Let_def min_def split: if_splits)

lemma inspectRequest_vets:
  "inspectRequest upper p req out n = '''' \<Longrightarrow>
   (px_allowMethods p = [] \<or> ToUpper upper (hr_method req) \<in> set (px_allowMethods p)) \<and>
   (0 < px_maxReqBytes p \<longrightarrow> int n \<le> px_maxReqBytes p) \<and> list_all (\<lambda>nd. \<not> Contains_str out nd) (px_denyNeedles p)"
  by (auto simp: inspectRequest_def list_all_iff list_ex_iff split: if_splits)

lemma inspect_loop_step:
  assumes "inspect_loop env p (Request req # rs) first k st = (outs, st')"
  shows "outs = [] \<or> (\<exists>out outs' st3. outs = out # outs' \<and> vetted env p req out \<and>
    is_reqBytes st3 = is_reqBytes st + length out \<and> (0 < px_maxReqBytes p \<longrightarrow> int (is_reqBytes st3) \<le> px_maxReqBytes p) \<and>
    inspect_loop env p rs False (k + 1) st3 = (outs', st'))"
proof (cases "readInspectBody p (hr_body req)")
  case (Pair body capped)
  show ?thesis
  proof (cases "\<not> capped \<and> hr_write req body \<noteq> None")
    case True
    then obtain out where out: "hr_write req body = Some out" by auto
    have b: "body = hr_body req" "int (length (hr_body req)) \<le> inspect_limit p"
      using readInspectBody_whole [of p "hr_body req" body] Pair True by auto
    let ?n = "is_reqBytes st + length out"
    show ?thesis
    proof (cases "inspectRequest (ce_upper env) p req out ?n = '''' \<and> ce_write_ok env k")
      case ok: True
      have v: "vetted env p req out" "0 < px_maxReqBytes p \<longrightarrow> int ?n \<le> px_maxReqBytes p"
        using inspectRequest_vets [of "ce_upper env" p req out ?n] ok b out by (auto simp: vetted_def)
      show ?thesis
        using assms Pair True out ok v by (auto simp: Let_def split: prod.splits)
    qed (use assms Pair True out in \<open>auto simp: Let_def split: prod.splits if_splits\<close>)
  qed (use assms Pair in \<open>auto split: bool.splits\<close>)
qed

lemma inspect_loop_vets:
  "inspect_loop env p rs first k st = (outs, st') \<Longrightarrow>
   (\<exists>reqs. list_all2 (vetted env p) reqs outs \<and> prefix (map Request reqs) rs) \<and>
   (0 < px_maxReqBytes p \<and> int (is_reqBytes st) \<le> px_maxReqBytes p \<longrightarrow>
     int (is_reqBytes st + length (concat outs)) \<le> px_maxReqBytes p)"
proof (induction rs arbitrary: first k st outs)
  case (Cons r rs)
  show ?case
  proof (cases r)
    case (Request req)
    then consider "outs = []" | out outs' st3 where "outs = out # outs'" "vetted env p req out"
      "is_reqBytes st3 = is_reqBytes st + length out" "0 < px_maxReqBytes p \<longrightarrow> int (is_reqBytes st3) \<le> px_maxReqBytes p"
      "inspect_loop env p rs False (k + 1) st3 = (outs', st')"
      using inspect_loop_step [of env p req rs first k st outs st'] Cons.prems by blast
    then show ?thesis
    proof cases
      case 2
      obtain reqs where "list_all2 (vetted env p) reqs outs'" "prefix (map Request reqs) rs"
        using Cons.IH [OF 2(5)] by blast
      then have "list_all2 (vetted env p) (req # reqs) outs \<and> prefix (map Request (req # reqs)) (r # rs)"
        using 2 Request by simp
      then show ?thesis using Cons.IH [OF 2(5)] 2 by (auto simp: add.assoc)
    qed auto
  qed (use Cons.prems in auto)
qed simp

fun forwarded :: "pact list \<Rightarrow> string list" where
  "forwarded [] = []"
| "forwarded (Forwarded x # as) = x # forwarded as"
| "forwarded (_ # as) = forwarded as"

lemma forwarded_append [simp]: "forwarded (xs @ ys) = forwarded xs @ forwarded ys"
  by (induction xs rule: forwarded.induct) simp_all

lemma forwarded_map [simp]: "forwarded (map Forwarded xs) = xs"
  by (induction xs) simp_all

lemma forwarded_log [simp]: "forwarded (log_event env p e) = []"
  by (simp add: log_event_def)

lemma forwarded_quiet: "\<not> list_ex flows as \<Longrightarrow> forwarded as = []"
  by (induction as rule: forwarded.induct) simp_all

lemma forwarded_terminate:
  "forwarded (terminate env p host port) = [] \<or>
   (\<exists>st st'. inspect_loop env p (ce_requests env) True 0 st = (forwarded (terminate env p host port), st') \<and>
      is_reqBytes st = 0)"
  by (auto simp: terminate_def inspectRelay_def Let_def split: prod.splits)

lemma forwarded_handleConn:
  "forwarded (handleConn env p) = [] \<or>
   (\<exists>st st'. inspect_loop env p (ce_requests env) True 0 st = (forwarded (handleConn env p), st') \<and> is_reqBytes st = 0)"
proof (cases "list_ex flows (handleConn env p)")
  case True
  then obtain host port addr where "handleConn env p =
      Dialled addr # log_event env p (recordEgress host port ''allow'' '''') @
       (if mode_of (ce_lower env) (px_allow p) host = modeInspect then terminate env p host port
        else let e = recordPassthrough host port
                   (if mode_of (ce_lower env) (px_allow p) host = modePinned then ''pinned'' else ''default'')
             in log_event env p e @
                (if \<not> log_ok env p e then [Replied ''ERR audit'']
                 else Replied ''OK'' # (if ce_reply_ok env then [Spliced addr] else [])))"
    using handleConn_admitted by metis
  then show ?thesis using forwarded_terminate [of env p host port] by (simp add: Let_def)
qed (simp add: forwarded_quiet)


section \<open>Failing closed\<close>

text \<open>
  A host that is to be inspected is never passed through. Without a certificate authority,
  or on a port that is not a TLS port, an allowed host whose disposition is \<open>inspect\<close> is
  refused: the refusal is recorded, and no address is dialled.
\<close>

lemma inspect_fails_closed:
  assumes "\<not> ce_busy env" "readRequest (ce_input env) = Inr ((host, port), rest)"
    "Allows (ce_lower env) (px_allow p) host" "mode_of (ce_lower env) (px_allow p) host = modeInspect"
    "\<not> px_mitm p"
  shows "handleConn env p =
    log_event env p (recordEgress host port ''deny'' ''inspect-unavailable'') @ [Replied ''ERR denied'']"
  using assms by (simp add: handleConn_def Let_def)

text \<open>
  A numeric address can pass as a name. The proxy means to refuse every host that a libc
  resolver would read as a number; one with a hexadecimal part after the first is accepted.
\<close>

theorem hex_part_accepted:
  "validateHost ''127.1'' \<noteq> None \<and> validateHost ''0x7f.1'' \<noteq> None \<and>
   validateHost ''127.0x1'' = None \<and> ParseIP ''127.0x1'' = None"
proof -
  have p: "ParseIP ''127.0x1'' = None" "ParseIP ''127.1'' = None" "ParseIP ''0x7f.1'' = None"
    by (simp_all add: ParseIP_def ParseAddr_def parseIPv4_def split: option.splits)
  show ?thesis
    by (simp add: validateHost_def p isNumericAlias_def hasPrefix_simps is_digit_def host_char_def)
qed

section \<open>A connection\<close>

definition demo_proxy :: Proxy where
  "demo_proxy =
     \<lparr>px_allow = of_entries (empty_allowlist modePassthrough) [(P_any, modePassthrough)], px_internal = [],
      px_audited = True, px_mitm = False, px_tlsPorts = [], px_maxReqBytes = 0, px_denyNeedles = [], px_allowMethods = []\<rparr>"

definition demo_conn :: conn_env where
  "demo_conn =
     \<lparr>ce_lower = id, ce_upper = id, ce_equalFold = (=), ce_quote = id, ce_ipString = (\<lambda>a. ''''), ce_busy = False,
      ce_input = ''CONNECT 8.8.8.8:53'' @ [CHR 0x0A] @ ''payload'', ce_resolve = (\<lambda>a. [a]), ce_connect = (\<lambda>a. None),
      ce_append = (\<lambda>e. True), ce_reply_ok = True, ce_leaf = False, ce_agent_tls = False, ce_upstream_tls = False,
      ce_requests = [], ce_write_ok = (\<lambda>k. True), ce_resp_bytes = 0\<rparr>"

lemma readLine_Cons:
  "0 < k \<Longrightarrow> readLine k (c # cs) =
     (if c = CHR 0x0A then Inr ('''', cs)
      else case readLine (k - 1) cs of Inl e \<Rightarrow> Inl e | Inr (l, rest) \<Rightarrow> Inr (c # l, rest))"
  by (cases k) simp_all

lemma demo_addr:
  "SplitHostPort ''8.8.8.8:53'' = Some (''8.8.8.8'', ''53'')" "ParseIP ''8.8.8.8'' = Some (IPv4 8 8 8 8)"
  by (simp_all add: SplitHostPort_def hasPrefix_simps hasPrefix_Nil ParseIP_def To16_def eval_cidr)

lemma demo_request: "readRequest (ce_input demo_conn) = Inr ((''8.8.8.8'', ''53''), ''payload'')"
proof -
  have "readLine maxRequestLen (ce_input demo_conn) = Inr (''CONNECT 8.8.8.8:53'', ''payload'')"
    by (simp add: demo_conn_def maxRequestLen_def readLine_Cons)
  then show ?thesis
    by (simp add: readRequest_def control_byte_def trimPrefix_def hasPrefix_simps demo_addr validateHost_def
        validatePort_def Atoi_def is_digit_def dec_value_def digit_val_def)
qed

lemma demo_handleConn:
  "handleConn demo_conn demo_proxy =
     [Dialled ''8.8.8.8:53'', Logged (recordEgress ''8.8.8.8'' ''53'' ''allow'' ''''),
      Logged (recordPassthrough ''8.8.8.8'' ''53'' ''default''), Replied ''OK'', Spliced ''8.8.8.8:53'']"
proof -
  have "JoinHostPort ''8.8.8.8'' ''53'' = ''8.8.8.8:53''" by (simp add: JoinHostPort_def)
  moreover have "checkDialAddr ''8.8.8.8:53'' [] = None"
    by (simp add: checkDialAddr_def demo_addr isInternalIP_To4 internal_v4_def)
  moreover have "Allows id (px_allow demo_proxy) h" "mode_of id (px_allow demo_proxy) h = modePassthrough" for h
    by (simp_all only: demo_proxy_def Proxy.select_convs Allows_entries mode_of_entries)
      (simp_all add: entries_mode_def first_of_def)
  moreover have "modePassthrough \<noteq> modeInspect" "modePassthrough \<noteq> modePinned" by (simp_all add: mode_defs)
  ultimately show ?thesis
    using demo_request
    by (simp add: handleConn_def log_event_def log_ok_def)
      (simp add: demo_conn_def demo_proxy_def Let_def log_event_def log_ok_def)
qed

theorem request_parsed_once_witness:
  "readRequest (ce_input demo_conn) = Inr ((''8.8.8.8'', ''53''), ''payload'') \<and>
   SplitHostPort (JoinHostPort ''8.8.8.8'' ''53'') = Some (''8.8.8.8'', ''53'')"
  using request_parsed_once [OF demo_request] demo_request by blast

theorem egress_mediated_witness:
  "list_ex flows (handleConn demo_conn demo_proxy) \<and>
   (\<exists>host port. admitted demo_conn demo_proxy host port ''8.8.8.8:53'' \<and>
      mode_of (ce_lower demo_conn) (px_allow demo_proxy) host \<noteq> modeInspect)"
proof -
  have f: "list_ex flows (handleConn demo_conn demo_proxy)" "Spliced ''8.8.8.8:53'' \<in> set (handleConn demo_conn demo_proxy)"
    by (simp_all add: demo_handleConn)
  show ?thesis using egress_mediated [OF f(1)] f by blast
qed

end
