(* ===== verification/Audit_Command.thy ===== *)
theory Audit_Command
  imports Audit_Log
begin

text \<open>
  The command \<open>verify-audit\<close> as a relying party runs it (\<open>cmdVerifyAudit\<close>, \<open>resolveAuditPub\<close>,
  \<open>decodePubHex\<close> and \<open>sealedAuditPub\<close> of \<^verbatim>\<open>src/collector/verify.go\<close>): its arguments, the choice
  of the key, what it prints and how it exits, over the files of one directory. The lemmas
  extend the verifier's soundness to chains whose oldest segments have been pruned.
\<close>

section \<open>Files of a directory\<close>

type_synonym dir = "(string \<times> string) list"

text \<open>\<open>filepath.Base\<close> on Unix.\<close>

definition path_base :: "string \<Rightarrow> string" where
  "path_base p =
     (if p = '''' then ''.''
      else let q = rev (dropWhile (\<lambda>c. c = CHR ''/'') (rev p))
           in if q = '''' then ''/'' else last (split_on (CHR ''/'') q))"

text \<open>
  The sealed segments and the live file of a chain. A name with the number of a segment that is
  not spelled as the log spells it makes the verifier look for a file that is not there, which
  counts as one without records.
\<close>

definition chain_files :: "dir \<Rightarrow> string \<Rightarrow> (nat \<times> string) list \<times> string option" where
  "chain_files d base =
     (map (\<lambda>n. (n, case map_of d (segment_name base n) of Some b \<Rightarrow> b | None \<Rightarrow> ''''))
        (listSegments base (map (\<lambda>(name, b). (name, False)) d)),
      map_of d base)"

lemma absent_segment: "verifyChainSegment A domain since None sd = verifyChainSegment A domain since (Some '''') sd"
  by (simp add: verifyChainSegment_def scanned_def scan_lines_def)

section \<open>The command\<close>

record verify_world =
  vw_read :: "string \<Rightarrow> string option"
  vw_getenv :: "string \<Rightarrow> string"
  vw_seed_pub :: "string \<Rightarrow> u8 list"
  vw_audit :: audit_env
  vw_ed25519 :: "u8 list \<Rightarrow> u8 list \<Rightarrow> u8 list \<Rightarrow> bool"
  vw_stamp :: string
  vw_error :: "nat \<times> chain_error \<Rightarrow> string"

text \<open>How the process ends: what it wrote and its exit status.\<close>

type_synonym exit = "string \<times> nat"

definition fatal :: "verify_world \<Rightarrow> string \<Rightarrow> exit" where
  "fatal w msg = (vw_stamp w @ ''verify-audit: '' @ msg @ [newline], 1)"

definition decodePubHex :: "string \<Rightarrow> string \<Rightarrow> string + u8 list \<times> string" where
  "decodePubHex s src =
     (case hex_decode (trimSpace s) of
        None \<Rightarrow> Inl (''bad pubkey hex ('' @ src @ '')'')
      | Some b \<Rightarrow>
          if length b \<noteq> 32 then Inl (''pubkey wrong size ('' @ src @ ''): '' @ itoa (length b) @ '' bytes, want 32'')
          else Inr (b, src))"

definition sealedAuditPub :: "verify_world \<Rightarrow> u8 list option" where
  "sealedAuditPub w =
     (let d = vw_getenv w ''CREDENTIALS_DIRECTORY''
      in if d = '''' then None
         else case vw_read w (d @ ''/audit-seed'') of
                None \<Rightarrow> None
              | Some seed \<Rightarrow> if length seed < 32 then None else Some (vw_seed_pub w (take 32 seed)))"

definition resolveAuditPub :: "verify_world \<Rightarrow> dir \<Rightarrow> string list \<Rightarrow> string + u8 list \<times> string" where
  "resolveAuditPub w d rest =
     (if rest \<noteq> [] \<and> hd rest \<noteq> '''' then
        if hasPrefix (hd rest) ''@'' then
          (case vw_read w (drop 1 (hd rest)) of
             None \<Rightarrow> Inl (''read pubkey file '' @ drop 1 (hd rest))
           | Some data \<Rightarrow> decodePubHex data (''file:'' @ drop 1 (hd rest)))
        else decodePubHex (hd rest) ''arg''
      else
        (case sealedAuditPub w of
           Some pub \<Rightarrow> Inr (pub, ''sealed-seed'')
         | None \<Rightarrow>
             (case map_of d ''audit-pub.txt'' of
                Some data \<Rightarrow> decodePubHex data ''audit-pub.txt''
              | None \<Rightarrow>
                  Inl (''no verification key: pass pubkeyhex/@file, or run with the sealed audit-seed credential, '' @
                       ''or place audit-pub.txt beside the chain''))))"

definition parse_since :: "verify_world \<Rightarrow> string \<Rightarrow> string + u8 list option" where
  "parse_since w arg =
     (if arg = '''' then Inr None
      else
        (case (if hasPrefix arg ''@'' then vw_read w (drop 1 arg) else Some arg) of
           None \<Rightarrow> Inl ''read --since file''
         | Some s \<Rightarrow>
             (case hex_decode (trimSpace s) of
                Some h \<Rightarrow>
                  if length h \<noteq> 32 then Inl ''--since must be a 64-hex chain HEAD (32 bytes)'' else Inr (Some h)
              | None \<Rightarrow> Inl ''--since must be a 64-hex chain HEAD (32 bytes)'')))"

definition em_dash :: string where
  "em_dash = [CHR 0xE2, CHR 0x80, CHR 0x94]"

text \<open>A tip is a SHA-256 digest, so the only one that has not 32 bytes is \<open>nil\<close>.\<close>

definition headOrZero :: "u8 list option \<Rightarrow> u8 list" where
  "headOrZero tip = (case tip of None \<Rightarrow> zeroHash | Some t \<Rightarrow> t)"

definition ok_line :: "nat \<Rightarrow> string \<Rightarrow> string \<Rightarrow> string \<Rightarrow> string \<Rightarrow> string" where
  "ok_line n chain src domain tipHex =
     ''verify-audit: OK '' @ em_dash @ '' '' @ itoa n @ '' record(s) verified for '' @ chain @
     '' [key: '' @ src @ '', domain: '' @ domain @ ''], tip='' @ tipHex @ [newline]"

definition tip_line :: "string \<Rightarrow> string \<Rightarrow> string" where
  "tip_line tipHex expectTip =
     (if expectTip = '''' then ''''
      else if tipHex = expectTip then
        ''verify-audit: tip == the quote-bound HEAD (the verified log IS the one the quote attested)'' @ [newline]
      else ''verify-audit: FAIL '' @ em_dash @ '' tip '' @ tipHex @ '' != the quote-bound HEAD '' @ expectTip @
        '' (this log is not the attested one, or it was rewound)'' @ [newline])"

definition since_line :: "u8 list option \<Rightarrow> chain_verdict \<Rightarrow> string" where
  "since_line since v =
     (case since of
        None \<Rightarrow> ''''
      | Some h \<Rightarrow>
          if h = zeroHash then
            ''verify-audit: no-rewind CLEAN '' @ em_dash @
            '' prior observation is genesis (an ancestor of any chain)'' @ [newline]
          else if cv_foundSince v then
            ''verify-audit: no-rewind CLEAN '' @ em_dash @ '' the prior-observed HEAD is a verified ancestor (seq '' @
            itoa (unat (cv_sinceSeq v)) @
            '') of the tip; the chain extends it (no rewind/fork at or below the observation)'' @ [newline]
          else
            ''verify-audit: FAIL '' @ em_dash @ '' REWOUND/FORKED: the prior-observed HEAD is NOT in the verified chain '' @
            ''(history at or below the observation was rewound or forked)'' @ [newline])"

definition keyed :: "verify_world \<Rightarrow> u8 list \<Rightarrow> audit_env" where
  "keyed w pub = (vw_audit w)\<lparr>ae_verify := vw_ed25519 w pub\<rparr>"

definition cmdVerifyAudit :: "verify_world \<Rightarrow> dir \<Rightarrow> string list \<Rightarrow> exit" where
  "cmdVerifyAudit w d args =
     (case args of
        [] \<Rightarrow>
          (''usage: bulkhead-collector verify-audit <provenance.jsonl> [pubkeyhex|@pubfile] [--since=<head-hex|@file>] [--expect-tip=<head-hex>]''
             @ [newline], 2)
      | chain # flags \<Rightarrow>
          (case parseVerifyArgs flags of
             Inl e \<Rightarrow> fatal w e
           | Inr va \<Rightarrow>
               (case resolveAuditPub w d (va_rest va) of
                  Inl e \<Rightarrow> fatal w e
                | Inr (pub, src) \<Rightarrow>
                    let domain = chainDomain (vw_getenv w ''BULKHEAD_AUDIT_DOMAIN'') chain (path_base chain)
                    in (case parse_since w (va_since va) of
                          Inl e \<Rightarrow> fatal w e
                        | Inr since \<Rightarrow>
                            let (segs, live) = chain_files d (path_base chain);
                                res = verifySegmentedChain (keyed w pub) domain since segs live
                            in (case res of
                                  Inl (n, e) \<Rightarrow>
                                    fatal w (''chain INVALID ('' @ itoa n @ '' record(s) verified, then) '' @
                                      vw_error w (n, e) @ '' [key: '' @ src @ '', domain: '' @ domain @ '']'')
                                | Inr v \<Rightarrow>
                                    let tipHex = hex_encode (headOrZero (cv_tip v))
                                    in (ok_line (cv_count v) chain src domain tipHex @ tip_line tipHex (va_expectTip va) @
                                          since_line since v,
                                        if cmd_verdict since (va_expectTip va) res then 0 else 1))))))"

section \<open>Chains with a pruned beginning\<close>

lemma verify_anchored_found:
  assumes "verify_lines A domain since ls st = Inr st'" "\<not> unanchored st"
  shows "\<exists>p n. chain_from A domain (p, n) (recs ls) = Some (sd_prev (sc_seed st'), sd_expectSeq (sc_seed st'))
    \<and> sc_n st' = sc_n st + length (recs ls)
    \<and> (recs ls = [] \<longrightarrow> p = sd_prev (sc_seed st) \<and> n = sd_expectSeq (sc_seed st))
    \<and> (sd_foundSince (sc_seed st') \<longleftrightarrow>
         sd_foundSince (sc_seed st) \<or> since \<in> Some ` set (tips A domain p (recs ls)))"
  using assms
proof (induction ls arbitrary: st)
  case (Cons l ls)
  from Cons.prems(1) obtain st1 where st1: "verify_line A domain since l st = Inr st1"
    and rest: "verify_lines A domain since ls st1 = Inr st'" by (auto split: sum.splits)
  show ?case
  proof (cases l)
    case Blank
    then show ?thesis using st1 Cons.IH [OF rest] Cons.prems(2) by (simp add: verify_line_def)
  next
    case Malformed
    then have "st1 = st\<lparr>sc_torn := True\<rparr>" using st1 by (simp add: verify_line_def split: if_splits)
    then show ?thesis using Malformed Cons.IH [OF rest] Cons.prems(2) by (simp add: unanchored_def)
  next
    case (Rec r)
    with st1 Cons.prems(2) obtain sd sd' where
      anchor: "anchor_record r (sc_seed st) = Inr sd" and chk: "check_body A domain since r sd = Inr sd'"
      and st1': "st1 = st\<lparr>sc_n := sc_n st + 1, sc_seed := sd', sc_first := False\<rparr>"
      by (auto simp: verify_line_def unanchored_def split: if_splits sum.splits)
    have "unanchored st1" by (simp add: st1' unanchored_def)
    note tail = verify_lines_sound [OF rest this]
    have a: "hexEqual (ar_prev_hash r) (sd_prev sd)" "sd_expectSeq sd = ar_seq r" "sd_foundSince sd = sd_foundSince (sc_seed st)"
      using anchor by (auto simp: anchor_record_def hexEqual_def split: option.splits if_splits)
    show ?thesis
      using tail check_body_sound [OF chk] a
      by (intro exI [of _ "sd_prev sd"] exI [of _ "ar_seq r - 1"]) (auto simp: Rec st1')
  qed
qed (auto intro: exI)

lemma segment_sound_any:
  assumes "verifyChainSegment A domain since (Some body) sd = Inr (n, sd')"
  shows "\<exists>p m. chain_from A domain (p, m) (file_records A (Some body)) = Some (sd_prev sd', sd_expectSeq sd')
    \<and> n = length (file_records A (Some body))
    \<and> (sd_foundSince sd' \<longleftrightarrow> sd_foundSince sd \<or> since \<in> Some ` set (tips A domain p (file_records A (Some body))))"
proof (cases "sd_anchorFirst sd")
  case False
  then show ?thesis using segment_sound [OF assms] by blast
next
  case True
  from assms obtain st where st: "verify_lines A domain since (map (read_line A) (fst (scanned body)))
      \<lparr>sc_n = 0, sc_seed = sd, sc_first = True, sc_torn = False\<rparr> = Inr st" "sc_n st = n" "sc_seed st = sd'"
    by (auto simp: verifyChainSegment_def split: sum.splits if_splits)
  then show ?thesis
    using verify_anchored_found [OF st(1)] True by (auto simp: file_records_def unanchored_def)
qed

lemma chain_sound_any:
  assumes "verifySegmentedChain A domain since segs live = Inr v"
  shows "\<exists>p n tip m. chain_from A domain (p, n) (all_records A segs live) = Some (tip, m)
    \<and> cv_count v = length (all_records A segs live)
    \<and> cv_tip v = (if all_records A segs live = [] then None else Some tip)
    \<and> (cv_foundSince v \<longleftrightarrow> since \<in> Some ` set (tips A domain p (all_records A segs live)))"
proof (cases segs)
  case Nil
  then have "unpruned segs" by (simp add: unpruned_def)
  then show ?thesis using chain_sound [OF assms] by blast
next
  case (Cons seg segs')
  obtain num body where seg: "seg = (num, body)" by (cases seg)
  from assms obtain k sd1 cnt sd n sd' where
    first: "verifyChainSegment A domain since (Some body)
        (genesis_seed\<lparr>sd_allowTornTail := False, sd_anchorFirst := num \<noteq> 1\<rparr>) = Inr (k, sd1)"
    and segs: "verify_segments A domain since False segs' k sd1 = Inr (cnt, sd)"
    and live: "verifyChainSegment A domain since live (sd\<lparr>sd_allowTornTail := True, sd_anchorFirst := False\<rparr>) = Inr (n, sd')"
    and v: "v = verdict_of (cnt + n) sd'"
    by (auto simp: verifySegmentedChain_def Cons seg split: sum.splits prod.splits)
  from segment_sound_any [OF first] obtain p m where
    s0: "chain_from A domain (p, m) (file_records A (Some body)) = Some (sd_prev sd1, sd_expectSeq sd1)"
      "k = length (file_records A (Some body))"
      "sd_foundSince sd1 \<longleftrightarrow> since \<in> Some ` set (tips A domain p (file_records A (Some body)))"
    by (auto simp: genesis_seed_def)
  note s1 = segments_sound [OF segs, simplified]
  note s2 = segment_sound [OF live, simplified]
  let ?rs = "concat (map (\<lambda>(n, body). file_records A (Some body)) segs')"
  have c: "chain_from A domain (p, m) (file_records A (Some body) @ ?rs) = Some (sd_prev sd, sd_expectSeq sd)"
    using s0(1) s1 by (simp add: chain_from_append)
  have all: "all_records A segs live = (file_records A (Some body) @ ?rs) @ file_records A live"
    by (simp add: all_records_def Cons seg)
  have chain: "chain_from A domain (p, m) (all_records A segs live) = Some (sd_prev sd', sd_expectSeq sd')"
    using s2 by (simp only: all chain_from_append [of A domain "(p, m)" "file_records A (Some body) @ ?rs"] c option.case)
  have n: "cnt + n = length (all_records A segs live)" using s0(2) s1 s2 by (simp add: all)
  have "tips A domain p (all_records A segs live) =
      tips A domain p (file_records A (Some body)) @ tips A domain (sd_prev sd1) ?rs @ tips A domain (sd_prev sd) (file_records A live)"
    by (simp only: all tips_append [OF c]) (simp add: tips_append [OF s0(1)])
  then have found: "sd_foundSince sd' \<longleftrightarrow> since \<in> Some ` set (tips A domain p (all_records A segs live))"
    using s0(3) s1 s2 by auto
  show ?thesis
  proof (cases "all_records A segs live = []")
    case True
    then show ?thesis using n chain by (auto simp: v verdict_of_def)
  next
    case False
    then have "cnt + n \<noteq> 0" using n by simp
    then have "v = \<lparr>cv_count = cnt + n, cv_tip = Some (sd_prev sd'), cv_sinceSeq = sd_sinceSeq sd',
        cv_foundSince = sd_foundSince sd'\<rparr>" by (simp only: v verdict_of_def if_False)
    then show ?thesis using chain found n False by auto
  qed
qed

text \<open>
  The messages hashed for a chain, read off its records, and what it means that one state of a
  chain continues another: its last record is still there, and as far back as both reach from
  it they agree.
\<close>

definition prev_of :: "audit_record \<Rightarrow> u8 list" where
  "prev_of r = (case hex_decode (ar_prev_hash r) of Some p \<Rightarrow> p | None \<Rightarrow> [])"

definition messages :: "string \<Rightarrow> audit_record list \<Rightarrow> u8 list list" where
  "messages domain rs = map (\<lambda>r. canonical r (prev_of r) domain) rs"

definition continues :: "audit_record list \<Rightarrow> audit_record list \<Rightarrow> bool" where
  "continues rs rs' \<longleftrightarrow>
     rs = [] \<or>
     (\<exists>ys zs. rs' = ys @ zs \<and> ys \<noteq> [] \<and>
        (suffix (map chained rs) (map chained ys) \<or> suffix (map chained ys) (map chained rs)))"

lemma hashed_messages: "chain_from A domain (p, n) rs = Some st \<Longrightarrow> hashed A domain p rs = messages domain rs"
  by (induction rs arbitrary: p n) (auto simp: messages_def prev_of_def hexEqual_def split: if_splits)

lemma same_tip_overlap:
  assumes "\<not> sha_broken A M" "length domain < 2 ^ 63" "\<forall>r\<in>set xs \<union> set ys. sized r"
    and "chain_from A domain (p, n) xs = Some (t, a)" "chain_from A domain (q, m) ys = Some (t, b)"
    and "set (messages domain xs) \<subseteq> M" "set (messages domain ys) \<subseteq> M"
  shows "suffix (map chained xs) (map chained ys) \<or> suffix (map chained ys) (map chained xs)"
  using assms(3-7)
proof (induction xs arbitrary: ys t a b rule: rev_induct)
  case (snoc r xs)
  from snoc.prems(2) obtain p1 k where p: "chain_from A domain (p, n) xs = Some (p1, k)" "t = digest A domain p1 r"
    "hashed A domain p (xs @ [r]) = hashed A domain p xs @ [canonical r p1 domain]"
    by (rule chain_snoc)
  show ?case
  proof (cases ys rule: rev_cases)
    case (snoc ys' r')
    with snoc.prems(3) obtain q1 j where q: "chain_from A domain (q, m) ys' = Some (q1, j)" "t = digest A domain q1 r'"
      "hashed A domain q (ys' @ [r']) = hashed A domain q ys' @ [canonical r' q1 domain]"
      by (auto elim: chain_snoc)
    have "hashed A domain p (xs @ [r]) = messages domain (xs @ [r])" "hashed A domain q (ys' @ [r']) = messages domain (ys' @ [r'])"
      using hashed_messages snoc.prems(2,3) snoc by auto
    then have M: "canonical r p1 domain \<in> M" "canonical r' q1 domain \<in> M"
      "set (messages domain xs) \<subseteq> M" "set (messages domain ys') \<subseteq> M"
      using snoc.prems(4,5) p(3) q(3) snoc by (auto simp: messages_def)
    have eq: "chained r = chained r' \<and> p1 = q1 \<and> domain = domain"
      using p(2) q(2) snoc.prems(1)
      by (intro digest_inject [OF _ assms(1) M(1,2) _ _ assms(2) assms(2)]) (auto simp: snoc)
    then have "suffix (map chained xs) (map chained ys') \<or> suffix (map chained ys') (map chained xs)"
      using snoc.prems(1) p(1) q(1) M(3,4) by (intro snoc.IH) (auto simp: snoc)
    then show ?thesis using eq by (auto simp: snoc)
  qed simp
qed simp

text \<open>The chain of hashes does not depend on the key that signed it.\<close>

definition keyless :: "audit_env \<Rightarrow> audit_env" where
  "keyless A = A\<lparr>ae_verify := (\<lambda>m s. True)\<rparr>"

lemma digest_keyless: "digest (keyless A) = digest A" "ae_verify (keyless A) m s"
  by (simp_all add: keyless_def digest_def fun_eq_iff)

lemma chain_from_keyless: "chain_from A domain st xs = Some st' \<Longrightarrow> chain_from (keyless A) domain st xs = Some st'"
  by (induction A domain st xs rule: chain_from.induct)
    (auto simp: record_ok_def digest_keyless split: if_splits option.splits)

lemma verdict_continues:
  assumes "verifySegmentedChain A domain since segs live = Inr v" "keyless A' = keyless A"
    and "cmd_verdict (Some (headOrZero (cv_tip v))) expectTip
           (verifySegmentedChain A' domain (Some (headOrZero (cv_tip v))) segs' live')"
    and "rs = all_records A segs live" "rs' = all_records A' segs' live'"
    and "length domain < 2 ^ 63" "\<forall>r\<in>set rs \<union> set rs'. sized r"
  shows "continues rs rs' \<or> sha_broken A (set (messages domain rs) \<union> set (messages domain rs'))"
proof (rule disjCI)
  let ?M = "set (messages domain rs) \<union> set (messages domain rs')"
  assume nb: "\<not> sha_broken A ?M"
  then have nb': "\<not> sha_broken (keyless A) ?M" by (simp add: sha_broken_def keyless_def)
  show "continues rs rs'"
  proof (cases "rs = []")
    case False
    with chain_sound_any [OF assms(1)] assms(4) obtain p n h m where
      c: "chain_from A domain (p, n) rs = Some (h, m)" "cv_tip v = Some h" by auto
    have "h \<noteq> zeroHash"
      using hashed_messages [OF c(1)] by (intro chain_tip_not_zero [OF c(1) False nb]) simp
    with assms(3) c(2) obtain v' where v': "verifySegmentedChain A' domain (Some h) segs' live' = Inr v'" "cv_foundSince v'"
      by (auto simp: cmd_verdict_def Let_def headOrZero_def split: sum.splits)
    from chain_sound_any [OF v'(1)] v'(2) assms(5) obtain p' n' t' m' where
      c': "chain_from A' domain (p', n') rs' = Some (t', m')" "h \<in> set (tips A' domain p' rs')" by auto
    from tip_prefix [OF c'] obtain ys zs k where ys: "rs' = ys @ zs" "ys \<noteq> []"
      "chain_from A' domain (p', n') ys = Some (h, k)" by blast
    have "chain_from (keyless A) domain (p', n') ys = Some (h, k)"
      using chain_from_keyless [OF ys(3)] assms(2) by simp
    then have "suffix (map chained rs) (map chained ys) \<or> suffix (map chained ys) (map chained rs)"
      using assms(7) ys(1)
      by (intro same_tip_overlap [OF nb' assms(6) _ chain_from_keyless [OF c(1)]]) (auto simp: messages_def)
    then show ?thesis using ys by (auto simp: continues_def)
  qed (simp add: continues_def)
qed

end
