(* ===== verification/Chain_Monitor.thy ===== *)
theory Chain_Monitor
  imports Audit_Command Agent_Identity "HOL-Library.Char_ord" "HOL-Library.List_Lexorder"
begin

text \<open>
  The off-box monitor of the audit chains (\<^verbatim>\<open>src/chain-monitor/main.go\<close>): a poll of a device
  verifies a fresh quote and then, whatever came of that, fetches each chain, has
  \<open>verify-audit\<close> check it against the head pinned last, and advances the pin. What a device
  answers in one poll, the clock, the disk of the monitor, the JSON decoder and the attestation
  commands are fields of records; \<open>verify-audit\<close> is the command of \<open>Audit_Command\<close>.
\<close>

section \<open>Configuration and state\<close>

record Chain =
  ch_Domain :: string
  ch_RemotePath :: string
  ch_HeadField :: string

record Device =
  dv_Name :: string
  dv_QuoteCmd :: string
  dv_FetchChainCmd :: string
  dv_ListSegmentsCmd :: string
  dv_ExpectedD :: string
  dv_CollectorBinForD :: string
  dv_AuditPub :: string
  dv_Chains :: "Chain list"

record Config =
  cg_MissedThreshold :: int
  cg_Devices :: "Device list"

record chainState =
  cs_PinnedHead :: string
  cs_LastUpdate :: int
  cs_ConsecutiveRaces :: int

record chainMetric =
  cm_Records :: nat
  cm_Witnessed :: nat
  cm_VerifyOK :: nat

record pollMetrics =
  pm_Reachable :: nat
  pm_AttestOK :: nat
  pm_Chains :: "string \<Rightarrow> chainMetric option"

record deviceState =
  ds_AKPinHex :: string
  ds_Chains :: "string \<Rightarrow> chainState option"
  ds_LastOK :: int
  ds_Misses :: int
  ds_Metrics :: pollMetrics

record Alert =
  aw_Device :: string
  aw_Kind :: string
  aw_Domain :: string
  aw_Detail :: string

definition maxConsecutiveRaces :: int where
  "maxConsecutiveRaces = 3"

definition maxChainFileBytes :: nat where
  "maxChainFileBytes = 128 * 2 ^ 20"

text \<open>A missing entry of the Go map reads as the zero value.\<close>

definition chain_state :: "deviceState \<Rightarrow> string \<Rightarrow> chainState" where
  "chain_state st d =
     (case ds_Chains st d of
        Some cs \<Rightarrow> cs
      | None \<Rightarrow> \<lparr>cs_PinnedHead = '''', cs_LastUpdate = 0, cs_ConsecutiveRaces = 0\<rparr>)"

definition no_metrics :: pollMetrics where
  "no_metrics = \<lparr>pm_Reachable = 0, pm_AttestOK = 0, pm_Chains = Map.empty\<rparr>"

definition fresh_state :: deviceState where
  "fresh_state =
     \<lparr>ds_AKPinHex = '''', ds_Chains = Map.empty, ds_LastOK = 0, ds_Misses = 0, ds_Metrics = no_metrics\<rparr>"

section \<open>The verifier\<close>

definition isHex :: "string \<Rightarrow> bool" where
  "isHex s \<longleftrightarrow> hex_decode s \<noteq> None \<and> even (length s)"

definition tipFromVerifyOutput :: "(string \<Rightarrow> string) \<Rightarrow> string \<Rightarrow> string" where
  "tipFromVerifyOutput lower s =
     (let vs = List.map_filter
            (\<lambda>f. let v = trimPrefix f ''tip=''
                 in if v \<noteq> f then Some (ToLower lower (trimSpace v)) else None) (Fields s)
      in case find (\<lambda>v. length v = 64 \<and> isHex v) vs of Some v \<Rightarrow> v | None \<Rightarrow> '''')"

definition lastHexToken :: "string \<Rightarrow> string" where
  "lastHexToken s =
     foldl (\<lambda>best f. let g = trimPrefix f ''D='' in if 32 \<le> length g \<and> isHex g then g else best) '''' (Fields s)"

text \<open>
  The interface \<open>Verifier\<close>. A call that names the staged envelope has its content as a
  parameter, one that names a chain the directory it lies in; the results are the Go values with
  the error, if any, as a text.
\<close>

record verifier =
  vf_AKPub :: "string \<Rightarrow> string \<times> string option"
  vf_ExpectedD :: "string \<Rightarrow> string \<times> string option"
  vf_VerifyQuote :: "string \<Rightarrow> string \<Rightarrow> string \<Rightarrow> string \<Rightarrow> string option"
  vf_VerifyChain :: "dir \<Rightarrow> string \<Rightarrow> string \<Rightarrow> string \<Rightarrow> string \<Rightarrow> string \<Rightarrow> string + string"

text \<open>
  What \<open>collectorVerifier\<close> runs: the attestation commands over an envelope give their output
  and the error of the process, \<open>verify-audit\<close> is modelled.
\<close>

record collector_cli =
  cc_world :: verify_world
  cc_attest :: "string \<Rightarrow> string list \<Rightarrow> string \<times> string option"
  cc_lower :: "string \<Rightarrow> string"

definition VerifyChain ::
  "collector_cli \<Rightarrow> dir \<Rightarrow> string \<Rightarrow> string \<Rightarrow> string \<Rightarrow> string \<Rightarrow> string \<Rightarrow> string + string" where
  "VerifyChain c d chainPath auditPub domain sinceHead expectTip =
     (let args = [chainPath] @ (if auditPub \<noteq> '''' then [auditPub] else []) @
            (if sinceHead \<noteq> '''' then [''--since='' @ sinceHead] else []) @
            (if expectTip \<noteq> '''' then [''--expect-tip='' @ expectTip] else []);
          w = (if domain \<noteq> ''''
               then (cc_world c)\<lparr>vw_getenv := (vw_getenv (cc_world c))(''BULKHEAD_AUDIT_DOMAIN'' := domain)\<rparr>
               else cc_world c)
      in case cmdVerifyAudit w d args of
           (out, status) \<Rightarrow>
             if status \<noteq> 0 then
               Inl (''verify-audit '' @ chainPath @ '': exit status '' @ itoa status @ '': '' @ trimSpace out)
             else
               let tip = tipFromVerifyOutput (cc_lower c) out
               in if tip = '''' then
                    Inl (''verify-audit '' @ chainPath @ '': passed but emitted no tip= HEAD: '' @ trimSpace out)
                  else Inr tip)"

definition collectorVerifier :: "collector_cli \<Rightarrow> string \<Rightarrow> verifier" where
  "collectorVerifier c envPath =
     \<lparr>vf_AKPub = (\<lambda>env. let (out, err) = cc_attest c env [''attest'', ''akpub'', envPath] in (trimSpace (lastHexToken out), err)),
      vf_ExpectedD = (\<lambda>bin. let (out, err) = cc_attest c '''' [''attest'', ''expected-d'', bin] in (trimSpace (lastHexToken out), err)),
      vf_VerifyQuote = (\<lambda>env d nonce pin. snd (cc_attest c env [''attest'', ''verify'', envPath, d, nonce, pin])),
      vf_VerifyChain = VerifyChain c\<rparr>"

section \<open>The transport\<close>

lemma Index_bound: "Index s sub = Some i \<Longrightarrow> i + length sub \<le> length s"
proof (induction s arbitrary: i)
  case (Cons a s)
  then show ?case
    by (auto split: if_splits simp: hasPrefix_iff) (metis length_Cons length_append le_add1)
qed (simp split: if_splits)

function ReplaceAll :: "string \<Rightarrow> string \<Rightarrow> string \<Rightarrow> string" where
  "ReplaceAll s old new =
     (if old = '''' then s
      else case Index s old of
             None \<Rightarrow> s
           | Some i \<Rightarrow> take i s @ new @ ReplaceAll (drop (i + length old) s) old new)"
  by pat_completeness auto

termination
proof (relation "measure (\<lambda>(s, old, new). length s)", goal_cases)
  case (2 s old new i)
  then show ?case using Index_bound [OF 2(2)] by (cases old) auto
qed simp

declare ReplaceAll.simps [simp del]

text \<open>
  \<open>shellTransport.Fetch\<close>: the text given to \<open>sh -c\<close>. The code passes one substitution at a time.
\<close>

definition shell_command :: "string \<Rightarrow> (string \<times> string) list \<Rightarrow> string" where
  "shell_command template subs = fold (\<lambda>(k, v) cmd. ReplaceAll cmd (''{'' @ k @ ''}'') v) subs template"

text \<open>
  One poll as the monitor meets it: what the transport returns to the quote command, and for each
  chain to the first listing, to a fetch and to the second listing.
\<close>

datatype phase = Quote | Listing1 string | Fetching string | Listing2 string

record quoteEnvelope =
  qe_HeadCollector :: string
  qe_HeadControl :: string
  qe_HeadBroker :: string

record poll =
  po_fetch :: "phase \<Rightarrow> string \<Rightarrow> (string \<times> string) list \<Rightarrow> string + string"
  po_unmarshal :: "string \<Rightarrow> quoteEnvelope"
  po_stage :: "string option"
  po_mkdir :: "string \<Rightarrow> string option"
  po_write :: "string \<Rightarrow> string option"
  po_nonce :: string
  po_now :: int
  po_workDir :: string

definition quote_head :: "quoteEnvelope \<Rightarrow> string \<Rightarrow> string" where
  "quote_head e field =
     (if field = ''head_collector_hex'' then qe_HeadCollector e
      else if field = ''head_control_hex'' then qe_HeadControl e
      else if field = ''head_broker_hex'' then qe_HeadBroker e
      else '''')"

section \<open>Fetching a chain\<close>

text \<open>\<open>strings.Map\<close> replaces code points; outside ASCII it is the first argument.\<close>

definition sanitize :: "(string \<Rightarrow> string) \<Rightarrow> string \<Rightarrow> string" where
  "sanitize unicode s =
     (if list_all ascii s
      then map (\<lambda>c. let n = of_char c :: nat
             in if 97 \<le> n \<and> n \<le> 122 \<or> 65 \<le> n \<and> n \<le> 90 \<or> 48 \<le> n \<and> n \<le> 57 \<or> c = CHR ''-'' \<or> c = CHR ''_'' then c
                else CHR ''_'') s
      else unicode s)"

definition fetchOneInto ::
  "poll \<Rightarrow> Device \<Rightarrow> string \<Rightarrow> string \<Rightarrow> string \<Rightarrow> string \<Rightarrow> dir \<Rightarrow> string + nat \<times> dir" where
  "fetchOneInto po dev domain destDir remotePath name d =
     (case po_fetch po (Fetching domain) (dv_FetchChainCmd dev) [(''chain'', remotePath)] of
        Inl e \<Rightarrow> Inl e
      | Inr b \<Rightarrow>
          if maxChainFileBytes < length b then
            Inl (''chain file '' @ remotePath @ '' is '' @ itoa (length b) @ '' bytes (> the '' @
                 itoa maxChainFileBytes @ ''-byte cap)'')
          else
            (case po_write po (Join2 destDir name) of
               Some e \<Rightarrow> Inl e
             | None \<Rightarrow>
                 Inr (length (filter (\<lambda>ln. trimSpace ln \<noteq> '''') (split_on newline b)), AList.update name b d)))"

text \<open>The number of a listed path that names a segment of the chain, or nothing.\<close>

definition remote_segment :: "string \<Rightarrow> string \<Rightarrow> nat option" where
  "remote_segment pre p =
     (let name = path_base p
      in if \<not> hasPrefix name pre then None
         else let suf = drop (length pre) name
              in if suf = '''' \<or> \<not> list_all is_digit suf then None else map_option unat (ParseUint64 suf))"

fun segment_lines :: "string \<Rightarrow> string list \<Rightarrow> (string \<times> nat) list \<Rightarrow> string + (string \<times> nat) list" where
  "segment_lines pre [] segs = Inr segs"
| "segment_lines pre (ln # lns) segs =
     (let p = trimSpace ln
      in if p = '''' then segment_lines pre lns segs
         else case remote_segment pre p of
                None \<Rightarrow> segment_lines pre lns segs
              | Some num \<Rightarrow>
                  if num \<in> snd ` set segs then
                    Inl (''segment '' @ pad6 num @ '' listed more than once by ListSegmentsCmd'')
                  else segment_lines pre lns (segs @ [(p, num)]))"

definition listRemoteSegments :: "poll \<Rightarrow> phase \<Rightarrow> Device \<Rightarrow> Chain \<Rightarrow> string + string list" where
  "listRemoteSegments po ph dev ch =
     (if dv_ListSegmentsCmd dev = '''' then Inr []
      else
        (case po_fetch po ph (dv_ListSegmentsCmd dev) [(''chain'', ch_RemotePath ch)] of
           Inl e \<Rightarrow> Inl e
         | Inr out \<Rightarrow>
             (case segment_lines (path_base (ch_RemotePath ch) @ ''.'') (split_on newline out) [] of
                Inl e \<Rightarrow> Inl e
              | Inr segs \<Rightarrow> Inr (map fst (sort_key snd segs)))))"

fun fetch_segments ::
  "poll \<Rightarrow> Device \<Rightarrow> string \<Rightarrow> string \<Rightarrow> string list \<Rightarrow> nat \<Rightarrow> dir \<Rightarrow> string + nat \<times> dir" where
  "fetch_segments po dev domain destDir [] records d = Inr (records, d)"
| "fetch_segments po dev domain destDir (seg # segs) records d =
     (case fetchOneInto po dev domain destDir seg (path_base seg) d of
        Inl e \<Rightarrow> Inl e
      | Inr (n, d') \<Rightarrow> fetch_segments po dev domain destDir segs (records + n) d')"

text \<open>The count of records, whether a rotation raced the fetch, and the fetched directory.\<close>

definition fetchChainToDir :: "poll \<Rightarrow> Device \<Rightarrow> Chain \<Rightarrow> string \<Rightarrow> string + nat \<times> bool \<times> dir" where
  "fetchChainToDir po dev ch destDir =
     (case listRemoteSegments po (Listing1 (ch_Domain ch)) dev ch of
        Inl e \<Rightarrow> Inl e
      | Inr segs1 \<Rightarrow>
          (case fetch_segments po dev (ch_Domain ch) destDir segs1 0 [] of
             Inl e \<Rightarrow> Inl e
           | Inr (records, d) \<Rightarrow>
               (case fetchOneInto po dev (ch_Domain ch) destDir (ch_RemotePath ch) (path_base (ch_RemotePath ch)) d of
                  Inl e \<Rightarrow> Inl e
                | Inr (n, d') \<Rightarrow>
                    if dv_ListSegmentsCmd dev \<noteq> '''' then
                      (case listRemoteSegments po (Listing2 (ch_Domain ch)) dev ch of
                         Inl e \<Rightarrow> Inl e
                       | Inr segs2 \<Rightarrow> Inr (records + n, segs1 \<noteq> segs2, d'))
                    else Inr (records + n, False, d'))))"

section \<open>A poll\<close>

definition set_chain :: "string \<Rightarrow> chainState \<Rightarrow> deviceState \<Rightarrow> deviceState" where
  "set_chain d cs st = st\<lparr>ds_Chains := (ds_Chains st)(d \<mapsto> cs)\<rparr>"

definition set_metric :: "string \<Rightarrow> chainMetric \<Rightarrow> deviceState \<Rightarrow> deviceState" where
  "set_metric d m st =
     st\<lparr>ds_Metrics := (ds_Metrics st)\<lparr>pm_Chains := (pm_Chains (ds_Metrics st))(d \<mapsto> m)\<rparr>\<rparr>"

definition attestPoll ::
  "Config \<Rightarrow> Device \<Rightarrow> verifier \<Rightarrow> poll \<Rightarrow> deviceState \<Rightarrow> bool \<times> bool \<times> quoteEnvelope \<times> Alert list \<times> deviceState" where
  "attestPoll cfg dev v po st =
     (let none = \<lparr>qe_HeadCollector = '''', qe_HeadControl = '''', qe_HeadBroker = ''''\<rparr>;
          al = (\<lambda>kind detail. \<lparr>aw_Device = dv_Name dev, aw_Kind = kind, aw_Domain = '''', aw_Detail = detail\<rparr>);
          miss = (\<lambda>s. s\<lparr>ds_Misses := ds_Misses s + 1\<rparr>);
          silent = (\<lambda>why.
            let s = miss st
            in (False, False, none,
                if cg_MissedThreshold cfg \<le> ds_Misses s then
                  [al ''missed-attestation'' (''no quote for '' @ itoa (nat (ds_Misses s)) @ '' consecutive polls'' @ why)]
                else [], s))
      in case po_fetch po Quote (dv_QuoteCmd dev) [(''nonce'', po_nonce po)] of
           Inl e \<Rightarrow> silent ('': '' @ e)
         | Inr [] \<Rightarrow> silent ''''
         | Inr (b # bs) \<Rightarrow>
             let bytes = b # bs;
                 st1 = st\<lparr>ds_Metrics := (ds_Metrics st)\<lparr>pm_Reachable := 1\<rparr>\<rparr>
             in (case po_stage po of
                   Some e \<Rightarrow> (False, True, none, [al ''fetch-failed'' (''cannot stage envelope: '' @ e)], st1)
                 | None \<Rightarrow>
                     let (pin, perr) = (if ds_AKPinHex st1 = '''' then vf_AKPub v bytes else (ds_AKPinHex st1, None))
                     in if perr \<noteq> None \<or> pin = '''' then
                          (False, True, none,
                           [al ''quote-verify-failed'' (''AK pin capture failed: '' @ (case perr of Some e \<Rightarrow> e | None \<Rightarrow> ''(nil)''))],
                           miss st1)
                        else
                          let st2 = st1\<lparr>ds_AKPinHex := pin\<rparr>;
                              (expectedD, derr) =
                                (if dv_ExpectedD dev = '''' \<and> dv_CollectorBinForD dev \<noteq> ''''
                                 then vf_ExpectedD v (dv_CollectorBinForD dev) else (dv_ExpectedD dev, None))
                          in (case derr of
                                Some e \<Rightarrow>
                                  (False, True, none, [al ''quote-verify-failed'' (''expected-D derivation failed: '' @ e)], st2)
                              | None \<Rightarrow>
                                  (case vf_VerifyQuote v bytes expectedD (po_nonce po) (ds_AKPinHex st2) of
                                     Some e \<Rightarrow> (False, True, none, [al ''quote-verify-failed'' e], miss st2)
                                   | None \<Rightarrow>
                                       (True, True, po_unmarshal po bytes, [],
                                        st2\<lparr>ds_Misses := 0, ds_LastOK := po_now po,
                                            ds_Metrics := (ds_Metrics st2)\<lparr>pm_AttestOK := 1\<rparr>\<rparr>)))))"

definition race_detail :: "int \<Rightarrow> string" where
  "race_detail n =
     ''the segment set changed on '' @ itoa (nat n) @ '' consecutive polls '' @ em_dash @
     '' pathological rotation or an evasion attempt (a box re-rotating every poll to dodge the off-box witness); investigate the device''"

definition rewind_note :: string where
  "rewind_note = '' '' @ em_dash @
     '' the prior-pinned HEAD is gone: a tail-truncation/rewind, OR (only if the device was unreachable past the ADR-0040 prune cadence) '' @
     ''a benign rotation that pruned the anchor; correlate with this device's reachability/missed-attestation. '' @
     ''After confirming the device is healthy, clear its monitor state file to re-anchor.''"

definition witness_chain ::
  "(string \<Rightarrow> string) \<Rightarrow> Device \<Rightarrow> verifier \<Rightarrow> poll \<Rightarrow> bool \<Rightarrow> bool \<Rightarrow> quoteEnvelope \<Rightarrow> Chain \<Rightarrow> deviceState \<Rightarrow>
   Alert list \<times> deviceState" where
  "witness_chain unicode dev v po quoteOK reachable env ch st =
     (let d = ch_Domain ch;
          destDir = Join2 (po_workDir po) (sanitize unicode d);
          al = (\<lambda>kind detail. \<lparr>aw_Device = dv_Name dev, aw_Kind = kind, aw_Domain = d, aw_Detail = detail\<rparr>)
      in case po_mkdir po destDir of
           Some e \<Rightarrow> ([al ''fetch-failed'' e], st)
         | None \<Rightarrow>
             (case fetchChainToDir po dev ch destDir of
                Inl e \<Rightarrow> (if reachable then [al ''fetch-failed'' e] else [], st)
              | Inr (records, True, files) \<Rightarrow>
                  let cs = chain_state st d;
                      cs' = cs\<lparr>cs_ConsecutiveRaces := cs_ConsecutiveRaces cs + 1\<rparr>
                  in (if maxConsecutiveRaces \<le> cs_ConsecutiveRaces cs' then
                        [al ''chain-fetch-unstable''
                           (race_detail (cs_ConsecutiveRaces cs'))]
                      else [], set_chain d cs' st)
              | Inr (records, False, files) \<Rightarrow>
                  let st1 = (if cs_ConsecutiveRaces (chain_state st d) \<noteq> 0
                             then set_chain d ((chain_state st d)\<lparr>cs_ConsecutiveRaces := 0\<rparr>) st else st);
                      expectTip = (if quoteOK then quote_head env (ch_HeadField ch) else '''');
                      prior = cs_PinnedHead (chain_state st1 d);
                      logPath = Join2 destDir (path_base (ch_RemotePath ch))
                  in (case vf_VerifyChain v files logPath (dv_AuditPub dev) d prior expectTip of
                        Inl e \<Rightarrow>
                          ([al ''chain-rewind-or-fail''
                              (if prior \<noteq> '''' then e @ rewind_note else e)],
                           set_metric d \<lparr>cm_Records = records, cm_Witnessed = 1, cm_VerifyOK = 0\<rparr> st1)
                      | Inr tip \<Rightarrow>
                          ([], set_chain d \<lparr>cs_PinnedHead = tip, cs_LastUpdate = po_now po, cs_ConsecutiveRaces = 0\<rparr>
                                 (set_metric d \<lparr>cm_Records = records, cm_Witnessed = 1, cm_VerifyOK = 1\<rparr> st1)))))"

fun witnessChains ::
  "(string \<Rightarrow> string) \<Rightarrow> Device \<Rightarrow> verifier \<Rightarrow> poll \<Rightarrow> bool \<Rightarrow> bool \<Rightarrow> quoteEnvelope \<Rightarrow> Chain list \<Rightarrow> deviceState \<Rightarrow>
   Alert list \<times> deviceState" where
  "witnessChains unicode dev v po quoteOK reachable env [] st = ([], st)"
| "witnessChains unicode dev v po quoteOK reachable env (ch # chs) st =
     (let (as, st') = witness_chain unicode dev v po quoteOK reachable env ch st;
          (bs, st'') = witnessChains unicode dev v po quoteOK reachable env chs st'
      in (as @ bs, st''))"

definition pollDevice ::
  "(string \<Rightarrow> string) \<Rightarrow> Config \<Rightarrow> Device \<Rightarrow> verifier \<Rightarrow> poll \<Rightarrow> deviceState \<Rightarrow> Alert list \<times> deviceState" where
  "pollDevice unicode cfg dev v po st =
     (let (quoteOK, reachable, env, as, st') = attestPoll cfg dev v po (st\<lparr>ds_Metrics := no_metrics\<rparr>);
          (bs, st'') = witnessChains unicode dev v po quoteOK reachable env (dv_Chains dev) st'
      in (as @ bs, st''))"

section \<open>The driver\<close>

text \<open>
  The state files, by name: the state that reading and decoding one leaves, or nothing if there
  is no file, it cannot be read or it is no JSON. Metrics are not written.
\<close>

type_synonym state_store = "string \<Rightarrow> deviceState option"

definition stateFile :: "(string \<Rightarrow> string) \<Rightarrow> Device \<Rightarrow> string" where
  "stateFile unicode dev = ''device-'' @ sanitize unicode (dv_Name dev) @ ''.json''"

definition loadState :: "(string \<Rightarrow> string) \<Rightarrow> state_store \<Rightarrow> Device \<Rightarrow> deviceState" where
  "loadState unicode store dev = (case store (stateFile unicode dev) of Some st \<Rightarrow> st | None \<Rightarrow> fresh_state)"

definition saveState :: "(string \<Rightarrow> string) \<Rightarrow> bool \<Rightarrow> state_store \<Rightarrow> Device \<Rightarrow> deviceState \<Rightarrow> state_store" where
  "saveState unicode ok store dev st =
     (if ok then store(stateFile unicode dev \<mapsto> st\<lparr>ds_Metrics := no_metrics\<rparr>) else store)"

text \<open>The polls are numbered; the second function tells whether a state could be saved.\<close>

fun poll_names ::
  "(string \<Rightarrow> string) \<Rightarrow> Config \<Rightarrow> (poll \<Rightarrow> verifier) \<Rightarrow> (nat \<Rightarrow> poll) \<Rightarrow> (nat \<Rightarrow> bool) \<Rightarrow> nat \<Rightarrow> string list \<Rightarrow> state_store \<Rightarrow>
   Alert list \<times> state_store" where
  "poll_names unicode cfg V pl saved k [] store = ([], store)"
| "poll_names unicode cfg V pl saved k (name # names) store =
     (case map_of (rev (map (\<lambda>d. (dv_Name d, d)) (cg_Devices cfg))) name of
        None \<Rightarrow> poll_names unicode cfg V pl saved (k + 1) names store
      | Some dev \<Rightarrow>
          let (as, st) = pollDevice unicode cfg dev (V (pl k)) (pl k) (loadState unicode store dev);
              (bs, store') = poll_names unicode cfg V pl saved (k + 1) names (saveState unicode (saved k) store dev st)
          in (as @ bs, store'))"

definition runOnce ::
  "(string \<Rightarrow> string) \<Rightarrow> Config \<Rightarrow> (poll \<Rightarrow> verifier) \<Rightarrow> (nat \<Rightarrow> poll) \<Rightarrow> (nat \<Rightarrow> bool) \<Rightarrow> state_store \<Rightarrow>
   Alert list \<times> state_store" where
  "runOnce unicode cfg V pl saved store =
     poll_names unicode cfg V pl saved 0 (sort (map dv_Name (cg_Devices cfg))) store"

record enrollResult =
  er_Device :: string
  er_AKPin :: string
  er_Heads :: "string \<Rightarrow> string option"
  er_Already :: bool
  er_Failed :: bool
  er_Alerts :: "Alert list"

definition enrollResultFrom :: "Device \<Rightarrow> deviceState \<Rightarrow> bool \<Rightarrow> Alert list \<Rightarrow> enrollResult" where
  "enrollResultFrom dev st already alerts =
     (if ds_AKPinHex st = '''' then
        \<lparr>er_Device = dv_Name dev, er_AKPin = '''', er_Heads = Map.empty, er_Already = already, er_Failed = True, er_Alerts = alerts\<rparr>
      else
        \<lparr>er_Device = dv_Name dev, er_AKPin = ds_AKPinHex st, er_Heads = map_option cs_PinnedHead \<circ> ds_Chains st,
         er_Already = already, er_Failed = False, er_Alerts = alerts\<rparr>)"

fun enroll_devices ::
  "(string \<Rightarrow> string) \<Rightarrow> Config \<Rightarrow> (poll \<Rightarrow> verifier) \<Rightarrow> (nat \<Rightarrow> poll) \<Rightarrow> (nat \<Rightarrow> bool) \<Rightarrow> nat \<Rightarrow> Device list \<Rightarrow> state_store \<Rightarrow>
   enrollResult list \<times> state_store" where
  "enroll_devices unicode cfg V pl saved k [] store = ([], store)"
| "enroll_devices unicode cfg V pl saved k (dev # devs) store =
     (let st = loadState unicode store dev;
          (as, st') = pollDevice unicode cfg dev (V (pl k)) (pl k) st;
          (rs, store') = enroll_devices unicode cfg V pl saved (k + 1) devs (saveState unicode (saved k) store dev st')
      in (enrollResultFrom dev st' (ds_AKPinHex st \<noteq> '''') as # rs, store'))"

definition runEnroll ::
  "(string \<Rightarrow> string) \<Rightarrow> Config \<Rightarrow> (poll \<Rightarrow> verifier) \<Rightarrow> (nat \<Rightarrow> poll) \<Rightarrow> (nat \<Rightarrow> bool) \<Rightarrow> state_store \<Rightarrow> nat \<times> state_store" where
  "runEnroll unicode cfg V pl saved store =
     (let (rs, store') = enroll_devices unicode cfg V pl saved 0 (cg_Devices cfg) store
      in (length (filter er_Failed rs), store'))"

section \<open>What a verified chain is\<close>

definition no_tip :: "string \<Rightarrow> bool" where
  "no_tip s \<longleftrightarrow> \<not> Contains_str s ''tip=''"

lemma Contains_split: "c \<notin> set sub \<Longrightarrow> sub \<noteq> [] \<Longrightarrow> Contains_str (x @ c # y) sub \<longleftrightarrow> Contains_str x sub \<or> Contains_str y sub"
  unfolding Contains_str_def
proof (induction x)
  case Nil
  then show ?case by (cases sub) (auto simp: hasPrefix_simps)
next
  case (Cons a x)
  have "hasPrefix (a # x @ c # y) sub \<longleftrightarrow> hasPrefix (a # x) sub"
  proof
    assume "hasPrefix (a # x @ c # y) sub"
    then obtain t where "(a # x) @ c # y = sub @ t" by (auto simp: hasPrefix_iff)
    then obtain us where us: "a # x = sub @ us \<and> us @ c # y = t \<or> (a # x) @ us = sub \<and> c # y = us @ t"
      unfolding append_eq_append_conv2 by blast
    show "hasPrefix (a # x) sub"
    proof (cases us)
      case Nil
      then show ?thesis using us by (auto simp: hasPrefix_def)
    next
      case (Cons b bs)
      then have "\<not> ((a # x) @ us = sub \<and> c # y = us @ t)" using Cons.prems(1) by auto
      then show ?thesis using us by (auto simp: hasPrefix_def)
    qed
  next
    assume "hasPrefix (a # x) sub"
    then obtain t where "a # x = sub @ t" by (auto simp: hasPrefix_iff)
    then have "a # x @ c # y = sub @ (t @ c # y)" by (metis append_Cons append_assoc)
    then show "hasPrefix (a # x @ c # y) sub" unfolding hasPrefix_iff by blast
  qed
  then show ?case using Cons by simp
qed

lemma no_tip_split: "c \<notin> {CHR ''t'', CHR ''i'', CHR ''p'', CHR ''=''} \<Longrightarrow> no_tip (x @ c # y) \<longleftrightarrow> no_tip x \<and> no_tip y"
  by (simp add: no_tip_def Contains_split)

lemma no_tip_digits: "list_all is_digit s \<Longrightarrow> no_tip s"
  unfolding no_tip_def Contains_str_def
  by (induction s) (auto simp: hasPrefix_simps is_digit_def)

lemma no_tip_without: "CHR ''t'' \<notin> set s \<Longrightarrow> no_tip s"
  unfolding no_tip_def Contains_str_def by (induction s) (auto simp: hasPrefix_simps)

lemma no_tip_hex: "no_tip (hex_encode bs)"
proof (rule no_tip_without)
  have "hex_digit d \<noteq> CHR ''t''" if "d < 16" for d using that
    by (auto simp: hex_digit_def dest!: arg_cong [of _ _ "of_char :: char \<Rightarrow> nat"])
  moreover have "unat b div 16 < 16" for b :: u8 using unat_u8_less [of b] by (simp add: less_mult_imp_div_less)
  ultimately show "CHR ''t'' \<notin> set (hex_encode bs)"     by (induction bs) (auto simp: hex_encode_def dest: sym)
qed

lemma no_tip_field: "no_tip s \<Longrightarrow> f \<in> set (Fields s) \<Longrightarrow> trimPrefix f ''tip='' = f"
proof (rule ccontr)
  assume s: "no_tip s" "f \<in> set (Fields s)" and "trimPrefix f ''tip='' \<noteq> f"
  then obtain t where "f = ''tip='' @ t" by (auto simp: trimPrefix_def hasPrefix_iff split: if_splits)
  moreover obtain x y where "s = x @ f @ y" using Fields_infix [OF s(2)] by blast
  ultimately have "s = x @ ''tip='' @ (t @ y)" by simp
  then have "Index s ''tip='' \<noteq> None" unfolding Index_append_iff by blast
  then show False using s(1) by (simp add: no_tip_def Contains_str_def)
qed

lemma trimSpace_hex: "trimSpace (hex_encode bs) = hex_encode bs"
proof (cases "hex_encode bs = []")
  case False
  then show ?thesis
    using hex_encode_graphic [of bs] by (intro trimSpace_graphic) (auto simp: list_all_iff)
qed simp

lemma ToLower_hex: "ToLower lower (hex_encode bs) = hex_encode bs"
proof -
  have *: "ascii (hex_digit d) \<and> lower_char (hex_digit d) = hex_digit d" if "d < 16" for d
    using that by (auto simp: hex_digit_def ascii_def lower_char_def)
  have "unat b div 16 < 16" for b :: u8 using unat_u8_less [of b] by (simp add: less_mult_imp_div_less)
  then have "list_all ascii (hex_encode bs) \<and> map lower_char (hex_encode bs) = hex_encode bs"
    by (induction bs) (simp_all add: hex_encode_def *)
  then show ?thesis by (simp add: ToLower_def)
qed

lemma length_hex_encode: "length (hex_encode bs) = 2 * length bs"
  by (induction bs) (simp_all add: hex_encode_def)

text \<open>The tip the monitor reads off the output is the one the command printed.\<close>

lemma tip_read_back:
  assumes "no_tip chain" "no_tip src" "no_tip domain" "length t = 32"
  shows "tipFromVerifyOutput lower (ok_line n chain src domain (hex_encode t) @ rest) = hex_encode t"
proof -
  let ?a = "''verify-audit: OK '' @ em_dash @ '' '' @ itoa n @ '' record(s) verified for '' @ chain @
     '' [key: '' @ src @ '', domain: '' @ domain @ ''],''"
  have "no_tip ?a"
  proof -
    have 1: "no_tip (domain @ ''],'')" using assms(3) no_tip_split [of "CHR '']''" domain "'',''"] by (simp add: no_tip_def Contains_str_def hasPrefix_simps hasPrefix_Nil)
    have 2: "no_tip (src @ '', domain: '' @ domain @ ''],'')"
      using assms(2) 1 no_tip_split [of "CHR '',''" src "'' domain: '' @ domain @ ''],''"]
        no_tip_split [of "CHR '':''" "'' domain''" "'' '' @ domain @ ''],''"] no_tip_split [of "CHR '' ''" "[]" "domain @ ''],''"]
      by (simp add: no_tip_def Contains_str_def hasPrefix_simps hasPrefix_Nil)
    have 3: "no_tip (chain @ '' [key: '' @ src @ '', domain: '' @ domain @ ''],'')"
      using assms(1) 2 no_tip_split [of "CHR '' ''" chain "''[key: '' @ src @ '', domain: '' @ domain @ ''],''"]
        no_tip_split [of "CHR '' ''" "''[key:''" "src @ '', domain: '' @ domain @ ''],''"]
      by (simp add: no_tip_def Contains_str_def hasPrefix_simps hasPrefix_Nil)
    have "no_tip (itoa n)" using itoa_digits by (blast intro: no_tip_digits)
    then have 4: "no_tip (itoa n @ '' record(s) verified for '' @ chain @ '' [key: '' @ src @ '', domain: '' @ domain @ ''],'')"
      using 3 no_tip_split [of "CHR '' ''" "itoa n" "''record(s) verified for '' @ chain @ '' [key: '' @ src @ '', domain: '' @ domain @ ''],''"]
        no_tip_split [of "CHR '' ''" "''record(s) verified for''" "chain @ '' [key: '' @ src @ '', domain: '' @ domain @ ''],''"]
      by (simp add: no_tip_def Contains_str_def hasPrefix_simps hasPrefix_Nil)
    show ?thesis
      using 4 by (simp add: no_tip_def Contains_str_def hasPrefix_simps hasPrefix_Nil em_dash_def)
  qed
  then have no: "List.map_filter (\<lambda>f. let v = trimPrefix f ''tip='' in if v \<noteq> f then Some (ToLower lower (trimSpace v)) else None)
      (Fields ?a) = []"
    using no_tip_field [of ?a] by (auto simp: List.map_filter_def Let_def filter_empty_conv)
  have g: "list_all graphic (''tip='' @ hex_encode t)" using hex_encode_graphic [of t] by (simp add: graphic_def)
  have "ok_line n chain src domain (hex_encode t) @ rest = ?a @ CHR '' '' # (''tip='' @ hex_encode t) @ newline # rest"
    by (simp add: ok_line_def)
  then have "Fields (ok_line n chain src domain (hex_encode t) @ rest) = Fields ?a @ [''tip='' @ hex_encode t] @ Fields rest"
    using Fields_blank [of "CHR '' ''" ?a] Fields_blank [of newline "''tip='' @ hex_encode t" rest] Fields_graphic [OF g]
    by (simp add: ascii_blank_def newline_def)
  moreover have "trimPrefix (''tip='' @ hex_encode t) ''tip='' = hex_encode t" by (simp add: trimPrefix_def hasPrefix_simps)
  ultimately show ?thesis
    using no assms(4)
    by (simp add: tipFromVerifyOutput_def List.map_filter_def Let_def trimSpace_hex ToLower_hex length_hex_encode isHex_def)
qed

text \<open>What is asked of a configuration: its texts cannot be taken for a printed tip, and a hash has 32 bytes.\<close>

definition sound_setup :: "collector_cli \<Rightarrow> string \<Rightarrow> string \<Rightarrow> string \<Rightarrow> bool" where
  "sound_setup c path pub domain \<longleftrightarrow>
     no_tip path \<and> no_tip pub \<and> no_tip domain \<and> domain \<noteq> '''' \<and> length domain < 2 ^ 63 \<and>
     (\<forall>m. length (ae_sha256 (vw_audit (cc_world c)) m) = 32)"

lemma parse_flags:
  assumes "parseVerifyArgs ((if pub \<noteq> '''' then [pub] else []) @ (if since \<noteq> '''' then [''--since='' @ since] else []) @
      (if expect \<noteq> '''' then [''--expect-tip='' @ expect] else [])) = Inr va"
  shows "(since \<noteq> '''' \<longrightarrow> va_since va = since) \<and> (expect \<noteq> '''' \<longrightarrow> va_expectTip va = to_lower (trimSpace expect) \<and> va_expectTip va \<noteq> '''') \<and>
    (va_rest va = [] \<or> va_rest va = [pub])"
  using assms by (auto simp: parseVerifyArgs_def hasPrefix_simps trimPrefix_def split: if_splits)

lemma resolveAuditPub_src:
  assumes "resolveAuditPub w d rest = Inr (key, src)" "rest = [] \<or> rest = [pub]" "no_tip pub"
  shows "no_tip src"
proof -
  have lit: "no_tip ''arg''" "no_tip ''sealed-seed''" "no_tip ''audit-pub.txt''"
    by (simp_all add: no_tip_def Contains_str_def hasPrefix_simps hasPrefix_Nil)
  have "no_tip (''file:'' @ drop 1 pub)"
  proof (cases pub)
    case (Cons a t)
    then have "no_tip t" using assms(3) by (auto simp: no_tip_def Contains_str_def split: if_splits)
    then show ?thesis by (simp add: Cons no_tip_def Contains_str_def hasPrefix_simps)
  qed (simp add: no_tip_def Contains_str_def hasPrefix_simps hasPrefix_Nil)
  then show ?thesis
    using assms(1,2) lit
    by (auto simp: resolveAuditPub_def decodePubHex_def split: if_splits option.splits)
qed

lemma read_line_keyed: "read_line (keyed w k) = read_line (vw_audit w)"
  by (simp add: keyed_def read_line_def fun_eq_iff Let_def)

lemma keyed_simps: "file_records (keyed w k) = file_records (vw_audit w)"
  "all_records (keyed w k) = all_records (vw_audit w)" "sha_broken (keyed w k) = sha_broken (vw_audit w)"
  "ae_sha256 (keyed w k) = ae_sha256 (vw_audit w)"
proof -
  show f: "file_records (keyed w k) = file_records (vw_audit w)"
    by (auto simp: file_records_def read_line_keyed fun_eq_iff split: option.splits)
  show "all_records (keyed w k) = all_records (vw_audit w)" by (simp add: all_records_def f fun_eq_iff)
  show "ae_sha256 (keyed w k) = ae_sha256 (vw_audit w)" by (simp add: keyed_def)
  then show "sha_broken (keyed w k) = sha_broken (vw_audit w)" by (simp add: sha_broken_def fun_eq_iff)
qed

lemma chain_tip_length:
  assumes "chain_from A domain (p, n) xs = Some (t, m)" "xs \<noteq> []" "\<forall>x. length (ae_sha256 A x) = 32"
  shows "length t = 32"
proof (cases xs rule: rev_cases)
  case (snoc ys r)
  then show ?thesis using assms(1,3) by (auto elim!: chain_snoc simp: digest_def)
qed (use assms(2) in simp)

text \<open>
  What it means that \<open>VerifyChain\<close> returns a tip: with some key the verifier accepts the fetched
  files, the tip is the hash of their last record, and the head that was the anchor is genesis
  or the hash of one of them.
\<close>

definition accepted :: "collector_cli \<Rightarrow> dir \<Rightarrow> string \<Rightarrow> string \<Rightarrow> u8 list option \<Rightarrow> string \<Rightarrow> bool" where
  "accepted c d base domain h tip \<longleftrightarrow>
     (let (segs, live) = chain_files d base
      in \<exists>key v. verifySegmentedChain (keyed (cc_world c) key) domain h segs live = Inr v \<and>
           tip = hex_encode (headOrZero (cv_tip v)) \<and>
           cmd_verdict h '''' (verifySegmentedChain (keyed (cc_world c) key) domain h segs live))"

lemma headOrZero_length:
  assumes "verifySegmentedChain A domain h segs live = Inr v" "\<forall>x. length (ae_sha256 A x) = 32"
  shows "length (headOrZero (cv_tip v)) = 32"
  using chain_sound_any [OF assms(1)] chain_tip_length [OF _ _ assms(2)]
  by (auto simp: headOrZero_def zeroHash_def split: option.splits if_splits)

lemma VerifyChain_accepted:
  assumes "VerifyChain c d path pub domain since expect = Inr tip" "sound_setup c path pub domain"
  shows "\<exists>h. accepted c d (path_base path) domain h tip \<and> (\<forall>t. since = hex_encode t \<and> t \<noteq> [] \<longrightarrow> h = Some t) \<and>
    (expect = '''' \<or> tip = to_lower (trimSpace expect))"
proof -
  let ?w = "(cc_world c)\<lparr>vw_getenv := (vw_getenv (cc_world c))(''BULKHEAD_AUDIT_DOMAIN'' := domain)\<rparr>"
  let ?flags = "(if pub \<noteq> '''' then [pub] else []) @ (if since \<noteq> '''' then [''--since='' @ since] else []) @
      (if expect \<noteq> '''' then [''--expect-tip='' @ expect] else [])"
  have dom: "domain \<noteq> ''''" and sha: "\<forall>x. length (ae_sha256 (vw_audit (cc_world c)) x) = 32"
    using assms(2) by (auto simp: sound_setup_def)
  obtain out where out: "cmdVerifyAudit ?w d (path # ?flags) = (out, 0)" "tip = tipFromVerifyOutput (cc_lower c) out"
    using assms(1) dom by (auto simp: VerifyChain_def Let_def split: prod.splits if_splits)
  obtain va where va: "parseVerifyArgs ?flags = Inr va"
    using out(1) by (cases "parseVerifyArgs ?flags") (auto simp: cmdVerifyAudit_def fatal_def)
  obtain key src where key: "resolveAuditPub ?w d (va_rest va) = Inr (key, src)"
    using out(1) va by (cases "resolveAuditPub ?w d (va_rest va)") (auto simp: cmdVerifyAudit_def fatal_def)
  obtain h where h: "parse_since ?w (va_since va) = Inr h"
    using out(1) va key by (cases "parse_since ?w (va_since va)") (auto simp: cmdVerifyAudit_def fatal_def Let_def)
  obtain segs live where f: "chain_files d (path_base path) = (segs, live)" by fastforce
  have dm: "chainDomain (vw_getenv ?w ''BULKHEAD_AUDIT_DOMAIN'') path (path_base path) = domain" using dom by (simp add: chainDomain_def)
  have kw: "keyed ?w key = keyed (cc_world c) key" by (simp add: keyed_def)
  obtain v where v: "verifySegmentedChain (keyed (cc_world c) key) domain h segs live = Inr v"
    using out(1) va key h f dm kw by (cases "verifySegmentedChain (keyed (cc_world c) key) domain h segs live")
      (auto simp: cmdVerifyAudit_def fatal_def Let_def)
  let ?tip = "hex_encode (headOrZero (cv_tip v))"
  have o: "out = ok_line (cv_count v) path src domain ?tip @ tip_line ?tip (va_expectTip va) @ since_line h v"
    "cmd_verdict h (va_expectTip va) (verifySegmentedChain (keyed (cc_world c) key) domain h segs live)"
    using out(1) va key h f v dm kw by (auto simp: cmdVerifyAudit_def Let_def split: if_splits)
  note pf = parse_flags [OF va]
  have "no_tip src" using resolveAuditPub_src [OF key] pf assms(2) by (auto simp: sound_setup_def)
  then have tip: "tip = ?tip"
    using assms(2) headOrZero_length [OF v] sha by (simp add: out(2) o(1) sound_setup_def keyed_simps tip_read_back)
  have "h = Some t" if "since = hex_encode t" "t \<noteq> []" for t
  proof -
    have ne: "since \<noteq> ''''" using that length_hex_encode [of t] by auto
    moreover have "\<not> hasPrefix since ''@''"
      using ne hex_decode_encode [of t] that(1) by (cases "hex_encode t" rule: hex_decode.cases) (auto simp: hasPrefix_simps hex_val_def)
    ultimately show ?thesis
      using h pf that by (auto simp: parse_since_def trimSpace_hex split: if_splits)
  qed
  moreover have "expect = '''' \<or> tip = to_lower (trimSpace expect)"
    using o(2) pf v tip by (auto simp: cmd_verdict_def Let_def headOrZero_def split: option.splits)
  moreover have "accepted c d (path_base path) domain h tip"
  proof -
    have "cmd_verdict h '''' (verifySegmentedChain (keyed (cc_world c) key) domain h segs live)"
      using o(2) v by (simp add: cmd_verdict_def Let_def)
    then show ?thesis unfolding accepted_def f prod.case Let_def using v tip by blast
  qed
  ultimately show ?thesis by blast
qed

section \<open>Pins\<close>

text \<open>
  What the monitor needs of a verifier: a tip it returns is no empty text, and a state of the
  chain that it accepts with that tip as the anchor is later than the one the tip came from.
  \<open>witness_run\<close> is the monitor's use of it: the pin moves when a check passes, and only then.
\<close>

fun witness_run :: "('s \<Rightarrow> string \<Rightarrow> string \<Rightarrow> string + string) \<Rightarrow> string \<Rightarrow> ('s \<times> string) list \<Rightarrow> 's list" where
  "witness_run verify pin [] = []"
| "witness_run verify pin ((s, expect) # obs) =
     (case verify s pin expect of
        Inl e \<Rightarrow> witness_run verify pin obs
      | Inr tip \<Rightarrow> s # witness_run verify tip obs)"

locale head_witness =
  fixes verify :: "'s \<Rightarrow> string \<Rightarrow> string \<Rightarrow> string + string"
    and later :: "'s \<Rightarrow> 's \<Rightarrow> bool"
  assumes tip_anchors: "verify s since expect = Inr tip \<Longrightarrow> verify s' tip expect' = Inr tip' \<Longrightarrow> later s s'"
begin

lemma anchored_run:
  "verify s since expect = Inr tip \<Longrightarrow> successively later (s # witness_run verify tip obs)"
proof (induction obs arbitrary: s since expect tip)
  case (Cons o' obs)
  obtain s' e' where o': "o' = (s', e')" by (cases o')
  show ?case
  proof (cases "verify s' tip e'")
    case (Inl e)
    then show ?thesis using Cons by (simp add: o')
  next
    case (Inr tip')
    then show ?thesis using Cons.IH [OF Inr] tip_anchors [OF Cons.prems Inr] by (simp add: o')
  qed
qed simp

lemma witnessed_later: "successively later (witness_run verify pin obs)"
proof (induction obs arbitrary: pin)
  case (Cons o' obs)
  obtain s' e' where o': "o' = (s', e')" by (cases o')
  show ?case
  proof (cases "verify s' pin e'")
    case (Inr tip')
    then show ?thesis using anchored_run [OF Inr] by (simp add: o')
  qed (use Cons in \<open>simp add: o'\<close>)
qed simp

end

text \<open>The retained records of a fetched chain, and when one state of it is later than another.\<close>

definition retained :: "collector_cli \<Rightarrow> string \<Rightarrow> dir \<Rightarrow> audit_record list" where
  "retained c base d = (let (segs, live) = chain_files d base in all_records (vw_audit (cc_world c)) segs live)"

definition later_state :: "collector_cli \<Rightarrow> string \<Rightarrow> string \<Rightarrow> dir \<Rightarrow> dir \<Rightarrow> bool" where
  "later_state c base domain d d' \<longleftrightarrow>
     continues (retained c base d) (retained c base d') \<or>
     sha_broken (vw_audit (cc_world c)) (set (messages domain (retained c base d)) \<union> set (messages domain (retained c base d')))"

lemma accepted_later:
  assumes "accepted c d base domain h tip" "accepted c d' base domain (Some t) tip'" "tip = hex_encode t"
    and "length domain < 2 ^ 63" "\<forall>r\<in>set (retained c base d) \<union> set (retained c base d'). sized r"
  shows "later_state c base domain d d'"
proof -
  let ?w = "cc_world c"
  obtain segs live where f: "chain_files d base = (segs, live)" by fastforce
  obtain segs' live' where f': "chain_files d' base = (segs', live')" by fastforce
  obtain k v where v: "verifySegmentedChain (keyed ?w k) domain h segs live = Inr v" "tip = hex_encode (headOrZero (cv_tip v))"
    using assms(1) by (auto simp: accepted_def f)
  obtain k' where k': "cmd_verdict (Some t) '''' (verifySegmentedChain (keyed ?w k') domain (Some t) segs' live')"
    using assms(2) by (auto simp: accepted_def f')
  have t: "t = headOrZero (cv_tip v)" using v(2) assms(3) hex_decode_encode by (metis option.inject)
  have "keyless (keyed ?w k') = keyless (keyed ?w k)" by (simp add: keyless_def keyed_def)
  from verdict_continues [OF v(1) this k' [unfolded t] refl refl assms(4)] show ?thesis
    using assms(5) by (simp add: later_state_def retained_def f f' keyed_simps)
qed

text \<open>The states that are compared come with the path at which they were staged.\<close>

definition checked_later :: "collector_cli \<Rightarrow> string \<Rightarrow> string \<Rightarrow> string \<Rightarrow> string \<times> dir \<Rightarrow> string \<times> dir \<Rightarrow> bool" where
  "checked_later c base pub domain s s' \<longleftrightarrow>
     (sound_setup c (fst s) pub domain \<and> sound_setup c (fst s') pub domain \<and> path_base (fst s) = base \<and> path_base (fst s') = base \<and>
      (\<forall>r\<in>set (retained c base (snd s)) \<union> set (retained c base (snd s')). sized r) \<longrightarrow>
      later_state c base domain (snd s) (snd s'))"

interpretation off_box: head_witness "\<lambda>s. VerifyChain c (snd s) (fst s) pub domain" "checked_later c base pub domain"
  for c base pub domain
proof
  fix s s' :: "string \<times> dir" and since expect tip expect' tip'
  assume v: "VerifyChain c (snd s) (fst s) pub domain since expect = Inr tip"
    "VerifyChain c (snd s') (fst s') pub domain tip expect' = Inr tip'"
  show "checked_later c base pub domain s s'"
    unfolding checked_later_def
  proof (intro impI, elim conjE)
    assume ok: "sound_setup c (fst s) pub domain" "sound_setup c (fst s') pub domain"
      and b: "path_base (fst s) = base" "path_base (fst s') = base"
      and sz: "\<forall>r\<in>set (retained c base (snd s)) \<union> set (retained c base (snd s')). sized r"
    obtain h where h: "accepted c (snd s) base domain h tip" using VerifyChain_accepted [OF v(1) ok(1)] b by blast
    then obtain t where t: "tip = hex_encode t" "length t = 32"
      using headOrZero_length ok(1) by (fastforce simp: accepted_def sound_setup_def keyed_simps split: prod.splits)
    then have "t \<noteq> []" by auto
    then have "accepted c (snd s') base domain (Some t) tip'" using VerifyChain_accepted [OF v(2) ok(2)] t(1) b(2) by auto
    then show "later_state c base domain (snd s) (snd s')"
      using accepted_later [OF h _ t(1) _ sz] ok(1) by (simp add: sound_setup_def)
  qed
qed

section \<open>Runs of polls\<close>

text \<open>
  The chain of a domain is touched by its own check only. A consistent snapshot of a chain in a
  poll, and the head the quote bound for it.
\<close>

definition chain_dir :: "(string \<Rightarrow> string) \<Rightarrow> poll \<Rightarrow> Chain \<Rightarrow> string" where
  "chain_dir unicode po ch = Join2 (po_workDir po) (sanitize unicode (ch_Domain ch))"

definition chain_path :: "(string \<Rightarrow> string) \<Rightarrow> poll \<Rightarrow> Chain \<Rightarrow> string" where
  "chain_path unicode po ch = Join2 (chain_dir unicode po ch) (path_base (ch_RemotePath ch))"

definition snapshot :: "(string \<Rightarrow> string) \<Rightarrow> Device \<Rightarrow> poll \<Rightarrow> Chain \<Rightarrow> dir option" where
  "snapshot unicode dev po ch =
     (if po_mkdir po (chain_dir unicode po ch) \<noteq> None then None
      else case fetchChainToDir po dev ch (chain_dir unicode po ch) of
             Inr (records, False, files) \<Rightarrow> Some files
           | _ \<Rightarrow> None)"

definition quoted :: "Config \<Rightarrow> Device \<Rightarrow> verifier \<Rightarrow> poll \<Rightarrow> deviceState \<Rightarrow> Chain \<Rightarrow> string" where
  "quoted cfg dev v po st ch =
     (let (quoteOK, reachable, env, as, st') = attestPoll cfg dev v po (st\<lparr>ds_Metrics := no_metrics\<rparr>)
      in if quoteOK then quote_head env (ch_HeadField ch) else '''')"

lemma set_chain_simps [simp]:
  "ds_Chains (set_chain d cs st) = (ds_Chains st)(d \<mapsto> cs)" "ds_Misses (set_chain d cs st) = ds_Misses st"
  "ds_AKPinHex (set_chain d cs st) = ds_AKPinHex st" "ds_Metrics (set_chain d cs st) = ds_Metrics st"
  "ds_Chains (set_metric d m st) = ds_Chains st" "ds_Misses (set_metric d m st) = ds_Misses st"
  "ds_AKPinHex (set_metric d m st) = ds_AKPinHex st" "pm_Chains (ds_Metrics (set_metric d m st)) = (pm_Chains (ds_Metrics st))(d \<mapsto> m)"
  by (simp_all add: set_chain_def set_metric_def)

lemma chain_state_cong: "ds_Chains st d = ds_Chains st' d \<Longrightarrow> chain_state st d = chain_state st' d"
  by (simp add: chain_state_def)

lemma witness_chain_other:
  assumes "witness_chain unicode dev v po q r env ch st = (as, st')"
  shows "(d \<noteq> ch_Domain ch \<longrightarrow> ds_Chains st' d = ds_Chains st d \<and> pm_Chains (ds_Metrics st') d = pm_Chains (ds_Metrics st) d) \<and>
    ds_Misses st' = ds_Misses st \<and> ds_AKPinHex st' = ds_AKPinHex st"
  using assms by (auto simp: witness_chain_def Let_def split: option.splits sum.splits prod.splits bool.splits if_splits)

text \<open>The last element of a path joined from a directory and a plain name is that name.\<close>

definition plain_name :: "string \<Rightarrow> bool" where
  "plain_name b \<longleftrightarrow> b \<notin> {'''', ''.'', ''..''} \<and> CHR ''/'' \<notin> set b"

lemma split_on_concat: "split_on c (s @ c # t) = split_on c s @ split_on c t"
  by (induction s) (auto split: list.splits)

lemma clean_comps_plain: "plain_name b \<Longrightarrow> clean_comps rooted acc (cs @ [b]) = clean_comps rooted acc cs @ [b]"
  by (induction rooted acc cs rule: clean_comps.induct) (auto simp: plain_name_def split: list.splits)

lemma join_with_snoc: "join_with sep (xs @ [y]) = (if xs = [] then y else join_with sep xs @ sep @ y)"
  by (induction sep xs rule: join_with.induct) auto

lemma path_base_end: "plain_name b \<Longrightarrow> path_base (x @ CHR ''/'' # b) = b" "plain_name b \<Longrightarrow> path_base b = b"
proof -
  assume b: "plain_name b"
  then obtain b' c where c: "b = b' @ [c]" "c \<noteq> CHR ''/''" by (cases b rule: rev_cases) (auto simp: plain_name_def)
  have *: "rev (dropWhile (\<lambda>c. c = CHR ''/'') (rev (y @ b))) = y @ b" for y by (simp add: c)
  show "path_base (x @ CHR ''/'' # b) = b"
    using * [of "x @ ''/''"] b by (simp add: path_base_def split_on_concat split_on_no_sep plain_name_def)
  show "path_base b = b"
    using * [of "[]"] b by (simp add: path_base_def split_on_no_sep plain_name_def)
qed

lemma path_base_Join2: "a \<noteq> '''' \<Longrightarrow> plain_name b \<Longrightarrow> path_base (Join2 a b) = b \<and> Join2 a b \<noteq> ''''"
proof -
  assume a: "a \<noteq> ''''" and b: "plain_name b"
  have "split_on CHR ''/'' (a @ ''/'' @ b) = split_on CHR ''/'' a @ [b]"
    using b by (simp add: split_on_concat split_on_no_sep plain_name_def)
  moreover define cs where "cs = clean_comps (hd a = CHR ''/'') [] (split_on CHR ''/'' a)"
  moreover have "hd (a @ ''/'' @ b) = hd a" using a by simp
  ultimately have "Join2 a b = (if hd a = CHR ''/'' then ''/'' else '''') @ (if cs = [] then b else join_with ''/'' cs @ CHR ''/'' # b)"
    using a b by (auto simp: Join2_def Clean_def clean_comps_plain join_with_snoc Let_def plain_name_def)
  then show ?thesis
    using path_base_end [OF b] b path_base_end(1) [OF b, of "CHR ''/'' # join_with ''/'' cs"] path_base_end(1) [OF b, of "[]"]
    by (auto simp: plain_name_def)
qed

lemma Join2_nonempty: "a \<noteq> '''' \<Longrightarrow> Join2 a b \<noteq> ''''"
  by (auto simp: Join2_def Clean_def Let_def)

lemma witnessChains_at:
  assumes "witnessChains unicode dev v po q r env chs st = (as, st')" "distinct (map ch_Domain chs)" "ch \<in> set chs"
  shows "\<exists>st1 as1 st2. witness_chain unicode dev v po q r env ch st1 = (as1, st2) \<and>
    ds_Chains st1 (ch_Domain ch) = ds_Chains st (ch_Domain ch) \<and> ds_Chains st' (ch_Domain ch) = ds_Chains st2 (ch_Domain ch) \<and>
    pm_Chains (ds_Metrics st1) (ch_Domain ch) = pm_Chains (ds_Metrics st) (ch_Domain ch) \<and>
    pm_Chains (ds_Metrics st') (ch_Domain ch) = pm_Chains (ds_Metrics st2) (ch_Domain ch) \<and> set as1 \<subseteq> set as"
  using assms
proof (induction chs arbitrary: st as)
  case (Cons c chs)
  obtain as1 st1 where w: "witness_chain unicode dev v po q r env c st = (as1, st1)" by fastforce
  obtain bs where ws: "witnessChains unicode dev v po q r env chs st1 = (bs, st')" "as = as1 @ bs"
    using Cons.prems(1) w by (auto split: prod.splits)
  show ?case
  proof (cases "ch = c")
    case True
    have "ds_Chains st' (ch_Domain c) = ds_Chains st1 (ch_Domain c) \<and>
        pm_Chains (ds_Metrics st') (ch_Domain c) = pm_Chains (ds_Metrics st1) (ch_Domain c)"
      using ws(1) Cons.prems(2)
    proof (induction chs arbitrary: st1 bs)
      case (Cons c' chs)
      obtain as2 st2 where w2: "witness_chain unicode dev v po q r env c' st1 = (as2, st2)" by fastforce
      obtain cs where ws2: "witnessChains unicode dev v po q r env chs st2 = (cs, st')"
        using Cons.prems(1) w2 by (auto split: prod.splits)
      show ?case using Cons.IH [OF ws2] witness_chain_other [OF w2, of "ch_Domain c"] Cons.prems(2) by auto
    qed simp
    then show ?thesis using w ws(2) True by (intro exI [of _ st] exI [of _ as1] exI [of _ st1]) auto
  next
    case False
    then have i: "ch \<in> set chs" using Cons.prems(3) by simp
    moreover have "ch_Domain ch \<in> set (map ch_Domain chs)" "ch_Domain c \<notin> set (map ch_Domain chs)"
      using i Cons.prems(2) by simp_all
    ultimately have "ch_Domain ch \<noteq> ch_Domain c" by metis
    moreover have "distinct (map ch_Domain chs)" using Cons.prems(2) by simp
    then obtain sx ax sy where "witness_chain unicode dev v po q r env ch sx = (ax, sy)"
      "ds_Chains sx (ch_Domain ch) = ds_Chains st1 (ch_Domain ch)" "ds_Chains st' (ch_Domain ch) = ds_Chains sy (ch_Domain ch)"
      "pm_Chains (ds_Metrics sx) (ch_Domain ch) = pm_Chains (ds_Metrics st1) (ch_Domain ch)"
      "pm_Chains (ds_Metrics st') (ch_Domain ch) = pm_Chains (ds_Metrics sy) (ch_Domain ch)" "set ax \<subseteq> set bs"
      using Cons.IH [OF ws(1) _ i] by blast
    ultimately show ?thesis
      using witness_chain_other [OF w, of "ch_Domain ch"] ws(2)
      by (intro exI [of _ sx] exI [of _ ax] exI [of _ sy]) auto
  qed
qed simp

lemma witnessChains_other:
  assumes "witnessChains unicode dev v po q r env chs st = (as, st')"
  shows "ds_Misses st' = ds_Misses st \<and> ds_AKPinHex st' = ds_AKPinHex st"
  using assms
proof (induction chs arbitrary: st as)
  case (Cons c chs)
  obtain as1 st1 where w: "witness_chain unicode dev v po q r env c st = (as1, st1)" by fastforce
  show ?case using Cons w witness_chain_other [OF w] by (auto split: prod.splits)
qed simp

lemma attestPoll_chains:
  "attestPoll cfg dev v po st = (q, r, env, as, st') \<Longrightarrow>
   ds_Chains st' = ds_Chains st \<and> pm_Chains (ds_Metrics st') = pm_Chains (ds_Metrics st)"
  by (auto simp: attestPoll_def Let_def split: sum.splits list.splits option.splits prod.splits if_splits)

definition passed :: "deviceState \<Rightarrow> string \<Rightarrow> bool" where
  "passed st d \<longleftrightarrow> (case pm_Chains (ds_Metrics st) d of Some m \<Rightarrow> cm_VerifyOK m = 1 | None \<Rightarrow> False)"

text \<open>What a poll makes of one chain.\<close>

definition chain_effect :: "deviceState \<Rightarrow> string \<Rightarrow> string \<Rightarrow> Alert list \<Rightarrow> (string + string) option \<Rightarrow> bool" where
  "chain_effect st' d pin as res \<longleftrightarrow>
     (case res of
        None \<Rightarrow> cs_PinnedHead (chain_state st' d) = pin \<and> \<not> passed st' d
      | Some (Inl e) \<Rightarrow>
          cs_PinnedHead (chain_state st' d) = pin \<and> \<not> passed st' d \<and>
          (\<exists>a\<in>set as. aw_Kind a = ''chain-rewind-or-fail'' \<and> aw_Domain a = d)
      | Some (Inr tip) \<Rightarrow> cs_PinnedHead (chain_state st' d) = tip \<and> passed st' d)"

lemma clear_races_pin:
  "cs_PinnedHead (chain_state (if b then set_chain d ((chain_state st d)\<lparr>cs_ConsecutiveRaces := 0\<rparr>) st else st) d) =
   cs_PinnedHead (chain_state st d)"
  by (simp add: chain_state_def)

lemma clear_races_metrics:
  "ds_Metrics (if b then set_chain d cs st else st) = ds_Metrics st"
  by simp

lemma witness_chain_effect:
  assumes w: "witness_chain unicode dev v po q r env ch st = (as, st')"
    and m: "pm_Chains (ds_Metrics st) (ch_Domain ch) = None"
  shows "chain_effect st' (ch_Domain ch) (cs_PinnedHead (chain_state st (ch_Domain ch))) as
    (map_option (\<lambda>files. vf_VerifyChain v files (chain_path unicode po ch) (dv_AuditPub dev) (ch_Domain ch)
       (cs_PinnedHead (chain_state st (ch_Domain ch))) (if q then quote_head env (ch_HeadField ch) else ''''))
       (snapshot unicode dev po ch))"
proof -
  let ?d = "ch_Domain ch" and ?dir = "chain_dir unicode po ch"
  note w' = w [unfolded witness_chain_def Let_def, folded chain_dir_def, folded chain_path_def]
  show ?thesis
  proof (cases "po_mkdir po ?dir")
    case (Some e)
    then show ?thesis using w' m by (auto simp: snapshot_def chain_effect_def passed_def)
  next
    case None
    note mk = this
    show ?thesis
    proof (cases "fetchChainToDir po dev ch ?dir")
      case (Inl e)
      then show ?thesis using w' m mk by (auto simp: snapshot_def chain_effect_def passed_def)
    next
      case (Inr x)
      obtain records raced files where x: "x = (records, raced, files)" by (cases x)
      show ?thesis
      proof (cases raced)
        case True
        then have "st' = set_chain ?d ((chain_state st ?d)\<lparr>cs_ConsecutiveRaces := cs_ConsecutiveRaces (chain_state st ?d) + 1\<rparr>) st"
          using w' Inr x mk by simp
        then show ?thesis using True Inr x m mk by (simp add: snapshot_def chain_effect_def passed_def chain_state_def)
      next
        case False
        define st1 where "st1 = (if cs_ConsecutiveRaces (chain_state st ?d) \<noteq> 0
          then set_chain ?d ((chain_state st ?d)\<lparr>cs_ConsecutiveRaces := 0\<rparr>) st else st)"
        have p: "cs_PinnedHead (chain_state st1 ?d) = cs_PinnedHead (chain_state st ?d)"
          unfolding st1_def by (rule clear_races_pin)
        have sn: "snapshot unicode dev po ch = Some files" using False Inr x mk by (simp add: snapshot_def)
        show ?thesis
        proof (cases "vf_VerifyChain v files (chain_path unicode po ch) (dv_AuditPub dev) ?d
            (cs_PinnedHead (chain_state st ?d)) (if q then quote_head env (ch_HeadField ch) else '''')")
          case (Inl e)
          then have s: "st' = set_metric ?d \<lparr>cm_Records = records, cm_Witnessed = 1, cm_VerifyOK = 0\<rparr> st1"
            and a: "\<exists>a\<in>set as. aw_Kind a = ''chain-rewind-or-fail'' \<and> aw_Domain a = ?d"
            using w' Inr x mk False by (auto simp: st1_def [symmetric] p)
          have "chain_state st' ?d = chain_state st1 ?d" by (simp add: s chain_state_def)
          then show ?thesis using Inl a p sn by (auto simp: chain_effect_def passed_def s)
        next
          case (Inr tip)
          then have s: "st' = set_chain ?d \<lparr>cs_PinnedHead = tip, cs_LastUpdate = po_now po, cs_ConsecutiveRaces = 0\<rparr>
              (set_metric ?d \<lparr>cm_Records = records, cm_Witnessed = 1, cm_VerifyOK = 1\<rparr> st1)"
            using w' \<open>fetchChainToDir po dev ch ?dir = Inr x\<close> x mk False by (simp add: st1_def [symmetric] p)
          then show ?thesis using Inr sn by (simp add: chain_effect_def passed_def chain_state_def)
        qed
      qed
    qed
  qed
qed

lemma chain_effect_cong:
  assumes "chain_effect st2 d pin as1 res" "ds_Chains st' d = ds_Chains st2 d"
    "pm_Chains (ds_Metrics st') d = pm_Chains (ds_Metrics st2) d" "set as1 \<subseteq> set as"
  shows "chain_effect st' d pin as res"
  using assms by (auto simp: chain_effect_def chain_state_def passed_def split: option.splits sum.splits)

lemma pollDevice_chain:
  assumes "pollDevice unicode cfg dev v po st = (as, st')" "distinct (map ch_Domain (dv_Chains dev))" "ch \<in> set (dv_Chains dev)"
  shows "chain_effect st' (ch_Domain ch) (cs_PinnedHead (chain_state st (ch_Domain ch))) as
    (map_option (\<lambda>files. vf_VerifyChain v files (chain_path unicode po ch) (dv_AuditPub dev) (ch_Domain ch)
       (cs_PinnedHead (chain_state st (ch_Domain ch))) (quoted cfg dev v po st ch)) (snapshot unicode dev po ch))"
proof -
  let ?d = "ch_Domain ch" and ?st = "st\<lparr>ds_Metrics := no_metrics\<rparr>"
  obtain q r env as0 sta where a: "attestPoll cfg dev v po ?st = (q, r, env, as0, sta)" by (metis prod_cases5)
  obtain bs where w: "witnessChains unicode dev v po q r env (dv_Chains dev) sta = (bs, st')" "as = as0 @ bs"
    using assms(1) a by (auto simp: pollDevice_def split: prod.splits)
  have quo: "quoted cfg dev v po st ch = (if q then quote_head env (ch_HeadField ch) else '''')"
    by (simp add: quoted_def a)
  note c = attestPoll_chains [OF a]
  obtain st1 as1 st2 where s: "witness_chain unicode dev v po q r env ch st1 = (as1, st2)"
    "ds_Chains st1 ?d = ds_Chains sta ?d" "ds_Chains st' ?d = ds_Chains st2 ?d"
    "pm_Chains (ds_Metrics st1) ?d = pm_Chains (ds_Metrics sta) ?d"
    "pm_Chains (ds_Metrics st') ?d = pm_Chains (ds_Metrics st2) ?d" "set as1 \<subseteq> set bs"
    using witnessChains_at [OF w(1) assms(2,3)] by blast
  have pin: "cs_PinnedHead (chain_state st1 ?d) = cs_PinnedHead (chain_state st ?d)" using s(2) c by (simp add: chain_state_def)
  have m1: "pm_Chains (ds_Metrics st1) ?d = None" using s(4) c by (simp add: no_metrics_def)
  have "set as1 \<subseteq> set as" using s(6) w(2) by auto
  from chain_effect_cong [OF witness_chain_effect [OF s(1) m1] s(3,5) this] show ?thesis
    unfolding pin quo .
qed

section \<open>Histories\<close>

text \<open>A run of polls of one device, with the alerts and the state after each.\<close>

fun poll_run ::
  "(string \<Rightarrow> string) \<Rightarrow> Config \<Rightarrow> Device \<Rightarrow> (poll \<Rightarrow> verifier) \<Rightarrow> poll list \<Rightarrow> deviceState \<Rightarrow> (poll \<times> Alert list \<times> deviceState) list" where
  "poll_run unicode cfg dev V [] st = []"
| "poll_run unicode cfg dev V (po # pos) st =
     (let (as, st') = pollDevice unicode cfg dev (V po) po st
      in (po, as, st') # poll_run unicode cfg dev V pos st')"

text \<open>The fetched states of a chain that passed their check, with the paths they were staged at.\<close>

definition verified_states ::
  "(string \<Rightarrow> string) \<Rightarrow> Device \<Rightarrow> Chain \<Rightarrow> (poll \<times> Alert list \<times> deviceState) list \<Rightarrow> (string \<times> dir) list" where
  "verified_states unicode dev ch run =
     List.map_filter
       (\<lambda>(po, as, st). if passed st (ch_Domain ch)
          then map_option (Pair (chain_path unicode po ch)) (snapshot unicode dev po ch) else None) run"

definition live_verifier :: "collector_cli \<Rightarrow> poll \<Rightarrow> verifier" where
  "live_verifier c po = collectorVerifier c (Join2 (po_workDir po) ''env.json'')"

lemma verified_states_witness:
  assumes "distinct (map ch_Domain (dv_Chains dev))" "ch \<in> set (dv_Chains dev)"
  shows "\<exists>obs. verified_states unicode dev ch (poll_run unicode cfg dev (live_verifier c) polls st) =
    witness_run (\<lambda>s. VerifyChain c (snd s) (fst s) (dv_AuditPub dev) (ch_Domain ch))
      (cs_PinnedHead (chain_state st (ch_Domain ch))) obs"
proof (induction polls arbitrary: st)
  case Nil
  show ?case by (intro exI [of _ "[]"]) (simp add: verified_states_def List.map_filter_def)
next
  case (Cons po pos)
  let ?d = "ch_Domain ch" and ?v = "live_verifier c po"
  let ?pin = "cs_PinnedHead (chain_state st ?d)" and ?q = "quoted cfg dev ?v po st ch"
  obtain as st' where p: "pollDevice unicode cfg dev ?v po st = (as, st')" by fastforce
  obtain obs where obs: "verified_states unicode dev ch (poll_run unicode cfg dev (live_verifier c) pos st') =
      witness_run (\<lambda>s. VerifyChain c (snd s) (fst s) (dv_AuditPub dev) ?d) (cs_PinnedHead (chain_state st' ?d)) obs"
    using Cons by blast
  have vf: "vf_VerifyChain ?v = VerifyChain c" by (simp add: live_verifier_def collectorVerifier_def)
  note e = pollDevice_chain [OF p assms, unfolded vf]
  have split: "verified_states unicode dev ch (poll_run unicode cfg dev (live_verifier c) (po # pos) st) =
      (if passed st' ?d then (case snapshot unicode dev po ch of None \<Rightarrow> [] | Some f \<Rightarrow> [(chain_path unicode po ch, f)]) else []) @
      verified_states unicode dev ch (poll_run unicode cfg dev (live_verifier c) pos st')"
    by (simp add: p verified_states_def List.map_filter_simps split: option.splits)
  show ?case
  proof (cases "snapshot unicode dev po ch")
    case None
    then have "cs_PinnedHead (chain_state st' ?d) = ?pin" "\<not> passed st' ?d" using e by (simp_all add: chain_effect_def)
    then show ?thesis using obs split by auto
  next
    case (Some f)
    show ?thesis
    proof (cases "VerifyChain c f (chain_path unicode po ch) (dv_AuditPub dev) ?d ?pin ?q")
      case (Inl x)
      then have "cs_PinnedHead (chain_state st' ?d) = ?pin" "\<not> passed st' ?d" using e Some by (simp_all add: chain_effect_def)
      then show ?thesis using obs split by auto
    next
      case (Inr tip)
      then have "cs_PinnedHead (chain_state st' ?d) = tip" "passed st' ?d" using e Some by (simp_all add: chain_effect_def)
      then have "verified_states unicode dev ch (poll_run unicode cfg dev (live_verifier c) (po # pos) st) =
          witness_run (\<lambda>s. VerifyChain c (snd s) (fst s) (dv_AuditPub dev) ?d) ?pin (((chain_path unicode po ch, f), ?q) # obs)"
        using obs split Some Inr by simp
      then show ?thesis by blast
    qed
  qed
qed

text \<open>
  C5: what the monitor has witnessed stays. Take any polls of a device, whatever it answers, in
  which the checks of a chain that passed found the states of the chain given. Then each of these
  states continues the one before: its last record is still there, and everything kept on both
  sides before that record is the same. Otherwise two of the messages that were hashed for them
  collide under SHA-256. In particular no record the monitor has seen as the head of a chain is
  ever truncated or replaced without an alert.
\<close>

theorem witnessed_history_continues:
  assumes "distinct (map ch_Domain (dv_Chains dev))" "ch \<in> set (dv_Chains dev)"
    and base: "base = path_base (ch_RemotePath ch)" "plain_name base"
    and conf: "\<forall>po\<in>set polls. po_workDir po \<noteq> '''' \<and> sound_setup c (chain_path unicode po ch) (dv_AuditPub dev) (ch_Domain ch)"
    and size: "\<forall>po\<in>set polls. \<forall>files. snapshot unicode dev po ch = Some files \<longrightarrow> (\<forall>r\<in>set (retained c base files). sized r)"
  shows "successively (later_state c base (ch_Domain ch))
    (map snd (verified_states unicode dev ch (poll_run unicode cfg dev (live_verifier c) polls st)))"
proof -
  let ?vs = "verified_states unicode dev ch (poll_run unicode cfg dev (live_verifier c) polls st)"
  have polls: "fst ` set (poll_run unicode cfg dev V ps s) \<subseteq> set ps" for V ps s
    by (induction ps arbitrary: s) (auto simp: split_beta)
  have ok: "sound_setup c (fst x) (dv_AuditPub dev) (ch_Domain ch) \<and> path_base (fst x) = base \<and>
      (\<forall>r\<in>set (retained c base (snd x)). sized r)" if "x \<in> set ?vs" for x
  proof -
    from that obtain po as s where m: "(po, as, s) \<in> set (poll_run unicode cfg dev (live_verifier c) polls st)"
      "fst x = chain_path unicode po ch" "snapshot unicode dev po ch = Some (snd x)"
      by (auto simp: verified_states_def List.map_filter_def split: if_splits)
    have po: "po \<in> set polls" "fst x = chain_path unicode po ch" "snapshot unicode dev po ch = Some (snd x)"
      using m polls [of "live_verifier c" polls st] imageI [OF m(1), of fst] by auto
    then have "po_workDir po \<noteq> ''''" using conf by blast
    then have "path_base (fst x) = base"
      using path_base_Join2 [OF Join2_nonempty base(2)] po(2) base(1) by (simp add: chain_path_def chain_dir_def)
    then show ?thesis using po conf size by auto
  qed
  obtain obs where "?vs = witness_run (\<lambda>s. VerifyChain c (snd s) (fst s) (dv_AuditPub dev) (ch_Domain ch))
      (cs_PinnedHead (chain_state st (ch_Domain ch))) obs"
    using verified_states_witness [OF assms(1,2)] by blast
  then have "successively (checked_later c base (dv_AuditPub dev) (ch_Domain ch)) ?vs"
    by (simp only: off_box.witnessed_later)
  then have "successively (\<lambda>x y. later_state c base (ch_Domain ch) (snd x) (snd y)) ?vs"
    by (rule successively_mono) (use ok in \<open>auto simp: checked_later_def\<close>)
  then show ?thesis by (simp add: successively_map)
qed

section \<open>The witness cannot be evaded\<close>

lemma attestPoll_quiet:
  assumes "attestPoll cfg dev v po st = (q, r, env, [], st')"
  shows "q \<and> r \<and> ds_Misses st' = 0 \<or>
    \<not> q \<and> \<not> r \<and> ds_Misses st' = ds_Misses st + 1 \<and> ds_Misses st' < cg_MissedThreshold cfg"
  using assms
  by (auto simp: attestPoll_def Let_def split: sum.splits list.splits option.splits prod.splits if_splits)

lemma witness_chain_quiet:
  assumes w: "witness_chain unicode dev v po q r env ch st = ([], st')" and np: "\<not> passed st' (ch_Domain ch)"
  defines "races s \<equiv> cs_ConsecutiveRaces (chain_state s (ch_Domain ch))"
  shows "races st' = races st + 1 \<and> races st' < maxConsecutiveRaces \<or> \<not> r \<and> races st' = races st"
proof -
  let ?d = "ch_Domain ch" and ?dir = "chain_dir unicode po ch"
  note w' = w [unfolded witness_chain_def Let_def, folded chain_dir_def, folded chain_path_def]
  have mk: "po_mkdir po ?dir = None" using w' by (auto split: option.splits)
  show ?thesis
  proof (cases "fetchChainToDir po dev ch ?dir")
    case (Inl e)
    then show ?thesis using w' mk by (auto split: if_splits)
  next
    case (Inr x)
    obtain records raced files where x: "x = (records, raced, files)" by (cases x)
    show ?thesis
    proof (cases raced)
      case True
      then have "st' = set_chain ?d ((chain_state st ?d)\<lparr>cs_ConsecutiveRaces := cs_ConsecutiveRaces (chain_state st ?d) + 1\<rparr>) st"
        "cs_ConsecutiveRaces (chain_state st ?d) + 1 < maxConsecutiveRaces"
        using w' Inr x mk by (simp_all split: if_splits)
      then show ?thesis by (simp add: races_def chain_state_def)
    next
      case False
      then have "passed st' ?d" using w' Inr x mk by (auto simp: passed_def split: sum.splits)
      then show ?thesis using np by simp
    qed
  qed
qed

text \<open>
  How far a device has come with polls that neither raise an alert nor pass the check of a
  chain: the count of races and, below it, the count of silent polls.
\<close>

definition evasion :: "Config \<Rightarrow> string \<Rightarrow> deviceState \<Rightarrow> int" where
  "evasion cfg d st =
     min (cs_ConsecutiveRaces (chain_state st d)) 2 * cg_MissedThreshold cfg +
     min (ds_Misses st) (cg_MissedThreshold cfg - 1)"

lemma quiet_poll_advances:
  assumes "pollDevice unicode cfg dev v po st = ([], st')" "\<not> passed st' (ch_Domain ch)"
    and "distinct (map ch_Domain (dv_Chains dev))" "ch \<in> set (dv_Chains dev)" "1 \<le> cg_MissedThreshold cfg"
    and "0 \<le> ds_Misses st" "0 \<le> cs_ConsecutiveRaces (chain_state st (ch_Domain ch))"
  shows "evasion cfg (ch_Domain ch) st + 1 \<le> evasion cfg (ch_Domain ch) st'
    \<and> 0 \<le> ds_Misses st' \<and> 0 \<le> cs_ConsecutiveRaces (chain_state st' (ch_Domain ch))"
proof -
  let ?d = "ch_Domain ch" and ?st = "st\<lparr>ds_Metrics := no_metrics\<rparr>" and ?T = "cg_MissedThreshold cfg"
  define races where "races s = cs_ConsecutiveRaces (chain_state s ?d)" for s
  obtain q r env as0 sta where a: "attestPoll cfg dev v po ?st = (q, r, env, as0, sta)" by (metis prod_cases5)
  obtain w: "witnessChains unicode dev v po q r env (dv_Chains dev) sta = ([], st')" and e: "as0 = []"
    using assms(1) a by (auto simp: pollDevice_def split: prod.splits)
  obtain st1 st2 where s: "witness_chain unicode dev v po q r env ch st1 = ([], st2)"
    "ds_Chains st1 ?d = ds_Chains sta ?d" "ds_Chains st' ?d = ds_Chains st2 ?d"
    "pm_Chains (ds_Metrics st') ?d = pm_Chains (ds_Metrics st2) ?d"
    using witnessChains_at [OF w assms(3,4)] by auto
  have "\<not> passed st2 ?d" using assms(2) s(4) by (simp add: passed_def)
  note q = witness_chain_quiet [OF s(1) this]
  have r: "races st' = races st + 1 \<and> races st' < 3 \<or> \<not> r \<and> races st' = races st"
    using q s(2,3) attestPoll_chains [OF a] by (simp add: races_def chain_state_def maxConsecutiveRaces_def)
  have m: "r \<and> ds_Misses st' = 0 \<or> \<not> r \<and> ds_Misses st' = ds_Misses st + 1 \<and> ds_Misses st' < ?T"
    using attestPoll_quiet [OF a [unfolded e]] witnessChains_other [OF w] by auto
  have ev: "evasion cfg ?d s = min (races s) 2 * ?T + min (ds_Misses s) (?T - 1)" for s
    by (simp add: evasion_def races_def)
  have "min (races st') 2 = min (races st) 2 + 1 \<or> \<not> r \<and> min (races st') 2 = min (races st) 2" using r by auto
  then have "evasion cfg ?d st + 1 \<le> evasion cfg ?d st'"
    unfolding ev using m assms(5,6) by (auto simp: algebra_simps)
  moreover have "0 \<le> races st'" using r assms(7) by (auto simp: races_def)
  ultimately show ?thesis using m assms(6) by (auto simp: races_def)
qed

text \<open>
  C17: a device cannot keep out of the monitor's sight. However it answers, by keeping silent, by
  refusing a chain, by rotating its segments under the fetch, among three times the threshold of
  missed polls there is one that raises an alert or that passes the check of the chain.
\<close>

theorem witness_not_evadable:
  assumes "distinct (map ch_Domain (dv_Chains dev))" "ch \<in> set (dv_Chains dev)" "1 \<le> cg_MissedThreshold cfg"
    and "0 \<le> ds_Misses st" "0 \<le> cs_ConsecutiveRaces (chain_state st (ch_Domain ch))"
    and "3 * cg_MissedThreshold cfg \<le> int (length polls)"
  shows "\<exists>(po, as, st')\<in>set (poll_run unicode cfg dev V polls st). as \<noteq> [] \<or> passed st' (ch_Domain ch)"
proof (rule ccontr)
  let ?T = "cg_MissedThreshold cfg"
  have "int (length ps) \<le> 3 * ?T - 1 - evasion cfg (ch_Domain ch) s"
    if "\<forall>(po, as, st')\<in>set (poll_run unicode cfg dev V ps s). as = [] \<and> \<not> passed st' (ch_Domain ch)"
      "0 \<le> ds_Misses s" "0 \<le> cs_ConsecutiveRaces (chain_state s (ch_Domain ch))" for ps s
    using that
  proof (induction ps arbitrary: s)
    case Nil
    have "min (cs_ConsecutiveRaces (chain_state s (ch_Domain ch))) 2 * ?T \<le> 2 * ?T"
      using assms(3) by (intro mult_right_mono) auto
    then show ?case by (simp add: evasion_def)
  next
    case (Cons p ps)
    obtain s' where p: "pollDevice unicode cfg dev (V p) p s = ([], s')" "\<not> passed s' (ch_Domain ch)"
      using Cons.prems(1) by (cases "pollDevice unicode cfg dev (V p) p s") auto
    note adv = quiet_poll_advances [OF p assms(1-3) Cons.prems(2,3)]
    have "\<forall>(po, as, st')\<in>set (poll_run unicode cfg dev V ps s'). as = [] \<and> \<not> passed st' (ch_Domain ch)"
      using Cons.prems(1) p(1) by simp
    then show ?case using Cons.IH [of s'] adv by auto
  qed
  moreover assume "\<not> (\<exists>(po, as, st')\<in>set (poll_run unicode cfg dev V polls st). as \<noteq> [] \<or> passed st' (ch_Domain ch))"
  moreover have "0 \<le> evasion cfg (ch_Domain ch) st" using assms(3-5) by (simp add: evasion_def)
  ultimately show False using assms(4-6) by fastforce
qed

section \<open>A concrete device\<close>

text \<open>
  A chain with one record, served whole in every poll by a device that does not attest. The hash
  has 32 bytes; the signature of a digest is the digest.
\<close>

definition demo_digest32 :: "u8 list" where
  "demo_digest32 = replicate 32 7"

definition demo_line_record :: audit_record where
  "demo_line_record = demo_body\<lparr>ar_hash := hex_encode demo_digest32, ar_sig := hex_encode demo_digest32\<rparr>"

definition demo_world :: verify_world where
  "demo_world =
     \<lparr>vw_read = (\<lambda>_. None), vw_getenv = (\<lambda>_. ''''), vw_seed_pub = (\<lambda>_. zeroHash),
      vw_audit = \<lparr>ae_sha256 = (\<lambda>m. demo_digest32), ae_sign = (\<lambda>m. m), ae_verify = (\<lambda>m sig. False), ae_marshal = (\<lambda>_. ''{}''),
        ae_unmarshal = (\<lambda>s. if s = ''{}'' then Some demo_line_record else None)\<rparr>,
      vw_ed25519 = (\<lambda>key m sig. sig = m), vw_stamp = '''', vw_error = (\<lambda>_. '''')\<rparr>"

definition demo_cli :: collector_cli where
  "demo_cli = \<lparr>cc_world = demo_world, cc_attest = (\<lambda>_ _. ('''', Some ''exit status 1'')), cc_lower = (\<lambda>s. s)\<rparr>"

definition demo_chain :: Chain where
  "demo_chain = \<lparr>ch_Domain = ''collector'', ch_RemotePath = ''/data/a.jsonl'', ch_HeadField = ''head_collector_hex''\<rparr>"

definition demo_device :: Device where
  "demo_device =
     \<lparr>dv_Name = ''box'', dv_QuoteCmd = ''ssh box attest {nonce}'', dv_FetchChainCmd = ''ssh box cat {chain}'',
      dv_ListSegmentsCmd = '''', dv_ExpectedD = ''d'', dv_CollectorBinForD = '''', dv_AuditPub = hex_encode zeroHash,
      dv_Chains = [demo_chain]\<rparr>"

definition demo_poll :: poll where
  "demo_poll =
     \<lparr>po_fetch = (\<lambda>ph cmd subs. case ph of Fetching d \<Rightarrow> Inr demo_file | _ \<Rightarrow> Inl ''timeout''),
      po_unmarshal = (\<lambda>s. \<lparr>qe_HeadCollector = '''', qe_HeadControl = '''', qe_HeadBroker = ''''\<rparr>),
      po_stage = None, po_mkdir = (\<lambda>p. None), po_write = (\<lambda>p. None), po_nonce = ''00'', po_now = 5, po_workDir = ''/w''\<rparr>"

definition demo_config :: Config where
  "demo_config = \<lparr>cg_MissedThreshold = 3, cg_Devices = [demo_device]\<rparr>"

lemmas demo_monitor_defs = demo_chain_def demo_device_def demo_poll_def demo_config_def

lemma demo_world_lines:
  "map (read_line (keyed demo_world k)) (fst (scanned demo_file)) = [Rec demo_line_record]" "snd (scanned demo_file)"
proof -
  have s: "scan_lines demo_file = [''{}'']" by (simp add: scan_lines_def demo_file_def newline_def)
  have "trimSpace ''{}'' = ''{}''" by (rule trimSpace_graphic) (simp_all add: graphic_def)
  then have "read_line (keyed demo_world k) ''{}'' = Rec demo_line_record"
    by (simp add: read_line_def keyed_def demo_world_def)
  then show "map (read_line (keyed demo_world k)) (fst (scanned demo_file)) = [Rec demo_line_record]" "snd (scanned demo_file)"
    by (simp_all add: scanned_def s max_line_def)
qed

lemma demo_world_verified:
  "\<exists>v. verifySegmentedChain (keyed demo_world k) ''collector'' since [] (Some demo_file) = Inr v \<and>
     cv_tip v = Some demo_digest32 \<and> (cv_foundSince v \<longleftrightarrow> since = Some demo_digest32)"
proof -
  let ?A = "keyed demo_world k" and ?sd = "genesis_seed\<lparr>sd_allowTornTail := True, sd_anchorFirst := False\<rparr>"
  let ?sd1 = "?sd\<lparr>sd_expectSeq := 1\<rparr>"
  have d: "digest ?A ''collector'' p r = demo_digest32" for p r
    by (simp add: digest_def keyed_def demo_world_def)
  have link: "link_record demo_line_record ?sd = Inr ?sd1"
    by (simp add: link_record_iff demo_line_record_def demo_body_def hexEqual_def genesis_seed_def)
  have "record_ok ?A ''collector'' (sd_prev ?sd1) demo_line_record"
    by (simp only: record_ok_def d) (simp add: hexEqual_def demo_line_record_def keyed_def demo_world_def)
  then obtain sd' where sd': "check_body ?A ''collector'' since demo_line_record ?sd1 = Inr sd'"
    using check_body_complete by blast
  from check_body_sound [OF this] have e: "sd_prev sd' = demo_digest32" "sd_foundSince sd' \<longleftrightarrow> since = Some demo_digest32"
    by (simp_all add: d genesis_seed_def)
  have "verifyChainSegment ?A ''collector'' since (Some demo_file) ?sd = Inr (1, sd')"
    by (simp add: verifyChainSegment_def demo_world_lines verify_line_def link sd')
  then show ?thesis using e by (simp add: verifySegmentedChain_def verdict_of_def)
qed

lemma demo_files: "chain_files [(''a.jsonl'', demo_file)] ''a.jsonl'' = ([], Some demo_file)"
  by (simp add: chain_files_def listSegments_def segment_number_def hasPrefix_simps hasPrefix_Nil List.map_filter_def)

lemma demo_hex: "\<exists>s. hex_encode zeroHash = CHR ''0'' # s" "\<exists>s. hex_encode demo_digest32 = CHR ''0'' # s"
proof -
  have z: "replicate 32 b = b # replicate 31 b" for b :: u8 by (simp flip: replicate_Suc)
  have d: "hex_digit 0 = CHR ''0''" by code_simp
  show "\<exists>s. hex_encode zeroHash = CHR ''0'' # s" "\<exists>s. hex_encode demo_digest32 = CHR ''0'' # s"
    unfolding zeroHash_def demo_digest32_def z by (simp_all add: hex_encode_def d)
qed

lemma demo_flags:
  assumes "since = '''' \<or> since = hex_encode demo_digest32"
  shows "parseVerifyArgs ([hex_encode zeroHash] @ (if since \<noteq> '''' then [''--since='' @ since] else [])) =
    Inr \<lparr>va_since = since, va_expectTip = '''', va_rest = [hex_encode zeroHash]\<rparr>"
proof -
  obtain s s' where z: "hex_encode zeroHash = CHR ''0'' # s" "hex_encode demo_digest32 = CHR ''0'' # s'"
    using demo_hex by blast
  have t: "trimSpace (CHR ''0'' # s') = CHR ''0'' # s'" using trimSpace_hex [of demo_digest32] z(2) by simp
  show ?thesis
    using assms unfolding z by (auto simp: parseVerifyArgs_def hasPrefix_simps trimPrefix_def t)
qed

lemma demo_VerifyChain:
  assumes "since = '''' \<or> since = hex_encode demo_digest32" "path_base path = ''a.jsonl''" "no_tip path"
  shows "VerifyChain demo_cli [(''a.jsonl'', demo_file)] path (hex_encode zeroHash) ''collector'' since '''' =
    Inr (hex_encode demo_digest32)"
proof -
  let ?w = "demo_world\<lparr>vw_getenv := (vw_getenv demo_world)(''BULKHEAD_AUDIT_DOMAIN'' := ''collector'')\<rparr>"
  define h where "h = (if since = '''' then None else Some demo_digest32)"
  have pub: "resolveAuditPub ?w [(''a.jsonl'', demo_file)] [hex_encode zeroHash] = Inr (zeroHash, ''arg'')"
  proof -
    have "hex_encode zeroHash \<noteq> ''''" "\<not> hasPrefix (hex_encode zeroHash) ''@''" "length zeroHash = 32"
      using demo_hex(1) by (auto simp: hasPrefix_simps zeroHash_def)
    then show ?thesis by (simp add: resolveAuditPub_def decodePubHex_def trimSpace_hex)
  qed
  have ne: "hex_encode demo_digest32 \<noteq> ''''" "\<not> hasPrefix (hex_encode demo_digest32) ''@''"
    using demo_hex(2) by (auto simp: hasPrefix_simps)
  have l: "length demo_digest32 = 32" by (simp add: demo_digest32_def)
  have since: "parse_since ?w since = Inr h"
    using assms(1) ne l by (auto simp: parse_since_def trimSpace_hex h_def)
  have kw: "keyed ?w zeroHash = keyed demo_world zeroHash" by (simp add: keyed_def)
  obtain v where v: "verifySegmentedChain (keyed demo_world zeroHash) ''collector'' h [] (Some demo_file) = Inr v"
    "cv_tip v = Some demo_digest32" "cv_foundSince v \<longleftrightarrow> h = Some demo_digest32"
    using demo_world_verified by blast
  have dm: "chainDomain (vw_getenv ?w ''BULKHEAD_AUDIT_DOMAIN'') path (path_base path) = ''collector''" by (simp add: chainDomain_def)
  have verdict: "cmd_verdict h '''' (Inr v)" using v(3) by (simp add: cmd_verdict_def h_def)
  have out: "cmdVerifyAudit ?w [(''a.jsonl'', demo_file)]
      (path # [hex_encode zeroHash] @ (if since \<noteq> '''' then [''--since='' @ since] else [])) =
    (ok_line (cv_count v) path ''arg'' ''collector'' (hex_encode demo_digest32) @ since_line h v, 0)"
    unfolding cmdVerifyAudit_def list.case demo_flags [OF assms(1)] sum.case Let_def verify_args.simps pub prod.case since dm kw
    unfolding assms(2) demo_files prod.case v sum.case
    using verdict by (simp add: headOrZero_def v(2) tip_line_def)
  have "no_tip ''arg''" "no_tip ''collector''" by (simp_all add: no_tip_def Contains_str_def hasPrefix_simps hasPrefix_Nil)
  then have tip: "tipFromVerifyOutput (\<lambda>s. s) (ok_line (cv_count v) path ''arg'' ''collector'' (hex_encode demo_digest32) @ since_line h v) =
      hex_encode demo_digest32"
    using tip_read_back [OF assms(3) _ _ l] by blast
  have "hex_encode zeroHash \<noteq> ''''" using demo_hex(1) by auto
  then show ?thesis
    using out tip ne(1) by (simp add: VerifyChain_def Let_def demo_cli_def)
qed

lemma demo_paths:
  "chain_dir unicode demo_poll demo_chain = ''/w/collector''" "chain_path unicode demo_poll demo_chain = ''/w/collector/a.jsonl''"
  "path_base (ch_RemotePath demo_chain) = ''a.jsonl''" "plain_name ''a.jsonl''" "no_tip ''/w/collector/a.jsonl''"
proof -
  show n: "plain_name ''a.jsonl''" by (simp add: plain_name_def)
  show b: "path_base (ch_RemotePath demo_chain) = ''a.jsonl''"
    using path_base_end(1) [OF n, of "''/data''"] by (simp add: demo_chain_def)
  have "sanitize unicode ''collector'' = ''collector''" by (simp add: sanitize_def ascii_def Let_def)
  then show d: "chain_dir unicode demo_poll demo_chain = ''/w/collector''"
    by (simp add: chain_dir_def demo_monitor_defs Join2_def Clean_def)
  show "chain_path unicode demo_poll demo_chain = ''/w/collector/a.jsonl''"
    by (simp add: chain_path_def d b Join2_def Clean_def)
  show "no_tip ''/w/collector/a.jsonl''" by (simp add: no_tip_def Contains_str_def hasPrefix_simps hasPrefix_Nil)
qed

lemma demo_snapshot: "snapshot unicode demo_device demo_poll demo_chain = Some [(''a.jsonl'', demo_file)]"
proof -
  have "fetchOneInto demo_poll demo_device domain dir p name [] =
      Inr (length (filter (\<lambda>ln. trimSpace ln \<noteq> '''') (split_on newline demo_file)), [(name, demo_file)])" for domain dir p name
    by (simp add: fetchOneInto_def demo_poll_def demo_file_def maxChainFileBytes_def)
  moreover have "listRemoteSegments demo_poll ph demo_device demo_chain = Inr []" for ph
    by (simp add: listRemoteSegments_def demo_device_def)
  moreover have "dv_ListSegmentsCmd demo_device = ''''" "po_mkdir demo_poll p = None" for p
    by (simp_all add: demo_device_def demo_poll_def)
  ultimately show ?thesis by (simp add: snapshot_def fetchChainToDir_def demo_paths)
qed

lemma demo_step:
  assumes "cs_PinnedHead (chain_state st ''collector'') = '''' \<or> cs_PinnedHead (chain_state st ''collector'') = hex_encode demo_digest32"
    and "pollDevice unicode demo_config demo_device (live_verifier demo_cli demo_poll) demo_poll st = (as, st')"
  shows "passed st' ''collector'' \<and> cs_PinnedHead (chain_state st' ''collector'') = hex_encode demo_digest32"
proof -
  have v: "vf_VerifyChain (live_verifier demo_cli demo_poll) = VerifyChain demo_cli"
    by (simp add: live_verifier_def collectorVerifier_def)
  have q: "quoted demo_config demo_device (live_verifier demo_cli demo_poll) demo_poll st demo_chain = ''''"
    by (simp add: quoted_def attestPoll_def demo_poll_def Let_def)
  have d: "ch_Domain demo_chain = ''collector''" "dv_AuditPub demo_device = hex_encode zeroHash"
    "distinct (map ch_Domain (dv_Chains demo_device))" "demo_chain \<in> set (dv_Chains demo_device)"
    by (simp_all add: demo_chain_def demo_device_def)
  have "path_base ''/w/collector/a.jsonl'' = ''a.jsonl''"
    using path_base_end(1) [OF demo_paths(4), of "''/w/collector''"] by simp
  note ok = demo_VerifyChain [OF assms(1) this demo_paths(5)]
  show ?thesis
    using pollDevice_chain [OF assms(2) d(3,4)] unfolding v q d(1,2) demo_snapshot demo_paths option.map ok
    by (simp add: chain_effect_def)
qed

lemma demo_verified:
  "verified_states unicode demo_device demo_chain
     (poll_run unicode demo_config demo_device (live_verifier demo_cli) [demo_poll, demo_poll] fresh_state) =
   [(''/w/collector/a.jsonl'', [(''a.jsonl'', demo_file)]), (''/w/collector/a.jsonl'', [(''a.jsonl'', demo_file)])]"
proof -
  let ?poll = "pollDevice unicode demo_config demo_device (live_verifier demo_cli demo_poll) demo_poll"
  obtain as st where s: "?poll fresh_state = (as, st)" by fastforce
  obtain as' st' where s': "?poll st = (as', st')" by fastforce
  have "passed st ''collector''" "cs_PinnedHead (chain_state st ''collector'') = hex_encode demo_digest32"
    using demo_step [OF _ s] by (simp_all add: chain_state_def fresh_state_def)
  moreover from this have "passed st' ''collector''" using demo_step [OF _ s'] by simp
  moreover have "ch_Domain demo_chain = ''collector''" by (simp add: demo_chain_def)
  ultimately show ?thesis
    by (simp add: s s' verified_states_def List.map_filter_simps demo_snapshot demo_paths)
qed

theorem witnessed_history_continues_witness:
  "map snd (verified_states id demo_device demo_chain
     (poll_run id demo_config demo_device (live_verifier demo_cli) [demo_poll, demo_poll] fresh_state)) =
     [[(''a.jsonl'', demo_file)], [(''a.jsonl'', demo_file)]] \<and>
   retained demo_cli ''a.jsonl'' [(''a.jsonl'', demo_file)] = [demo_line_record] \<and>
   later_state demo_cli ''a.jsonl'' ''collector'' [(''a.jsonl'', demo_file)] [(''a.jsonl'', demo_file)]"
proof -
  have h: "retained demo_cli ''a.jsonl'' [(''a.jsonl'', demo_file)] = [demo_line_record]"
    using demo_world_lines(1) [of zeroHash]
    by (simp add: retained_def demo_files all_records_def file_records_def demo_cli_def read_line_keyed)
  have "sized demo_line_record" by (simp add: sized_def demo_line_record_def demo_body_def)
  moreover have "sound_setup demo_cli ''/w/collector/a.jsonl'' (dv_AuditPub demo_device) (ch_Domain demo_chain)"
    using demo_paths(5) no_tip_hex [of zeroHash]
    by (simp add: sound_setup_def demo_device_def demo_chain_def demo_cli_def demo_world_def demo_digest32_def)
      (simp add: no_tip_def Contains_str_def hasPrefix_simps hasPrefix_Nil)
  moreover have "distinct (map ch_Domain (dv_Chains demo_device))" "demo_chain \<in> set (dv_Chains demo_device)" "po_workDir demo_poll \<noteq> ''''"
    by (simp_all add: demo_device_def demo_poll_def)
  ultimately have "successively (later_state demo_cli ''a.jsonl'' (ch_Domain demo_chain))
      (map snd (verified_states id demo_device demo_chain
         (poll_run id demo_config demo_device (live_verifier demo_cli) [demo_poll, demo_poll] fresh_state)))"
    by (intro witnessed_history_continues) (simp_all add: demo_paths demo_snapshot h)
  then show ?thesis using demo_verified [of id] h by (simp add: demo_chain_def)
qed

theorem witness_not_evadable_witness:
  "\<exists>(po, as, st')\<in>set (poll_run id demo_config demo_device (live_verifier demo_cli)
       (replicate 9 (demo_poll\<lparr>po_fetch := (\<lambda>_ _ _. Inl ''timeout'')\<rparr>)) fresh_state). as \<noteq> [] \<or> passed st' ''collector''"
proof -
  have "\<exists>(po, as, st')\<in>set (poll_run id demo_config demo_device (live_verifier demo_cli)
      (replicate 9 (demo_poll\<lparr>po_fetch := (\<lambda>_ _ _. Inl ''timeout'')\<rparr>)) fresh_state). as \<noteq> [] \<or> passed st' (ch_Domain demo_chain)"
    by (rule witness_not_evadable) (simp_all add: demo_device_def demo_config_def fresh_state_def chain_state_def)
  then show ?thesis by (simp add: demo_chain_def)
qed

section \<open>What the device's answers reach\<close>

lemma ReplaceAll_absent: "old \<noteq> '''' \<Longrightarrow> hd old \<notin> set s \<Longrightarrow> ReplaceAll s old new = s"
proof -
  assume o: "old \<noteq> ''''" "hd old \<notin> set s"
  have "Index s old = None"
    by (rule ccontr) (use o Index_append_iff [of s old] in \<open>cases old; auto\<close>)
  then show ?thesis by (subst ReplaceAll.simps) (simp add: o)
qed

lemma ReplaceAll_once:
  "old \<noteq> '''' \<Longrightarrow> hd old \<notin> set a \<Longrightarrow> hd old \<notin> set b \<Longrightarrow> ReplaceAll (a @ old @ b) old new = a @ new @ b"
  by (subst ReplaceAll.simps) (simp add: Index_no_char ReplaceAll_absent)

lemma pad6_digits: "list_all is_digit (pad6 n)" "pad6 n \<noteq> ''''"
  using itoa_digits [of n] by (auto simp: pad6_def list_all_iff is_digit_def)

lemma remote_segment_base:
  assumes "plain_name base" "n < 2 ^ 64"
  shows "remote_segment (base @ ''.'') (x @ CHR ''/'' # segment_name base n) = Some n"
proof -
  have "CHR ''/'' \<notin> set (pad6 n)" using pad6_digits(1) [of n] by (auto simp: list_all_iff is_digit_def)
  then have "plain_name (segment_name base n)"
    using assms(1) pad6_digits(2) [of n] by (auto simp: plain_name_def segment_name_def append_eq_Cons_conv)
  then have "path_base (x @ CHR ''/'' # segment_name base n) = segment_name base n" by (rule path_base_end)
  then show ?thesis
    using parse_pad6 [OF assms(2)] pad6_digits [of n] hasPrefix_append [of "base @ ''.''" "pad6 n"]
    by (simp add: remote_segment_def segment_name_def)
qed

text \<open>
  C0: a path that a device lists is run by the monitor's shell. Only the last element of a listed
  path is looked at. So for every text \<open>C35: x\<close> on one line, a device that lists \<open>x\<close>, a slash and the
  name of a segment makes the monitor substitute \<open>x\<close> as it stands into the command given to
  \<open>sh -c\<close>.
\<close>

theorem listed_path_is_run:
  assumes "dv_ListSegmentsCmd dev \<noteq> ''''" "base = path_base (ch_RemotePath ch)" "plain_name base" "newline \<notin> set base" "n < 2 ^ 64"
    and "x \<noteq> ''''" "graphic (hd x)" "newline \<notin> set x" "path = x @ ''/'' @ segment_name base n"
    and "po_fetch po ph (dv_ListSegmentsCmd dev) [(''chain'', ch_RemotePath ch)] = Inr path"
    and "dv_FetchChainCmd dev = a @ ''{chain}'' @ b" "CHR ''{'' \<notin> set a" "CHR ''{'' \<notin> set b"
  shows "listRemoteSegments po ph dev ch = Inr [path] \<and>
    shell_command (dv_FetchChainCmd dev) [(''chain'', path)] = a @ x @ ''/'' @ segment_name base n @ b"
proof -
  have d: "list_all is_digit (pad6 n)" "pad6 n \<noteq> ''''" by (rule pad6_digits)+
  have "newline \<notin> set (pad6 n)" using d(1) by (auto simp: list_all_iff is_digit_def newline_def)
  then have "newline \<notin> set path" using assms(4,8,9) by (auto simp: segment_name_def newline_def)
  then have split: "split_on newline path = [path]" by (rule split_on_no_sep)
  have "is_digit (last (pad6 n))" using d by (auto simp: list_all_iff)
  then have "graphic (last (pad6 n))" by (auto simp: graphic_def is_digit_def)
  then have "graphic (last path)" "graphic (hd path)" "path \<noteq> ''''"
    using assms(6,7,9) d(2) by (auto simp: segment_name_def)
  then have "trimSpace path = path" using trimSpace_graphic by blast
  moreover have "remote_segment (base @ ''.'') path = Some n" using remote_segment_base [OF assms(3,5), of x] assms(9) by simp
  ultimately have "listRemoteSegments po ph dev ch = Inr [path]"
    using assms(1,2,10) \<open>path \<noteq> ''''\<close> by (simp add: listRemoteSegments_def split)
  moreover have "shell_command (dv_FetchChainCmd dev) [(''chain'', path)] = a @ path @ b"
    using ReplaceAll_once [of "''{chain}''" a b path] assms(11-13) by (simp add: shell_command_def)
  ultimately show ?thesis using assms(9) by simp
qed

theorem listed_path_is_run_witness:
  "listRemoteSegments (demo_poll\<lparr>po_fetch := (\<lambda>_ _ _. Inr ''$(reboot)/a.jsonl.000001'')\<rparr>) (Listing1 ''collector'')
       (demo_device\<lparr>dv_ListSegmentsCmd := ''ls''\<rparr>) demo_chain = Inr [''$(reboot)/a.jsonl.000001''] \<and>
   shell_command ''ssh box cat {chain}'' [(''chain'', ''$(reboot)/a.jsonl.000001'')] = ''ssh box cat $(reboot)/a.jsonl.000001''"
proof -
  let ?p = "''$(reboot)/a.jsonl.000001''"
  have s: "segment_name ''a.jsonl'' 1 = ''a.jsonl.000001''" by code_simp
  have "listRemoteSegments (demo_poll\<lparr>po_fetch := (\<lambda>_ _ _. Inr ?p)\<rparr>) (Listing1 ''collector'') (demo_device\<lparr>dv_ListSegmentsCmd := ''ls''\<rparr>) demo_chain = Inr [?p] \<and>
      shell_command (dv_FetchChainCmd (demo_device\<lparr>dv_ListSegmentsCmd := ''ls''\<rparr>)) [(''chain'', ?p)] =
        ''ssh box cat '' @ ''$(reboot)'' @ ''/'' @ segment_name ''a.jsonl'' 1 @ ''''"
    by (rule listed_path_is_run) (simp_all add: s demo_paths demo_device_def graphic_def newline_def del: One_nat_def)
  then show ?thesis unfolding s by (simp add: demo_device_def)
qed

text \<open>A captured pin is never replaced.\<close>

lemma attestPoll_pin:
  "attestPoll cfg dev v po st = (q, r, env, as, st') \<Longrightarrow> ds_AKPinHex st \<noteq> '''' \<Longrightarrow> ds_AKPinHex st' = ds_AKPinHex st"
  by (auto simp: attestPoll_def Let_def split: sum.splits list.splits option.splits prod.splits if_splits)

lemma pollDevice_pin:
  assumes "pollDevice unicode cfg dev v po st = (as, st')"
  shows "\<exists>q r env as0 sta. attestPoll cfg dev v po (st\<lparr>ds_Metrics := no_metrics\<rparr>) = (q, r, env, as0, sta)
    \<and> set as0 \<subseteq> set as \<and> ds_AKPinHex st' = ds_AKPinHex sta"
  using assms witnessChains_other by (fastforce simp: pollDevice_def split: prod.splits)

lemma poll_run_pin:
  "ds_AKPinHex st = pin \<Longrightarrow> pin \<noteq> '''' \<Longrightarrow> \<forall>(po, as, st')\<in>set (poll_run unicode cfg dev V polls st). ds_AKPinHex st' = pin"
proof (induction polls arbitrary: st)
  case (Cons p polls)
  obtain as st' where p: "pollDevice unicode cfg dev (V p) p st = (as, st')" by fastforce
  then have "ds_AKPinHex st' = pin" using pollDevice_pin [OF p] attestPoll_pin Cons.prems by fastforce
  then show ?case using Cons.IH [of st'] Cons.prems(2) p by auto
qed simp

text \<open>
  C36: a first contact whose quote does not verify is pinned. If the enrolment of a device gets an
  envelope whose key can be read, but whose quote \<open>attest verify\<close> rejects, an alert is raised,
  but the device does not count as failed, the key of the rejected envelope is saved as its pin,
  and no later poll replaces it. The comment on \<open>enrollResult\<close> says that nothing is pinned when
  the quote does not verify.
\<close>

theorem rejected_quote_is_enrolled:
  assumes "cg_Devices cfg = [dev]" "store (stateFile unicode dev) = None" "saved 0"
    and "po_fetch (pl 0) Quote (dv_QuoteCmd dev) [(''nonce'', po_nonce (pl 0))] = Inr env" "env \<noteq> ''''" "po_stage (pl 0) = None"
    and "vf_AKPub (V (pl 0)) env = (pin, None)" "pin \<noteq> ''''" "dv_ExpectedD dev \<noteq> ''''"
    and "vf_VerifyQuote (V (pl 0)) env (dv_ExpectedD dev) (po_nonce (pl 0)) pin = Some e"
    and "pollDevice unicode cfg dev (V (pl 0)) (pl 0) fresh_state = (as, st)"
    and "runEnroll unicode cfg V pl saved store = (failed, store')"
  shows "(\<exists>a\<in>set as. aw_Kind a = ''quote-verify-failed'') \<and> failed = 0 \<and> ds_AKPinHex (loadState unicode store' dev) = pin \<and>
    (\<forall>(po, as, st')\<in>set (poll_run unicode cfg dev V polls (loadState unicode store' dev)). ds_AKPinHex st' = pin)"
proof -
  obtain q r env' as0 sta where a: "attestPoll cfg dev (V (pl 0)) (pl 0) (fresh_state\<lparr>ds_Metrics := no_metrics\<rparr>) = (q, r, env', as0, sta)"
    "set as0 \<subseteq> set as" "ds_AKPinHex st = ds_AKPinHex sta"
    using pollDevice_pin [OF assms(11)] by blast
  obtain c cs where c: "env = c # cs" using assms(5) by (cases env) auto
  have "ds_AKPinHex sta = pin \<and> (\<exists>a\<in>set as0. aw_Kind a = ''quote-verify-failed'')"
    using a(1) assms(4,6-10) by (auto simp: attestPoll_def Let_def fresh_state_def c)
  then have st: "ds_AKPinHex st = pin" "\<exists>a\<in>set as. aw_Kind a = ''quote-verify-failed''" using a by auto
  have "loadState unicode store dev = fresh_state" using assms(2) by (simp add: loadState_def)
  then have e: "failed = 0" "store' = store(stateFile unicode dev \<mapsto> st\<lparr>ds_Metrics := no_metrics\<rparr>)"
    using assms(1,3,8,11,12) st(1) by (auto simp: runEnroll_def enrollResultFrom_def saveState_def)
  then have "ds_AKPinHex (loadState unicode store' dev) = pin" using st(1) by (simp add: loadState_def)
  then show ?thesis using st(2) e(1) poll_run_pin [OF _ assms(8)] by blast
qed

definition rejecting_cli :: collector_cli where
  "rejecting_cli =
     demo_cli\<lparr>cc_attest := (\<lambda>env args. if args ! 1 = ''akpub'' then (hex_encode zeroHash, None) else ('''', Some ''exit status 1''))\<rparr>"

lemma lastHexToken_hex: "lastHexToken (hex_encode zeroHash) = hex_encode zeroHash"
proof -
  obtain s where s: "hex_encode zeroHash = CHR ''0'' # s" using demo_hex by blast
  then have "trimPrefix (hex_encode zeroHash) ''D='' = hex_encode zeroHash" by (simp add: trimPrefix_def hasPrefix_simps)
  moreover have "Fields (hex_encode zeroHash) = [hex_encode zeroHash]"
    using Fields_graphic [OF hex_encode_graphic [of zeroHash]] s by simp
  ultimately show ?thesis by (simp add: lastHexToken_def length_hex_encode isHex_def zeroHash_def)
qed

theorem rejected_quote_is_enrolled_witness:
  "\<exists>as st store'.
     pollDevice id demo_config demo_device (live_verifier rejecting_cli demo_poll)
       (demo_poll\<lparr>po_fetch := (\<lambda>_ _ _. Inr ''{}'')\<rparr>) fresh_state = (as, st) \<and>
     (\<exists>a\<in>set as. aw_Kind a = ''quote-verify-failed'') \<and>
     runEnroll id demo_config (\<lambda>_. live_verifier rejecting_cli demo_poll) (\<lambda>_. demo_poll\<lparr>po_fetch := (\<lambda>_ _ _. Inr ''{}'')\<rparr>)
       (\<lambda>_. True) Map.empty = (0, store') \<and>
     ds_AKPinHex (loadState id store' demo_device) = hex_encode zeroHash"
proof -
  let ?po = "demo_poll\<lparr>po_fetch := (\<lambda>_ _ _. Inr ''{}'')\<rparr>" and ?v = "live_verifier rejecting_cli demo_poll"
  obtain as st where p: "pollDevice id demo_config demo_device ?v ?po fresh_state = (as, st)" by fastforce
  obtain failed store' where r: "runEnroll id demo_config (\<lambda>_. ?v) (\<lambda>_. ?po) (\<lambda>_. True) Map.empty = (failed, store')" by fastforce
  have pin: "vf_AKPub ?v env = (hex_encode zeroHash, None)" "vf_VerifyQuote ?v env d nonce pin = Some ''exit status 1''" for env d nonce pin
    by (simp_all add: live_verifier_def collectorVerifier_def rejecting_cli_def lastHexToken_hex trimSpace_hex)
  have ne: "hex_encode zeroHash \<noteq> ''''" "po_stage demo_poll = None" using demo_hex(1) by (auto simp: demo_poll_def)
  have "(\<exists>a\<in>set as. aw_Kind a = ''quote-verify-failed'') \<and> failed = 0 \<and>
      ds_AKPinHex (loadState id store' demo_device) = hex_encode zeroHash \<and>
      (\<forall>(po, as, st')\<in>set (poll_run id demo_config demo_device (\<lambda>_. ?v) [] (loadState id store' demo_device)).
         ds_AKPinHex st' = hex_encode zeroHash)"
    by (rule rejected_quote_is_enrolled [OF _ _ _ _ _ _ _ _ _ _ p r, where env = "''{}''"])
      (simp_all add: pin ne demo_config_def demo_device_def)
  then show ?thesis using p r by blast
qed

end
