(* ===== verification/Spec2Isabelle.thy ===== *)
theory Spec2Isabelle
  imports Event_Wire Privilege_Gain Grant_Trace Grant_Race Lineage Audit_Retention Quarantine Egress_Proxy Chain_Monitor
begin

text \<open>
  Verification of bulkhead: the kernel object, collector and broker (\<^verbatim>\<open>src/src/collector\<close>), the
  agent runtime (\<^verbatim>\<open>src/src/agent\<close>), the egress proxy (\<^verbatim>\<open>src/src/proxy\<close>) and the chain monitor
  (\<^verbatim>\<open>src/src/chain-monitor\<close>).

  \<^bold>\<open>The program.\<close> A BPF object (\<^verbatim>\<open>provenance.bpf.c\<close>) attaches five programs to Linux security
  hooks. They share four maps: enforcement flags per hook, the trusted cgroups, an egress
  manifest per cgroup and one-shot grants per cgroup and hook. Every decision goes to a ring
  buffer. A collector process reads the ring buffer and appends the decisions to a signed
  hash chain; it also serves a control socket and collects garbage from the maps. A broker
  process takes requests of agents (delegate, expand egress, grant once), holds them at a
  gate until the operator decides, executes approved ones on the same maps, and keeps a
  signed chain of its own. A verifier checks the chains at boot and for relying parties. The
  agent is a loop around a language model, or in quarantine mode an interpreter of plans; its
  way out to the network is a proxy that checks, records and, where asked to, inspects. A
  monitor on another host polls the devices, has the verifier check each chain against the
  head it pinned last, and raises alerts.

  \<^bold>\<open>The kernel side.\<close>
  \<^item> \<open>Bulkhead_Prelude\<close>: word types, lemma collections, byte encodings.
  \<^item> \<open>C_Types\<close>, \<open>Vmlinux\<close>: C types with sizes and offsets; the structs, enumerations and
    hook prototypes the object uses of \<^verbatim>\<open>headers/vmlinux.h\<close>.
  \<^item> \<open>Bpf_Helper_Defs\<close>, \<open>Bpf_Helpers\<close>, \<open>Bpf_Endian\<close>, \<open>Bpf_Tracing\<close>: the vendored headers, as
    a table of all helpers and as functions for the macros, each argument a value.
  \<^item> \<open>Bpf_Maps\<close>: hash and array maps with capacities and update flags, and the interface
    locales for maps; \<open>Bpf_Runtime\<close>: what a program sees of the kernel (clock, cgroup, memory
    that may be unreadable) as a record.
  \<^item> \<open>Egress_Classify\<close>: \<open>classify_v4\<close>, \<open>classify_dest\<close>, shown equal to prefix tables.
  \<^item> \<open>Provenance\<close>: the state of the maps (\<open>bpf_state\<close>), every function and program of the
    object, and their \<open>BPF_PROG\<close> entry points.
  \<^item> \<open>Hook_Policy\<close>: an abstract policy and the simulation by the programs; \<open>Privilege_Gain\<close>:
    the set-uid and capability hooks over memory; \<open>Object_Abi\<close>: declarations and prototypes;
    \<open>Grant_Trace\<close>: histories of hook calls and map writes; \<open>Grant_Race\<close>: one-shot grants at
    the level of single memory operations of many threads.
  \<^item> \<open>Event_Wire\<close>: the byte layout of an event and the collector's decoder.

  \<^bold>\<open>The administration.\<close> Go strings are lists of bytes; \<open>Go_Strings\<close> holds what the code uses
  of the standard library. The cgroup file system, the clock, random digits, the start of a
  unit and whether a pinned map opens are fields of \<open>broker_env\<close>.
  \<^item> \<open>Egress_Classes\<close> (\<^verbatim>\<open>main.go\<close>): class bits, \<open>parseClasses\<close>, \<open>classNames\<close>.
  \<^item> \<open>Agent_Identity\<close> (\<^verbatim>\<open>control.go\<close>, \<^verbatim>\<open>broker.go\<close>, \<^verbatim>\<open>narrow.go\<close>): who a caller is, instance
    names and generations, the drop-in of a child, the operator's targets.
  \<^item> \<open>Approval_Gate\<close> (\<^verbatim>\<open>broker.go\<close>): pending requests, verdicts and time-outs, with the
    traces of the gate.
  \<^item> \<open>Broker\<close> (\<^verbatim>\<open>broker.go\<close>, \<^verbatim>\<open>grant.go\<close>): requests, executors, decision records.
    \<open>Operator_Socket\<close> (\<^verbatim>\<open>broker.go\<close>, \<^verbatim>\<open>narrow.go\<close>): allow, deny and narrow.
    \<open>Control_Socket\<close> (\<^verbatim>\<open>control.go\<close>): every verb that writes a map.
    \<open>Gc\<close> (\<^verbatim>\<open>gc.go\<close>): passes, ticks and the reconciliation of the trusted set.
  \<^item> \<open>Authority\<close>: what an approved request lets the hooks allow. \<open>Lineage\<close>: runs of hooks,
    requests, narrowings, control connections and collections on one state, and what
    never grows along them.

  \<^bold>\<open>The audit chains.\<close> SHA-256, Ed25519 and the JSON codec are the fields of \<open>audit_env\<close>.
  \<^item> \<open>Audit_Record\<close> (\<^verbatim>\<open>main.go\<close>): records, the canonical encoding (injective), valid UTF-8.
  \<^item> \<open>Audit_Verify\<close> (\<^verbatim>\<open>verify.go\<close>): the verifier of a file, of a segmented chain, and of the
    command; soundness, and that a tip commits to the history behind it. A break of SHA-256
    is always a collision, or a zero hash, among the messages hashed for the given records.
  \<^item> \<open>Audit_Log\<close> (\<^verbatim>\<open>main.go\<close>): opening, appending, rotating and pruning, with each call that
    can fail as a parameter; the verifier accepts what the log renders. Segment numbers are
    natural numbers: \<^verbatim>\<open>segNext\<close> is a 64-bit counter of rotations.
  \<^item> \<open>Audit_Durability\<close>: the invariant between an open log and its files, kept by every
    operation and restored after power loss at any byte; \<open>Audit_Retention\<close>: the bound on the
    disk, and the hole a failed unlink can leave. What is asked of the codec and of the
    cryptography (\<open>json_ok\<close>, \<open>crypto_ok\<close>) is shown to hold for a concrete codec.
  \<^item> \<open>Audit_Command\<close> (\<^verbatim>\<open>verify.go\<close>): the command \<open>verify-audit\<close> with its arguments, the choice of
    the key, its output and exit status; soundness for chains whose oldest segments are pruned.
  \<^item> \<open>Chain_Monitor\<close> (\<^verbatim>\<open>chain-monitor/main.go\<close>): polls, pins, alerts and enrolment. The monitor's
    use of the command is the locale \<open>head_witness\<close>, interpreted on \<open>VerifyChain\<close>. What passed a
    check continues what passed before, and no device stays unchecked without an alert. Two
    properties show flaws: a listed path reaches the shell, and a rejected quote is pinned. What
    a device answers in a poll is arbitrary (\<open>poll\<close>).

  \<^bold>\<open>The agent and its egress.\<close> The model, the network, the clock and the collector command are
  fields of \<open>agent_env\<close>; what a run does is a list of actions. \<open>Go_Net\<close> holds what the code uses
  of the package \<open>net\<close>: addresses, networks and \<open>host:port\<close> strings.
  \<^item> \<open>Agent_Tools\<close> (\<^verbatim>\<open>protocol.go\<close>, \<^verbatim>\<open>tools.go\<close>, \<^verbatim>\<open>loop.go\<close>): directives, the three tools and the
    loop; what the loop can do, and that the bytes of a page never reach the model.
  \<^item> \<open>Quarantine\<close> (\<^verbatim>\<open>planexec.go\<close>, \<^verbatim>\<open>qresponse.go\<close>, \<^verbatim>\<open>main.go\<close>): plans as a small typed language,
    with type safety, completion, and noninterference of fetched bytes with control.
  \<^item> \<open>Egress_Allowlist\<close> (\<^verbatim>\<open>allowlist.go\<close>): loading and matching, against a list of entries.
    \<open>Egress_Guard\<close> (\<^verbatim>\<open>proxy.go\<close>): the check of every dialled address, against a list of networks
    and against the kernel's own classes.
  \<^item> \<open>Egress_Proxy\<close> (\<^verbatim>\<open>proxy.go\<close>, \<^verbatim>\<open>mitm.go\<close>, \<^verbatim>\<open>audit.go\<close>): a connection as a list of actions;
    nothing flows that was not allowed, guarded and recorded.

  \<^bold>\<open>Bounds and termination.\<close> All functions are total. The programs have no loops. The lengths
  of Go strings are below 2 to the 63 (\<open>sized\<close>); the gate's counter is 64 bits wide and its
  properties ask for fewer than 2 to the 64 operations; lines of the chain are below the
  verifier's buffer of 8 MiB.

  \<^bold>\<open>Not modelled.\<close> The rest of \<^verbatim>\<open>vmlinux.h\<close>, which the object does not use. In the collector: loading
  and pinning of the object, the ring-buffer loop, sockets and peer credentials (their results are
  parameters), the text of \<open>LIST\<close>, and TPM attestation (\<^verbatim>\<open>attest.go\<close>), which are calls into
  libraries and the operating system. In the agent: its probes and the canned model, which are
  test vehicles. In the proxy: the copying of bytes, deadlines, the TLS library, the making of
  certificates, and its own copy of the signed log. In the monitor: reading the configuration, the
  text of metrics and notices, the alert command and the timer. The router and the vsock
  multiplexer are separate programs that do not touch the maps.
\<close>

end
